(* ===== verification/Prelude.thy ===== *)
theory Prelude
  imports Main "HOL-Library.Word" "HOL-Library.Multiset"
begin

unbundle bit_operations_syntax

text \<open>
  What the components share: the Go types the program uses (bytes, fixed-width integers, peer
  identifiers, loggers), the sentinel errors of the package \<^verbatim>\<open>p2p\<close>, the Go slice and string
  operations the code calls, and the generic lemmas on lists, options, maps and words that the
  component theories rest on.
\<close>

section \<open>Go types\<close>

text \<open>
  A Go \<^verbatim>\<open>[]byte\<close> and a \<^verbatim>\<open>core.PeerID\<close> (a Go string of raw bytes) are lists of 8-bit words; topic
  names, addresses and identifiers are \<^typ>\<open>string\<close>. A Go \<^verbatim>\<open>int\<close> has 64 bits; it is modelled by
  \<^typ>\<open>int\<close> wherever its values are lengths or configuration counts that cannot leave the range.
\<close>

type_synonym byte = "8 word"
type_synonym bytes = "8 word list"
type_synonym peerid = "8 word list"
type_synonym int32 = "32 word"
type_synonym uint32 = "32 word"
type_synonym int64 = "64 word"
type_synonym uint64 = "64 word"

text \<open>The conversion of a Go string literal to its bytes.\<close>

definition bytes_of_string :: "string \<Rightarrow> bytes" where
  "bytes_of_string s = map (\<lambda>c. word_of_nat (of_char c)) s"

text \<open>
  Logging has no effect on the state of a component. The only thing the code asks of a logger is
  whether its level is \<^verbatim>\<open>LogTrace\<close>; a nil interface value is \<^const>\<open>None\<close>.
\<close>

record logger =
  isLevelTrace :: bool

section \<open>Automation\<close>

named_theorems go_simps "the Go slice and string operations as list operations"
named_theorems wf_intros "the operations keep the invariant of their component"

section \<open>Errors\<close>

text \<open>
  The sentinel errors of \<^verbatim>\<open>p2p/errors.go\<close>. An error made with \<^verbatim>\<open>fmt.Errorf("%w ...", err)\<close> wraps
  \<^verbatim>\<open>err\<close>, and the callers look at it with \<^verbatim>\<open>errors.Is\<close>: it is modelled by the sentinel it wraps.
  \<open>ErrExternal\<close> is an error that code outside the repository returned, with its message.
\<close>

datatype (plugins only: code size) p2p_error =
    ErrNilContext
  | ErrNilMockNet
  | ErrNilTopic
  | ErrChannelDoesNotExist
  | ErrChannelCanNotBeDeleted
  | ErrChannelCanNotBeReAdded
  | ErrNilMessage
  | ErrAlreadySeenMessage
  | ErrMessageTooNew
  | ErrMessageTooOld
  | ErrNilDirectSendMessageHandler
  | ErrPeerNotDirectlyConnected
  | ErrNilHost
  | ErrNilValidator
  | ErrPeerDiscoveryProcessAlreadyStarted
  | ErrMessageTooLarge
  | ErrEmptyBufferToSend
  | ErrNilFetchPeersOnTopicHandler
  | ErrInvalidDurationProvided
  | ErrTooManyGoroutines
  | ErrInvalidValue
  | ErrInvalidPortValue
  | ErrInvalidPortsRangeString
  | ErrInvalidStartingPortValue
  | ErrInvalidEndingPortValue
  | ErrEndPortIsSmallerThanStartPort
  | ErrNoFreePortInRange
  | ErrNilSharder
  | ErrNilPeerShardResolver
  | ErrNilMarshaller
  | ErrWrongTypeAssertion
  | ErrNilReconnecter
  | ErrUnwantedPeer
  | ErrNilPeerDenialEvaluator
  | ErrMessageUnmarshalError
  | ErrUnsupportedFields
  | ErrUnsupportedMessageVersion
  | ErrNilSyncTimer
  | ErrNilPreferredPeersHolder
  | ErrInvalidSeedersReconnectionInterval
  | ErrMessageProcessorAlreadyDefined
  | ErrMessageProcessorDoesNotExists
  | ErrWrongTypeAssertions
  | ErrNilConnectionsWatcher
  | ErrNilPeersRatingHandler
  | ErrNilP2pPrivateKey
  | ErrNilP2pSingleSigner
  | ErrNilP2pKeyGenerator
  | ErrNilCacher
  | ErrNilP2PSigner
  | ErrNilPubSub
  | ErrNilDirectSender
  | ErrNilThrottler
  | ErrNilChannelLoadBalancer
  | ErrNilDebugger
  | ErrInvalidConfig
  | ErrNilPeersOnChannel
  | ErrNilConnectionMonitor
  | ErrNilNetwork
  | ErrNilPeerDiscoverer
  | ErrNilConnectionsMetric
  | ErrNilConnectionsHandler
  | ErrNilLogger
  | ErrInvalidTCPAddress
  | ErrInvalidQUICAddress
  | ErrInvalidWSAddress
  | ErrInvalidWebTransportAddress
  | ErrNoTransportsDefined
  | ErrUnknownResourceLimiterType
  | ErrExternal string

text \<open>The result of a fallible operation: \<^const>\<open>Inl\<close> the error, \<^const>\<open>Inr\<close> the value.\<close>

type_synonym 'a res = "p2p_error + 'a"

text \<open>The sequencing of fallible calls: the first error is returned.\<close>

definition andThen :: "'e + 'a \<Rightarrow> ('a \<Rightarrow> 'e + 'b) \<Rightarrow> 'e + 'b" where
  "andThen r f = (case r of Inl e \<Rightarrow> Inl e | Inr x \<Rightarrow> f x)"

lemma andThen_simps [simp]: "andThen (Inl e) f = Inl e" "andThen (Inr x) f = f x"
  by (simp_all add: andThen_def)

lemma andThen_Inr_iff: "andThen r f = Inr y \<longleftrightarrow> (\<exists>x. r = Inr x \<and> f x = Inr y)"
  by (cases r) simp_all

section \<open>Slices and strings\<close>

text \<open>
  The Go expression \<^verbatim>\<open>append(s[:i], s[i+1:]...)\<close> panics when \<^verbatim>\<open>i+1 > len(s)\<close>: \<^const>\<open>None\<close>.
\<close>

definition slice_remove :: "'a list \<Rightarrow> nat \<Rightarrow> 'a list option" where
  "slice_remove s i = (if Suc i \<le> length s then Some (take i s @ drop (Suc i) s) else None)"

text \<open>\<^verbatim>\<open>strings.Contains\<close>\<close>

fun strings_Contains :: "string \<Rightarrow> string \<Rightarrow> bool" where
  "strings_Contains [] sub = (sub = [])"
| "strings_Contains (c # s) sub = (take (length sub) (c # s) = sub \<or> strings_Contains s sub)"

lemma strings_Contains_iff: "strings_Contains s sub \<longleftrightarrow> (\<exists>pre suf. s = pre @ sub @ suf)"
proof (induction s)
  case Nil
  show ?case by auto
next
  case (Cons c s)
  have "take (length sub) (c # s) = sub \<longleftrightarrow> (\<exists>suf. c # s = sub @ suf)"
    by (metis append_eq_conv_conj)
  moreover have "(\<exists>pre suf. s = pre @ sub @ suf) \<longleftrightarrow> (\<exists>pre suf. c # s = (c # pre) @ sub @ suf)"
    by simp
  ultimately show ?case
    using Cons.IH by (simp only: strings_Contains.simps) (metis append_Nil append_Cons list.inject neq_Nil_conv)
qed

lemma slice_remove_Some [go_simps]: "i < length s \<Longrightarrow> slice_remove s i = Some (take i s @ drop (Suc i) s)"
  by (simp add: slice_remove_def)

lemma slice_remove_None [go_simps]: "slice_remove s i = None \<longleftrightarrow> length s \<le> i"
  by (auto simp: slice_remove_def)

lemma mset_slice_remove:
  assumes "i < length s"
  shows "mset (take i s @ drop (Suc i) s) = mset s - {#s ! i#}"
proof -
  have "mset s = mset (take i s @ s ! i # drop (Suc i) s)"
    using assms by (simp flip: id_take_nth_drop)
  then show ?thesis by simp
qed

lemma unat_byte_less: "unat (b :: byte) < 256"
  using unsigned_less [where 'a = nat and w = b] by simp

section \<open>Decimal numbers\<close>

text \<open>\<^verbatim>\<open>fmt.Sprintf("%d", n)\<close>: the decimal digits, with a leading minus sign.\<close>

fun decimal_digits :: "nat \<Rightarrow> string" where
  "decimal_digits n =
     (if n < 10 then [char_of (48 + n)] else decimal_digits (n div 10) @ [char_of (48 + n mod 10)])"

declare decimal_digits.simps [simp del]

definition decimal_int :: "int \<Rightarrow> string" where
  "decimal_int i = (if i < 0 then CHR ''-'' # decimal_digits (nat (- i)) else decimal_digits (nat i))"

text \<open>The value of a string of decimal digits, and its inverse on what is printed.\<close>

definition is_digit :: "char \<Rightarrow> bool" where
  "is_digit c \<longleftrightarrow> 48 \<le> (of_char c :: nat) \<and> (of_char c :: nat) \<le> 57"

definition digits_value :: "nat \<Rightarrow> string \<Rightarrow> nat" where
  "digits_value acc s = foldl (\<lambda>v c. v * 10 + (of_char c - 48)) acc s"

lemma of_char_digit: "d < 10 \<Longrightarrow> (of_char (char_of (48 + d) :: char) :: nat) = 48 + d"
  by simp

lemma decimal_digits_are_digits: "c \<in> set (decimal_digits n) \<Longrightarrow> is_digit c"
proof (induction n rule: decimal_digits.induct)
  case (1 n)
  then show ?case
    by (subst (asm) decimal_digits.simps) (auto simp: is_digit_def split: if_splits)
qed

lemma decimal_digits_not_Nil: "decimal_digits n \<noteq> []"
  by (subst decimal_digits.simps) simp

lemma digits_value_decimal: "digits_value 0 (decimal_digits n) = n"
proof (induction n rule: decimal_digits.induct)
  case (1 n)
  then show ?case
    by (subst decimal_digits.simps) (auto simp: digits_value_def)
qed

lemma decimal_digits_inj: "decimal_digits m = decimal_digits n \<Longrightarrow> m = n"
  by (metis digits_value_decimal)

end
