(* ===== verification/Cacher.thy ===== *)
theory Cacher
  imports Prelude
begin

text \<open>
  The cache the rating handler, the messages handler and the mutex holder keep their data in. Its
  type is the interface \<^verbatim>\<open>types.Cacher\<close> of \<^verbatim>\<open>mx-chain-storage-go\<close>, which is not part of the
  repository: a record of operations is a parameter of the definitions that use a cache, and the
  locale \<open>cacher\<close> states what an implementation promises. The promise is weak enough for an LRU
  cache: a write may evict other keys. The map-backed cache of \<^verbatim>\<open>p2p/mock/cacherMock.go\<close>, which the
  repository's own tests run on, is modelled here and is shown to be an instance.
\<close>

section \<open>The interface\<close>

text \<open>
  The operations of \<^verbatim>\<open>types.Cacher\<close> that the repository calls, over the state \<open>'c\<close> of the cache.
  A read may change the state, as an LRU cache records the access.
\<close>

record ('c, 'v) cacher_ops =
  Put :: "bytes \<Rightarrow> 'v \<Rightarrow> int \<Rightarrow> 'c \<Rightarrow> bool \<times> 'c"
  Get :: "bytes \<Rightarrow> 'c \<Rightarrow> 'v option \<times> 'c"
  Has :: "bytes \<Rightarrow> 'c \<Rightarrow> bool"
  Remove :: "bytes \<Rightarrow> 'c \<Rightarrow> 'c"

text \<open>
  The laws over the contents \<open>view c\<close>: a written key is found with its value, a write leaves
  another key as it is or evicts it, a read changes nothing of the contents, a removed key is gone
  and the others stay.
\<close>

locale cacher =
  fixes ops :: "('c, 'v) cacher_ops"
    and view :: "'c \<Rightarrow> bytes \<Rightarrow> 'v option"
  assumes get_val: "fst (Get ops k c) = view c k"
    and get_view: "view (snd (Get ops k c)) = view c"
    and has_val: "Has ops k c \<longleftrightarrow> view c k \<noteq> None"
    and put_same: "view (snd (Put ops k v n c)) k = Some v"
    and put_other: "k' \<noteq> k \<Longrightarrow> view (snd (Put ops k v n c)) k' \<in> {view c k', None}"
    and remove_view: "view (Remove ops k c) = (view c)(k := None)"
begin

text \<open>A write leaves at most the old contents with the written key.\<close>

lemma put_map_le: "view (snd (Put ops k v n c)) \<subseteq>\<^sub>m (view c)(k \<mapsto> v)"
proof (unfold map_le_def, rule ballI)
  fix k'
  assume "k' \<in> dom (view (snd (Put ops k v n c)))"
  then show "view (snd (Put ops k v n c)) k' = ((view c)(k \<mapsto> v)) k'"
    using put_other [of k' k v n c] by (cases "k' = k") (auto simp: put_same)
qed

lemma put_dom: "dom (view (snd (Put ops k v n c))) \<subseteq> insert k (dom (view c))"
  using map_le_implies_dom_le [OF put_map_le [of k v n c]] by simp

lemma put_in_dom: "k \<in> dom (view (snd (Put ops k v n c)))"
  by (simp add: put_same dom_def)

lemma put_not_dom:
  assumes "k \<noteq> k'" and "k' \<notin> dom (view c)"
  shows "k' \<notin> dom (view (snd (Put ops k v n c)))"
  using assms put_dom by blast

lemma remove_not_dom: "k \<notin> dom (view (Remove ops k c))"
  by (simp add: remove_view)

lemma remove_Some: "view (Remove ops k c) k' = Some w \<longleftrightarrow> k' \<noteq> k \<and> view c k' = Some w"
  by (simp add: remove_view)

lemmas cacher_simps = get_val get_view has_val put_same remove_view

end

section \<open>The map-backed cache\<close>

text \<open>
  \<^verbatim>\<open>CacherMock\<close>: a map from the key bytes to the value. A handler registered for added data is a number;
  \<open>startedHandlers\<close> are the go routines that were started for the handlers, with their arguments.
\<close>

record 'v CacherMock =
  dataMap :: "bytes \<rightharpoonup> 'v"
  addedDataHandlers :: "nat list"
  startedHandlers :: "(nat \<times> bytes \<times> 'v) list"

definition NewCacherMock :: "'v CacherMock" where
  "NewCacherMock = \<lparr>dataMap = Map.empty, addedDataHandlers = [], startedHandlers = []\<rparr>"

definition CacherMock_Clear :: "'v CacherMock \<Rightarrow> 'v CacherMock" where
  "CacherMock_Clear c = c\<lparr>dataMap := Map.empty\<rparr>"

definition callAddedDataHandlers :: "bytes \<Rightarrow> 'v \<Rightarrow> 'v CacherMock \<Rightarrow> 'v CacherMock" where
  "callAddedDataHandlers k v c = c\<lparr>startedHandlers := startedHandlers c @ map (\<lambda>handler. (handler, k, v)) (addedDataHandlers c)\<rparr>"

definition CacherMock_Put :: "bytes \<Rightarrow> 'v \<Rightarrow> int \<Rightarrow> 'v CacherMock \<Rightarrow> bool \<times> 'v CacherMock" where
  "CacherMock_Put k v n c = (False, callAddedDataHandlers k v (c\<lparr>dataMap := (dataMap c)(k \<mapsto> v)\<rparr>))"

definition CacherMock_Get :: "bytes \<Rightarrow> 'v CacherMock \<Rightarrow> 'v option \<times> 'v CacherMock" where
  "CacherMock_Get k c = (dataMap c k, c)"

definition CacherMock_Has :: "bytes \<Rightarrow> 'v CacherMock \<Rightarrow> bool" where
  "CacherMock_Has k c = (dataMap c k \<noteq> None)"

definition CacherMock_Peek :: "bytes \<Rightarrow> 'v CacherMock \<Rightarrow> 'v option" where
  "CacherMock_Peek k c = dataMap c k"

definition CacherMock_HasOrAdd :: "bytes \<Rightarrow> 'v \<Rightarrow> int \<Rightarrow> 'v CacherMock \<Rightarrow> (bool \<times> bool) \<times> 'v CacherMock" where
  "CacherMock_HasOrAdd k v n c =
     (if dataMap c k \<noteq> None then ((True, False), c)
      else ((False, True), callAddedDataHandlers k v (c\<lparr>dataMap := (dataMap c)(k \<mapsto> v)\<rparr>)))"

definition CacherMock_Remove :: "bytes \<Rightarrow> 'v CacherMock \<Rightarrow> 'v CacherMock" where
  "CacherMock_Remove k c = c\<lparr>dataMap := (dataMap c)(k := None)\<rparr>"

text \<open>\<open>keysOf\<close> lists the keys of a map in the order of the iteration.\<close>

definition CacherMock_Keys :: "(bytes set \<Rightarrow> bytes list) \<Rightarrow> 'v CacherMock \<Rightarrow> bytes list" where
  "CacherMock_Keys keysOf c = keysOf (dom (dataMap c))"

definition CacherMock_Len :: "'v CacherMock \<Rightarrow> nat" where
  "CacherMock_Len c = card (dom (dataMap c))"

definition CacherMock_RegisterHandler :: "nat option \<Rightarrow> 'v CacherMock \<Rightarrow> 'v CacherMock" where
  "CacherMock_RegisterHandler h c =
     (case h of None \<Rightarrow> c | Some handler \<Rightarrow> c\<lparr>addedDataHandlers := addedDataHandlers c @ [handler]\<rparr>)"

definition CacherMock_ops :: "('v CacherMock, 'v) cacher_ops" where
  "CacherMock_ops = \<lparr>Put = CacherMock_Put, Get = CacherMock_Get, Has = CacherMock_Has,
                     Remove = CacherMock_Remove\<rparr>"

lemmas CacherMock_defs = CacherMock_ops_def CacherMock_Put_def CacherMock_Get_def
  CacherMock_Has_def CacherMock_Remove_def callAddedDataHandlers_def

interpretation mock_cache: cacher CacherMock_ops dataMap
  by unfold_locales (auto simp: CacherMock_defs)

lemma CacherMock_cacher: "cacher CacherMock_ops dataMap"
  by (rule mock_cache.cacher_axioms)

text \<open>The map-backed cache never evicts: a write changes the written key alone.\<close>

lemma CacherMock_put_exact:
  "dataMap (snd (Put CacherMock_ops k v n c)) = (dataMap c)(k \<mapsto> v)"
  by (simp add: CacherMock_defs)

text \<open>A write starts every registered handler once, with the written key and value; \<open>HasOrAdd\<close> does so only when it adds.\<close>

lemma CacherMock_handlers_started:
  "startedHandlers (snd (CacherMock_Put k v n c)) = startedHandlers c @ map (\<lambda>h. (h, k, v)) (addedDataHandlers c)"
  "CacherMock_HasOrAdd k v n c = ((h, added), c') \<Longrightarrow> added = (\<not> h) \<and> h = CacherMock_Has k c \<and> CacherMock_Has k c' \<and>
     startedHandlers c' = startedHandlers c @ (if added then map (\<lambda>h. (h, k, v)) (addedDataHandlers c) else [])"
  by (auto simp: CacherMock_HasOrAdd_def CacherMock_defs split: if_splits)

end
