(* ===== verification/PeersRating.thy ===== *)
theory PeersRating
  imports Cacher
begin

text \<open>
  The peers rating handler (\<^verbatim>\<open>p2p/rating/peersRatingHandler.go\<close>) and the peers rating monitor
  (\<^verbatim>\<open>p2p/rating/peersRatingMonitor.go\<close>). The handler keeps an \<^verbatim>\<open>int32\<close> rating per peer in one of two
  caches, the top rated and the bad rated tier; the monitor reads the same caches. The caches are
  the ones of theory \<open>Cacher\<close>: every result holds for a cache that evicts.
\<close>

section \<open>The rating handler\<close>

text \<open>A cache holds values of type \<^verbatim>\<open>interface{}\<close>: an \<^verbatim>\<open>int32\<close> or something else.\<close>

datatype iface = Int32 int32 | OtherValue string

text \<open>The type assertion \<^verbatim>\<open>v, _ := x.(int32)\<close> gives 0 for a value of another type.\<close>

fun assert_int32 :: "iface \<Rightarrow> int32" where
  "assert_int32 (Int32 r) = r"
| "assert_int32 (OtherValue _) = 0"

datatype tier = topRatedTier | badRatedTier

abbreviation defaultRating :: int32 where "defaultRating \<equiv> 0"
abbreviation minRating :: int32 where "minRating \<equiv> - 100"
abbreviation maxRating :: int32 where "maxRating \<equiv> 100"
abbreviation increaseFactor :: int32 where "increaseFactor \<equiv> 2"
abbreviation decreaseFactor :: int32 where "decreaseFactor \<equiv> - 1"
abbreviation minNumOfPeers :: int where "minNumOfPeers \<equiv> 1"
abbreviation int32Size :: int where "int32Size \<equiv> 4"

record 'c ArgPeersRatingHandler =
  TopRatedCache :: "'c option"
  BadRatedCache :: "'c option"
  Logger :: "logger option"

record 'c peersRatingHandler =
  topRatedCache :: 'c
  badRatedCache :: 'c
  log :: logger

definition checkHandlerArgs :: "'c ArgPeersRatingHandler \<Rightarrow> p2p_error option" where
  "checkHandlerArgs args =
     (if TopRatedCache args = None then Some ErrNilCacher
      else if BadRatedCache args = None then Some ErrNilCacher
      else if Logger args = None then Some ErrNilLogger
      else None)"

definition NewPeersRatingHandler :: "'c ArgPeersRatingHandler \<Rightarrow> 'c peersRatingHandler res" where
  "NewPeersRatingHandler args =
     (case checkHandlerArgs args of
        Some err \<Rightarrow> Inl err
      | None \<Rightarrow> Inr \<lparr>topRatedCache = the (TopRatedCache args), badRatedCache = the (BadRatedCache args),
                      log = the (Logger args)\<rparr>)"

definition getOldRating ::
  "('c, iface) cacher_ops \<Rightarrow> peerid \<Rightarrow> 'c peersRatingHandler \<Rightarrow> (int32 \<times> bool) \<times> 'c peersRatingHandler" where
  "getOldRating ops pid prh =
     (let (oldRating, top) = Get ops pid (topRatedCache prh); prh = prh\<lparr>topRatedCache := top\<rparr>
      in case oldRating of
           Some v \<Rightarrow> ((assert_int32 v, True), prh)
         | None \<Rightarrow>
             (let (oldRating, bad) = Get ops pid (badRatedCache prh); prh = prh\<lparr>badRatedCache := bad\<rparr>
              in case oldRating of
                   Some v \<Rightarrow> ((assert_int32 v, True), prh)
                 | None \<Rightarrow> ((defaultRating, False), prh)))"

definition computeRatingTier :: "int32 \<Rightarrow> tier" where
  "computeRatingTier peerRating = (if defaultRating \<le>s peerRating then topRatedTier else badRatedTier)"

definition putTop :: "('c, iface) cacher_ops \<Rightarrow> peerid \<Rightarrow> int32 \<Rightarrow> 'c peersRatingHandler \<Rightarrow> 'c peersRatingHandler" where
  "putTop ops pid r prh = prh\<lparr>topRatedCache := snd (Put ops pid (Int32 r) int32Size (topRatedCache prh))\<rparr>"

definition putBad :: "('c, iface) cacher_ops \<Rightarrow> peerid \<Rightarrow> int32 \<Rightarrow> 'c peersRatingHandler \<Rightarrow> 'c peersRatingHandler" where
  "putBad ops pid r prh = prh\<lparr>badRatedCache := snd (Put ops pid (Int32 r) int32Size (badRatedCache prh))\<rparr>"

definition movePeerToNewTier ::
  "('c, iface) cacher_ops \<Rightarrow> int32 \<Rightarrow> tier \<Rightarrow> peerid \<Rightarrow> 'c peersRatingHandler \<Rightarrow> 'c peersRatingHandler" where
  "movePeerToNewTier ops newRating newTier pid prh =
     (if newTier = topRatedTier
      then putTop ops pid newRating (prh\<lparr>badRatedCache := Remove ops pid (badRatedCache prh)\<rparr>)
      else putBad ops pid newRating (prh\<lparr>topRatedCache := Remove ops pid (topRatedCache prh)\<rparr>))"

definition updateRatingCacher ::
  "('c, iface) cacher_ops \<Rightarrow> peerid \<Rightarrow> int32 \<Rightarrow> int32 \<Rightarrow> 'c peersRatingHandler \<Rightarrow> 'c peersRatingHandler" where
  "updateRatingCacher ops pid oldRating newRating prh =
     (let oldTier = computeRatingTier oldRating; newTier = computeRatingTier newRating
      in if newTier = oldTier
         then (if newTier = topRatedTier then putTop ops pid newRating prh else putBad ops pid newRating prh)
         else movePeerToNewTier ops newRating newTier pid prh)"

text \<open>The new rating of a known peer: the \<^verbatim>\<open>int32\<close> sum, then the two clamps.\<close>

definition clampedRating :: "int32 \<Rightarrow> int32 \<Rightarrow> int32" where
  "clampedRating oldRating updateFactor =
     (let newRating = oldRating + updateFactor;
          newRating = (if maxRating <s newRating then maxRating else newRating)
      in if newRating <s minRating then minRating else newRating)"

definition updateRating ::
  "('c, iface) cacher_ops \<Rightarrow> peerid \<Rightarrow> int32 \<Rightarrow> 'c peersRatingHandler \<Rightarrow> 'c peersRatingHandler" where
  "updateRating ops pid updateFactor prh =
     (let ((oldRating, found), prh) = getOldRating ops pid prh
      in if \<not> found then putTop ops pid defaultRating prh
         else updateRatingCacher ops pid oldRating (clampedRating oldRating updateFactor) prh)"

definition IncreaseRating ::
  "('c, iface) cacher_ops \<Rightarrow> peerid \<Rightarrow> 'c peersRatingHandler \<Rightarrow> 'c peersRatingHandler" where
  "IncreaseRating ops pid prh = updateRating ops pid increaseFactor prh"

definition DecreaseRating ::
  "('c, iface) cacher_ops \<Rightarrow> peerid \<Rightarrow> 'c peersRatingHandler \<Rightarrow> 'c peersRatingHandler" where
  "DecreaseRating ops pid prh = updateRating ops pid decreaseFactor prh"

text \<open>
  \<open>splitPeersByTiers\<close>: the loop over the peers, with the two result slices as accumulators.
\<close>

fun splitPeersByTiers_loop ::
  "('c, iface) cacher_ops \<Rightarrow> peerid list \<Rightarrow> peerid list \<Rightarrow> peerid list \<Rightarrow> 'c peersRatingHandler
   \<Rightarrow> (peerid list \<times> peerid list) \<times> 'c peersRatingHandler" where
  "splitPeersByTiers_loop ops [] topRated badRated prh = ((topRated, badRated), prh)"
| "splitPeersByTiers_loop ops (peer # peers) topRated badRated prh =
     (let inTop = Has ops peer (topRatedCache prh);
          topRated = (if inTop then topRated @ [peer] else topRated);
          inBad = Has ops peer (badRatedCache prh);
          badRated = (if inBad then badRated @ [peer] else badRated)
      in if \<not> inTop \<and> \<not> inBad
         then splitPeersByTiers_loop ops peers (topRated @ [peer]) badRated (putTop ops peer defaultRating prh)
         else splitPeersByTiers_loop ops peers topRated badRated prh)"

definition splitPeersByTiers ::
  "('c, iface) cacher_ops \<Rightarrow> peerid list \<Rightarrow> 'c peersRatingHandler
   \<Rightarrow> (peerid list \<times> peerid list) \<times> 'c peersRatingHandler" where
  "splitPeersByTiers ops peers prh = splitPeersByTiers_loop ops peers [] [] prh"

text \<open>
  \<open>displayPeersRating\<close> reads the caches when the logger is at trace level; its value is what
  is logged, per peer the rating or \<^const>\<open>None\<close> for "invalid".
\<close>

fun displayPeersRating_loop ::
  "('c, iface) cacher_ops \<Rightarrow> peerid list \<Rightarrow> 'c peersRatingHandler
   \<Rightarrow> (peerid \<times> int32 option) list \<times> 'c peersRatingHandler" where
  "displayPeersRating_loop ops [] prh = ([], prh)"
| "displayPeersRating_loop ops (peer # peers) prh =
     (let (rating, top) = Get ops peer (topRatedCache prh); prh = prh\<lparr>topRatedCache := top\<rparr>;
          (rating, prh) = (if rating \<noteq> None then (rating, prh)
                           else let (rating, bad) = Get ops peer (badRatedCache prh)
                                in (rating, prh\<lparr>badRatedCache := bad\<rparr>));
          shown = (case rating of Some (Int32 r) \<Rightarrow> Some r | _ \<Rightarrow> None);
          (lines, prh) = displayPeersRating_loop ops peers prh
      in ((peer, shown) # lines, prh))"

definition displayPeersRating ::
  "('c, iface) cacher_ops \<Rightarrow> peerid list \<Rightarrow> 'c peersRatingHandler
   \<Rightarrow> (peerid \<times> int32 option) list \<times> 'c peersRatingHandler" where
  "displayPeersRating ops peers prh =
     (if \<not> isLevelTrace (log prh) then ([], prh) else displayPeersRating_loop ops peers prh)"

definition GetTopRatedPeersFromList ::
  "('c, iface) cacher_ops \<Rightarrow> peerid list \<Rightarrow> int \<Rightarrow> 'c peersRatingHandler
   \<Rightarrow> peerid list \<times> 'c peersRatingHandler" where
  "GetTopRatedPeersFromList ops peers minNumOfPeersExpected prh =
     (if minNumOfPeersExpected < minNumOfPeers \<or> peers = []
      then ([], snd (displayPeersRating ops [] prh))
      else
        (let ((peersTopRated, peersBadRated), prh) = splitPeersByTiers ops peers prh;
             peersTopRated = (if int (length peersTopRated) < minNumOfPeersExpected
                              then peersTopRated @ peersBadRated else peersTopRated)
         in (peersTopRated, snd (displayPeersRating ops peersTopRated prh))))"

text \<open>The exported operations as one step, and a sequence of calls.\<close>

datatype rating_op = Increase peerid | Decrease peerid | TopRated "peerid list" int

fun rating_step :: "('c, iface) cacher_ops \<Rightarrow> rating_op \<Rightarrow> 'c peersRatingHandler \<Rightarrow> 'c peersRatingHandler" where
  "rating_step ops (Increase pid) prh = IncreaseRating ops pid prh"
| "rating_step ops (Decrease pid) prh = DecreaseRating ops pid prh"
| "rating_step ops (TopRated peers n) prh = snd (GetTopRatedPeersFromList ops peers n prh)"

definition rating_run :: "('c, iface) cacher_ops \<Rightarrow> rating_op list \<Rightarrow> 'c peersRatingHandler \<Rightarrow> 'c peersRatingHandler" where
  "rating_run ops rops prh = fold (rating_step ops) rops prh"

section \<open>The rating monitor\<close>

text \<open>A value of another type is printed with the verb's error form, left to the parameter.\<close>

definition sprintf_d :: "(string \<Rightarrow> string) \<Rightarrow> iface \<Rightarrow> string" where
  "sprintf_d other v = (case v of Int32 r \<Rightarrow> decimal_int (sint r) | OtherValue s \<Rightarrow> other s)"

record 'c ArgPeersRatingMonitor =
  mon_TopRatedCache :: "'c option"
  mon_BadRatedCache :: "'c option"

record 'c peersRatingMonitor =
  mon_topRatedCache :: 'c
  mon_badRatedCache :: 'c

definition checkMonitorArgs :: "'c ArgPeersRatingMonitor \<Rightarrow> p2p_error option" where
  "checkMonitorArgs args =
     (if mon_TopRatedCache args = None then Some ErrNilCacher
      else if mon_BadRatedCache args = None then Some ErrNilCacher
      else None)"

definition NewPeersRatingMonitor :: "'c ArgPeersRatingMonitor \<Rightarrow> 'c peersRatingMonitor res" where
  "NewPeersRatingMonitor args =
     (case checkMonitorArgs args of
        Some err \<Rightarrow> Inl err
      | None \<Rightarrow> Inr \<lparr>mon_topRatedCache = the (mon_TopRatedCache args),
                      mon_badRatedCache = the (mon_BadRatedCache args)\<rparr>)"

definition unknownRating :: string where
  "unknownRating = ''unknown''"

definition fetchRating ::
  "('c, iface) cacher_ops \<Rightarrow> (string \<Rightarrow> string) \<Rightarrow> peerid \<Rightarrow> 'c peersRatingMonitor
   \<Rightarrow> string \<times> 'c peersRatingMonitor" where
  "fetchRating ops other pid mon =
     (let (rating, top) = Get ops pid (mon_topRatedCache mon); mon = mon\<lparr>mon_topRatedCache := top\<rparr>
      in case rating of
           Some v \<Rightarrow> (sprintf_d other v, mon)
         | None \<Rightarrow>
             (let (rating, bad) = Get ops pid (mon_badRatedCache mon); mon = mon\<lparr>mon_badRatedCache := bad\<rparr>
              in case rating of
                   Some v \<Rightarrow> (sprintf_d other v, mon)
                 | None \<Rightarrow> (unknownRating, mon)))"

text \<open>
  \<open>Pretty\<close> is the textual form of a peer identifier (\<^verbatim>\<open>core.PeerID.Pretty\<close>, outside the
  repository); the connected peers are what the connections handler returned.
\<close>

fun extractConnectedPeersRatings_loop ::
  "('c, iface) cacher_ops \<Rightarrow> (string \<Rightarrow> string) \<Rightarrow> (peerid \<Rightarrow> string) \<Rightarrow> peerid list
   \<Rightarrow> (string \<rightharpoonup> string) \<Rightarrow> 'c peersRatingMonitor \<Rightarrow> (string \<rightharpoonup> string) \<times> 'c peersRatingMonitor" where
  "extractConnectedPeersRatings_loop ops other Pretty [] m mon = (m, mon)"
| "extractConnectedPeersRatings_loop ops other Pretty (p # ps) m mon =
     (let (r, mon) = fetchRating ops other p mon
      in extractConnectedPeersRatings_loop ops other Pretty ps (m(Pretty p \<mapsto> r)) mon)"

definition extractConnectedPeersRatings ::
  "('c, iface) cacher_ops \<Rightarrow> (string \<Rightarrow> string) \<Rightarrow> (peerid \<Rightarrow> string) \<Rightarrow> peerid list
   \<Rightarrow> 'c peersRatingMonitor \<Rightarrow> (string \<rightharpoonup> string) \<times> 'c peersRatingMonitor" where
  "extractConnectedPeersRatings ops other Pretty connectedPeers mon =
     extractConnectedPeersRatings_loop ops other Pretty connectedPeers Map.empty mon"

text \<open>\<open>jsonMarshal\<close> is \<^verbatim>\<open>json.Marshal\<close> on the map; the connections handler is nil or a peer list.\<close>

definition GetConnectedPeersRatings ::
  "('c, iface) cacher_ops \<Rightarrow> (string \<Rightarrow> string) \<Rightarrow> (peerid \<Rightarrow> string)
   \<Rightarrow> ((string \<rightharpoonup> string) \<Rightarrow> string res) \<Rightarrow> peerid list option
   \<Rightarrow> 'c peersRatingMonitor \<Rightarrow> string res \<times> 'c peersRatingMonitor" where
  "GetConnectedPeersRatings ops other Pretty jsonMarshal connectionsHandler mon =
     (case connectionsHandler of
        None \<Rightarrow> (Inl ErrNilConnectionsHandler, mon)
      | Some connectedPeers \<Rightarrow>
          (let (ratings, mon) = extractConnectedPeersRatings ops other Pretty connectedPeers mon
           in (jsonMarshal ratings, mon)))"

section \<open>Ratings as integers\<close>

text \<open>The \<^verbatim>\<open>int32\<close> sum of two small values is their sum.\<close>

lemma sint_add_small:
  fixes a b :: int32
  assumes "- (2 ^ 30) \<le> sint a" "sint a < 2 ^ 30" "- (2 ^ 30) \<le> sint b" "sint b < 2 ^ 30"
  shows "sint (a + b) = sint a + sint b"
proof -
  have "signed_take_bit 31 (sint a + sint b) = sint a + sint b"
    using assms by (intro signed_take_bit_int_eq_self) auto
  then show ?thesis by (simp add: sint_word_ariths)
qed

lemma sint_clampedRating_range: "- 100 \<le> sint (clampedRating r u) \<and> sint (clampedRating r u) \<le> 100"
  by (auto simp: clampedRating_def Let_def word_sless_alt)

text \<open>On ratings in range the \<^verbatim>\<open>int32\<close> update is a saturating integer addition.\<close>

lemma sint_clampedRating:
  assumes "- 100 \<le> sint r" "sint r \<le> 100" "- 100 \<le> sint u" "sint u \<le> 100"
  shows "sint (clampedRating r u) = max (- 100) (min 100 (sint r + sint u))"
proof -
  have "sint (r + u) = sint r + sint u"
    using assms by (intro sint_add_small) auto
  then show ?thesis by (auto simp: clampedRating_def Let_def word_sless_alt)
qed

lemma computeRatingTier_top: "computeRatingTier r = topRatedTier \<longleftrightarrow> 0 \<le> sint r"
  by (simp add: computeRatingTier_def word_sle_eq)

lemma computeRatingTier_bad: "computeRatingTier r = badRatedTier \<longleftrightarrow> sint r < 0"
  by (auto simp: computeRatingTier_def word_sle_eq)

section \<open>The invariant\<close>

text \<open>
  Over the contents \<open>t\<close> of the top rated and \<open>b\<close> of the bad rated cache: every value is an
  \<^verbatim>\<open>int32\<close> rating of its own tier within the bounds, and no peer is in both tiers.
\<close>

definition tiers_ok :: "(peerid \<rightharpoonup> iface) \<Rightarrow> (peerid \<rightharpoonup> iface) \<Rightarrow> bool" where
  "tiers_ok t b \<longleftrightarrow>
     (\<forall>p v. t p = Some v \<longrightarrow> (\<exists>r. v = Int32 r \<and> 0 \<le> sint r \<and> sint r \<le> 100)) \<and>
     (\<forall>p v. b p = Some v \<longrightarrow> (\<exists>r. v = Int32 r \<and> - 100 \<le> sint r \<and> sint r < 0)) \<and>
     (\<forall>p. t p = None \<or> b p = None)"

definition rating_inv :: "('c \<Rightarrow> peerid \<Rightarrow> iface option) \<Rightarrow> 'c peersRatingHandler \<Rightarrow> bool" where
  "rating_inv view prh = tiers_ok (view (topRatedCache prh)) (view (badRatedCache prh))"

text \<open>The rating of a peer: what the code finds in the top rated, then in the bad rated cache.\<close>

definition rating_of :: "('c \<Rightarrow> peerid \<Rightarrow> iface option) \<Rightarrow> 'c peersRatingHandler \<Rightarrow> peerid \<Rightarrow> int option" where
  "rating_of view prh p =
     (case view (topRatedCache prh) p of
        Some v \<Rightarrow> Some (sint (assert_int32 v))
      | None \<Rightarrow> map_option (\<lambda>v. sint (assert_int32 v)) (view (badRatedCache prh) p))"

lemma tiers_ok_topD: "tiers_ok t b \<Longrightarrow> t p = Some v \<Longrightarrow> \<exists>r. v = Int32 r \<and> 0 \<le> sint r \<and> sint r \<le> 100"
  by (simp add: tiers_ok_def)

lemma tiers_ok_badD: "tiers_ok t b \<Longrightarrow> b p = Some v \<Longrightarrow> \<exists>r. v = Int32 r \<and> - 100 \<le> sint r \<and> sint r < 0"
  by (simp add: tiers_ok_def)

lemma tiers_ok_disjD: "tiers_ok t b \<Longrightarrow> t p = None \<or> b p = None"
  by (simp add: tiers_ok_def)

text \<open>Evicting entries keeps the invariant, and so do writes to the right tier.\<close>

lemma tiers_ok_antimono:
  assumes "tiers_ok t b" "t' \<subseteq>\<^sub>m t" "b' \<subseteq>\<^sub>m b"
  shows "tiers_ok t' b'"
proof -
  have *: "t' p = Some v \<Longrightarrow> t p = Some v" "b' p = Some v \<Longrightarrow> b p = Some v" for p v
    using assms(2,3) by (auto simp: map_le_def dom_def)
  have "t' p = None \<or> b' p = None" for p
    using * tiers_ok_disjD [OF assms(1), of p] by (metis option.exhaust_sel option.distinct(1))
  with * show ?thesis
    using assms(1) unfolding tiers_ok_def by blast
qed

lemma tiers_ok_upd_top:
  "tiers_ok t b \<Longrightarrow> 0 \<le> sint r \<Longrightarrow> sint r \<le> 100 \<Longrightarrow> b p = None \<Longrightarrow> tiers_ok (t(p \<mapsto> Int32 r)) b"
  by (simp add: tiers_ok_def)

lemma tiers_ok_upd_bad:
  "tiers_ok t b \<Longrightarrow> - 100 \<le> sint r \<Longrightarrow> sint r < 0 \<Longrightarrow> t p = None \<Longrightarrow> tiers_ok t (b(p \<mapsto> Int32 r))"
  by (simp add: tiers_ok_def)

lemma tiers_ok_del: "tiers_ok t b \<Longrightarrow> tiers_ok (t(p := None)) b" "tiers_ok t b \<Longrightarrow> tiers_ok t (b(p := None))"
  by (simp_all add: tiers_ok_def)

section \<open>The operations over a cache that keeps the laws\<close>

locale rating_cache = cacher ops view
  for ops :: "('c, iface) cacher_ops" and view :: "'c \<Rightarrow> peerid \<Rightarrow> iface option"
begin

lemma view_getOldRating:
  "view (topRatedCache (snd (getOldRating ops p prh))) = view (topRatedCache prh)"
  "view (badRatedCache (snd (getOldRating ops p prh))) = view (badRatedCache prh)"
  by (simp_all add: getOldRating_def Let_def case_prod_unfold get_val get_view split: option.split)

lemma getOldRating_known:
  assumes "rating_of view prh p = Some r"
  shows "sint (fst (fst (getOldRating ops p prh))) = r" and "snd (fst (getOldRating ops p prh))"
  using assms
  by (auto simp: getOldRating_def rating_of_def Let_def case_prod_unfold get_val get_view split: option.splits)

lemma getOldRating_new:
  "rating_of view prh p = None \<Longrightarrow> \<not> snd (fst (getOldRating ops p prh))"
  by (auto simp: getOldRating_def rating_of_def Let_def case_prod_unfold get_val get_view split: option.splits)

lemma rating_inv_putTop:
  assumes "rating_inv view prh" "0 \<le> sint r" "sint r \<le> 100" "view (badRatedCache prh) p = None"
  shows "rating_inv view (putTop ops p r prh)"
  using tiers_ok_antimono [OF tiers_ok_upd_top put_map_le map_le_refl] assms
  by (simp add: rating_inv_def putTop_def)

lemma rating_inv_putBad:
  assumes "rating_inv view prh" "- 100 \<le> sint r" "sint r < 0" "view (topRatedCache prh) p = None"
  shows "rating_inv view (putBad ops p r prh)"
  using tiers_ok_antimono [OF tiers_ok_upd_bad map_le_refl put_map_le] assms
  by (simp add: rating_inv_def putBad_def)

lemma rating_inv_movePeerToNewTier:
  assumes "rating_inv view prh" "- 100 \<le> sint r" "sint r \<le> 100"
  shows "rating_inv view (movePeerToNewTier ops r (computeRatingTier r) p prh)"
proof (cases "0 \<le> sint r")
  case True
  have "rating_inv view (prh\<lparr>badRatedCache := Remove ops p (badRatedCache prh)\<rparr>)"
    using assms(1) by (simp add: rating_inv_def remove_view tiers_ok_del)
  from rating_inv_putTop [OF this True assms(3)] True show ?thesis
    by (simp add: movePeerToNewTier_def computeRatingTier_top remove_view)
next
  case False
  have "rating_inv view (prh\<lparr>topRatedCache := Remove ops p (topRatedCache prh)\<rparr>)"
    using assms(1) by (simp add: rating_inv_def remove_view tiers_ok_del)
  from rating_inv_putBad [OF this assms(2)] False show ?thesis
    by (simp add: movePeerToNewTier_def computeRatingTier_top remove_view)
qed

lemma rating_of_putTop: "rating_of view (putTop ops p r prh) p = Some (sint r)"
  by (simp add: rating_of_def putTop_def put_same)

lemma rating_of_putBad:
  "view (topRatedCache prh) p = None \<Longrightarrow> rating_of view (putBad ops p r prh) p = Some (sint r)"
  by (simp add: rating_of_def putBad_def put_same)

lemma rating_of_movePeerToNewTier: "rating_of view (movePeerToNewTier ops r tier p prh) p = Some (sint r)"
  by (simp add: movePeerToNewTier_def rating_of_putTop rating_of_putBad remove_view)

text \<open>Under the invariant the tier of a peer's rating tells which cache holds it.\<close>

lemma rating_of_tier:
  assumes "rating_inv view prh" "rating_of view prh p = Some r"
  shows "(0 \<le> r \<longleftrightarrow> view (badRatedCache prh) p = None) \<and> (r < 0 \<longleftrightarrow> view (topRatedCache prh) p = None) \<and>
         - 100 \<le> r \<and> r \<le> 100"
  using assms tiers_ok_topD [of "view (topRatedCache prh)" _ p] tiers_ok_badD [of _ "view (badRatedCache prh)" p]
    tiers_ok_disjD [of "view (topRatedCache prh)" _ p]
  by (fastforce simp: rating_inv_def rating_of_def split: option.splits)

lemma updateRatingCacher_spec:
  assumes inv: "rating_inv view prh" and known: "rating_of view prh p = Some (sint old)"
    and range: "- 100 \<le> sint new" "sint new \<le> 100"
  shows "rating_inv view (updateRatingCacher ops p old new prh)"
    and "rating_of view (updateRatingCacher ops p old new prh) p = Some (sint new)"
proof -
  note tier = rating_of_tier [OF inv known]
  show "rating_inv view (updateRatingCacher ops p old new prh)"
    using tier range inv rating_inv_movePeerToNewTier [OF inv range, of p]
    by (auto simp: updateRatingCacher_def Let_def computeRatingTier_def word_sle_eq
        intro: rating_inv_putTop rating_inv_putBad)
  show "rating_of view (updateRatingCacher ops p old new prh) p = Some (sint new)"
    using tier
    by (auto simp: updateRatingCacher_def Let_def computeRatingTier_def word_sle_eq
        rating_of_putTop rating_of_putBad rating_of_movePeerToNewTier)
qed

lemma rating_of_cong:
  "view (topRatedCache a) = view (topRatedCache b) \<Longrightarrow> view (badRatedCache a) = view (badRatedCache b) \<Longrightarrow>
     rating_of view a p = rating_of view b p"
  by (simp add: rating_of_def split: option.split)

lemma updateRating_known:
  assumes inv: "rating_inv view prh" and known: "rating_of view prh p = Some r"
    and u: "- 100 \<le> sint u" "sint u \<le> 100"
  shows "rating_inv view (updateRating ops p u prh)"
    and "rating_of view (updateRating ops p u prh) p = Some (max (- 100) (min 100 (r + sint u)))"
proof -
  let ?old = "fst (fst (getOldRating ops p prh))" and ?prh = "snd (getOldRating ops p prh)"
  have upd: "updateRating ops p u prh = updateRatingCacher ops p ?old (clampedRating ?old u) ?prh"
    using getOldRating_known [OF known] by (simp add: updateRating_def Let_def case_prod_unfold)
  have old: "sint ?old = r" by (rule getOldRating_known(1) [OF known])
  have inv': "rating_inv view ?prh" and known': "rating_of view ?prh p = Some (sint ?old)"
    using inv known old rating_of_cong [OF view_getOldRating]
    by (simp_all add: rating_inv_def view_getOldRating)
  have r: "- 100 \<le> r" "r \<le> 100" using rating_of_tier [OF inv known] by simp_all
  show "rating_inv view (updateRating ops p u prh)"
    unfolding upd using sint_clampedRating_range [of ?old u]
    by (intro updateRatingCacher_spec(1) [OF inv' known']) simp_all
  show "rating_of view (updateRating ops p u prh) p = Some (max (- 100) (min 100 (r + sint u)))"
    unfolding upd using sint_clampedRating_range [of ?old u] sint_clampedRating [of ?old u] r u old
    by (subst updateRatingCacher_spec(2) [OF inv' known']) simp_all
qed

lemma updateRating_new:
  assumes inv: "rating_inv view prh" and new: "rating_of view prh p = None"
  shows "rating_inv view (updateRating ops p u prh)"
    and "rating_of view (updateRating ops p u prh) p = Some 0"
proof -
  have upd: "updateRating ops p u prh = putTop ops p 0 (snd (getOldRating ops p prh))"
    using getOldRating_new [OF new] by (simp add: updateRating_def Let_def case_prod_unfold)
  have "view (badRatedCache prh) p = None"
    using new by (auto simp: rating_of_def split: option.splits)
  then show "rating_inv view (updateRating ops p u prh)"
    unfolding upd using inv by (intro rating_inv_putTop) (simp_all add: rating_inv_def view_getOldRating)
  show "rating_of view (updateRating ops p u prh) p = Some 0"
    unfolding upd by (simp add: rating_of_putTop)
qed

lemma rating_inv_updateRating:
  assumes "rating_inv view prh" "- 100 \<le> sint u" "sint u \<le> 100"
  shows "rating_inv view (updateRating ops p u prh)"
  using updateRating_known(1) [OF assms(1) _ assms(2,3)] updateRating_new(1) [OF assms(1)]
  by (cases "rating_of view prh p") auto

text \<open>
  The split: a peer without an entry in the bad rated cache goes to the first list, the others to
  the second, whatever the writes of the loop evict.
\<close>

lemma splitPeersByTiers_loop_spec:
  assumes "rating_inv view prh"
  shows "fst (splitPeersByTiers_loop ops peers tops bads prh) =
           (tops @ filter (\<lambda>p. view (badRatedCache prh) p = None) peers,
            bads @ filter (\<lambda>p. view (badRatedCache prh) p \<noteq> None) peers) \<and>
         rating_inv view (snd (splitPeersByTiers_loop ops peers tops bads prh)) \<and>
         badRatedCache (snd (splitPeersByTiers_loop ops peers tops bads prh)) = badRatedCache prh"
  using assms
proof (induction peers arbitrary: tops bads prh)
  case Nil
  then show ?case by simp
next
  case (Cons p peers)
  note disj = tiers_ok_disjD [OF Cons.prems [unfolded rating_inv_def], of p]
  show ?case
  proof (cases "view (badRatedCache prh) p = None \<and> view (topRatedCache prh) p = None")
    case True
    then have "rating_inv view (putTop ops p defaultRating prh)"
      using Cons.prems by (intro rating_inv_putTop) simp_all
    from Cons.IH [OF this] True show ?thesis
      by (simp add: Let_def has_val putTop_def)
  next
    case False
    with disj Cons.IH [OF Cons.prems] show ?thesis
      by (auto simp: Let_def has_val)
  qed
qed

lemma view_displayPeersRating:
  "view (topRatedCache (snd (displayPeersRating ops peers prh))) = view (topRatedCache prh)"
  "view (badRatedCache (snd (displayPeersRating ops peers prh))) = view (badRatedCache prh)"
proof -
  have "view (topRatedCache (snd (displayPeersRating_loop ops peers prh))) = view (topRatedCache prh) \<and>
        view (badRatedCache (snd (displayPeersRating_loop ops peers prh))) = view (badRatedCache prh)"
    by (induction peers arbitrary: prh) (simp_all add: Let_def case_prod_unfold get_view)
  then show "view (topRatedCache (snd (displayPeersRating ops peers prh))) = view (topRatedCache prh)"
    and "view (badRatedCache (snd (displayPeersRating ops peers prh))) = view (badRatedCache prh)"
    by (simp_all add: displayPeersRating_def)
qed

lemma GetTopRatedPeersFromList_value:
  assumes "rating_inv view prh"
  shows "fst (GetTopRatedPeersFromList ops peers n prh) =
           (if n < 1 then []
            else if int (length (filter (\<lambda>p. view (badRatedCache prh) p = None) peers)) < n
            then filter (\<lambda>p. view (badRatedCache prh) p = None) peers @
                 filter (\<lambda>p. view (badRatedCache prh) p \<noteq> None) peers
            else filter (\<lambda>p. view (badRatedCache prh) p = None) peers)"
  using splitPeersByTiers_loop_spec [OF assms, of peers "[]" "[]"]
  by (auto simp: GetTopRatedPeersFromList_def splitPeersByTiers_def Let_def case_prod_unfold)

lemma rating_inv_GetTopRatedPeersFromList:
  assumes "rating_inv view prh"
  shows "rating_inv view (snd (GetTopRatedPeersFromList ops peers n prh))"
  using splitPeersByTiers_loop_spec [OF assms, of peers "[]" "[]"] assms
  by (auto simp: GetTopRatedPeersFromList_def splitPeersByTiers_def Let_def case_prod_unfold
      rating_inv_def view_displayPeersRating)

lemma rating_inv_step: "rating_inv view prh \<Longrightarrow> rating_inv view (rating_step ops rop prh)"
  by (cases rop)
    (simp_all add: IncreaseRating_def DecreaseRating_def rating_inv_updateRating
      rating_inv_GetTopRatedPeersFromList)

lemma rating_inv_run: "rating_inv view prh \<Longrightarrow> rating_inv view (rating_run ops rops prh)"
  unfolding rating_run_def
  by (induction rops arbitrary: prh) (simp_all add: rating_inv_step)

lemma rating_of_range: "rating_inv view prh \<Longrightarrow> rating_of view prh p = Some r \<Longrightarrow> - 100 \<le> r \<and> r \<le> 100"
  using rating_of_tier by blast

end

interpretation mock_rating: rating_cache CacherMock_ops dataMap ..

lemma CacherMock_rating_cache: "rating_cache CacherMock_ops dataMap"
  by (rule mock_rating.rating_cache_axioms)

section \<open>The monitor over a cache that keeps the laws\<close>

text \<open>What the monitor shows for a peer, from the contents of the two caches.\<close>

definition shownRating ::
  "('c \<Rightarrow> peerid \<Rightarrow> iface option) \<Rightarrow> (string \<Rightarrow> string) \<Rightarrow> 'c peersRatingMonitor \<Rightarrow> peerid \<Rightarrow> string" where
  "shownRating view other mon p =
     (case view (mon_topRatedCache mon) p of
        Some v \<Rightarrow> sprintf_d other v
      | None \<Rightarrow> (case view (mon_badRatedCache mon) p of Some v \<Rightarrow> sprintf_d other v | None \<Rightarrow> unknownRating))"

text \<open>A loop of map writes under an injective key leaves each element's own value.\<close>

lemma fold_upd_inj:
  "inj_on f (set ps) \<Longrightarrow> p \<in> set ps \<Longrightarrow> fold (\<lambda>p m. m(f p \<mapsto> g p)) ps m (f p) = Some (g p)"
  by (induction ps rule: rev_induct) (auto simp: inj_on_def)

lemma fold_upd_other:
  "s \<notin> f ` set ps \<Longrightarrow> fold (\<lambda>p m. m(f p \<mapsto> g p)) ps m s = m s"
  by (induction ps rule: rev_induct) auto

context rating_cache
begin

lemma view_fetchRating:
  "view (mon_topRatedCache (snd (fetchRating ops other p mon))) = view (mon_topRatedCache mon)"
  "view (mon_badRatedCache (snd (fetchRating ops other p mon))) = view (mon_badRatedCache mon)"
  by (simp_all add: fetchRating_def Let_def case_prod_unfold get_val get_view split: option.split)

lemma fetchRating_value: "fst (fetchRating ops other p mon) = shownRating view other mon p"
  by (simp add: fetchRating_def shownRating_def Let_def case_prod_unfold get_val get_view split: option.split)

lemma shownRating_fetch: "shownRating view other (snd (fetchRating ops other q mon)) = shownRating view other mon"
  by (rule ext) (simp add: shownRating_def view_fetchRating split: option.split)

lemma extractConnectedPeersRatings_value:
  "fst (extractConnectedPeersRatings ops other Pretty ps mon) =
     fold (\<lambda>p m. m(Pretty p \<mapsto> shownRating view other mon p)) ps Map.empty"
proof -
  have "fst (extractConnectedPeersRatings_loop ops other Pretty ps m mon) =
          fold (\<lambda>p m. m(Pretty p \<mapsto> shownRating view other mon p)) ps m" for m
    by (induction ps arbitrary: m mon)
      (simp_all add: Let_def case_prod_unfold fetchRating_value shownRating_fetch)
  then show ?thesis by (simp add: extractConnectedPeersRatings_def)
qed

end

section \<open>Properties\<close>

text \<open>
  C1. From empty caches, any sequence of calls of IncreaseRating, DecreaseRating and
  GetTopRatedPeersFromList leaves the handler in a state where every cached value is a rating of
  its own tier (0 to 100 in the top rated cache, -100 to -1 in the bad rated cache) and no peer is in
  both caches, even when the caches evict entries at any write.
\<close>

theorem rating_tiers_invariant:
  assumes "rating_cache ops view"
    and "NewPeersRatingHandler args = Inr prh"
    and "view (topRatedCache prh) = Map.empty" and "view (badRatedCache prh) = Map.empty"
  shows "rating_inv view (rating_run ops rops prh)"
proof -
  have "rating_inv view prh"
    using assms(3,4) by (simp add: rating_inv_def tiers_ok_def)
  then show ?thesis by (rule rating_cache.rating_inv_run [OF assms(1)])
qed

definition rating_example :: "iface CacherMock peersRatingHandler" where
  "rating_example = \<lparr>topRatedCache = NewCacherMock, badRatedCache = NewCacherMock, log = \<lparr>isLevelTrace = True\<rparr>\<rparr>"

theorem rating_tiers_invariant_witness:
  "NewPeersRatingHandler \<lparr>TopRatedCache = Some (NewCacherMock :: iface CacherMock),
      BadRatedCache = Some NewCacherMock, Logger = Some \<lparr>isLevelTrace = True\<rparr>\<rparr> = Inr rating_example \<and>
   rating_inv dataMap (rating_run CacherMock_ops
     [Increase [1], Decrease [1], TopRated [[1], [2]] 2] rating_example)"
proof -
  have new: "NewPeersRatingHandler \<lparr>TopRatedCache = Some (NewCacherMock :: iface CacherMock),
      BadRatedCache = Some NewCacherMock, Logger = Some \<lparr>isLevelTrace = True\<rparr>\<rparr> = Inr rating_example"
    by (simp add: NewPeersRatingHandler_def checkHandlerArgs_def rating_example_def)
  show ?thesis
    using new rating_tiers_invariant [OF CacherMock_rating_cache new,
        of "[Increase [1], Decrease [1], TopRated [[1], [2]] 2]"]
    by (simp add: rating_example_def NewCacherMock_def)
qed

text \<open>
  C2. IncreaseRating adds 2 and DecreaseRating subtracts 1, saturating at 100 and -100, on a peer
  with a rating; a peer without one gets the rating 0 from either call.
\<close>

theorem rating_update_saturates:
  assumes "rating_cache ops view" and "rating_inv view prh"
  shows "rating_of view (IncreaseRating ops p prh) p =
           Some (case rating_of view prh p of None \<Rightarrow> 0 | Some r \<Rightarrow> min 100 (r + 2)) \<and>
         rating_of view (DecreaseRating ops p prh) p =
           Some (case rating_of view prh p of None \<Rightarrow> 0 | Some r \<Rightarrow> max (- 100) (r - 1))"
proof (cases "rating_of view prh p")
  case None
  then show ?thesis
    by (simp add: IncreaseRating_def DecreaseRating_def rating_cache.updateRating_new(2) [OF assms])
next
  case (Some r)
  note range = rating_cache.rating_of_range [OF assms Some]
  from Some range show ?thesis
    by (simp add: IncreaseRating_def DecreaseRating_def rating_cache.updateRating_known(2) [OF assms Some])
qed

definition rating_example2 :: "iface CacherMock peersRatingHandler" where
  "rating_example2 =
     \<lparr>topRatedCache = \<lparr>dataMap = [[1] \<mapsto> Int32 99], addedDataHandlers = [], startedHandlers = []\<rparr>,
      badRatedCache = \<lparr>dataMap = [[2] \<mapsto> Int32 (- 100)], addedDataHandlers = [], startedHandlers = []\<rparr>,
      log = \<lparr>isLevelTrace = False\<rparr>\<rparr>"

lemma rating_inv_example2: "rating_inv dataMap rating_example2"
  by (simp add: rating_inv_def tiers_ok_def rating_example2_def)

theorem rating_update_saturates_witness:
  "rating_inv dataMap rating_example2 \<and>
   rating_of dataMap (IncreaseRating CacherMock_ops [1] rating_example2) [1] = Some 100 \<and>
   rating_of dataMap (DecreaseRating CacherMock_ops [2] rating_example2) [2] = Some (- 100)"
  using rating_update_saturates [OF CacherMock_rating_cache rating_inv_example2, of "[1]"]
    rating_update_saturates [OF CacherMock_rating_cache rating_inv_example2, of "[2]"]
  by (simp add: rating_of_def rating_example2_def rating_inv_example2 [unfolded rating_example2_def])

text \<open>
  C3. GetTopRatedPeersFromList returns nothing when fewer than one peer is asked for; otherwise the
  peers of the list that are not bad rated, in the order of the list, followed by the bad rated
  ones when the first are fewer than asked for (then no peer of the list is lost).
\<close>

theorem top_rated_peers_result:
  assumes "rating_cache ops view" and "rating_inv view prh"
  defines "bad \<equiv> \<lambda>p. view (badRatedCache prh) p \<noteq> None"
  shows "fst (GetTopRatedPeersFromList ops peers n prh) =
           (if n < 1 then []
            else if int (length (filter (\<lambda>p. \<not> bad p) peers)) < n
            then filter (\<lambda>p. \<not> bad p) peers @ filter bad peers
            else filter (\<lambda>p. \<not> bad p) peers) \<and>
         (1 \<le> n \<longrightarrow> int (length (filter (\<lambda>p. \<not> bad p) peers)) < n \<longrightarrow>
            mset (fst (GetTopRatedPeersFromList ops peers n prh)) = mset peers)"
proof -
  have "mset (filter (\<lambda>p. \<not> bad p) peers @ filter bad peers) = mset peers"
    by (induction peers) auto
  then show ?thesis
    unfolding bad_def by (simp add: rating_cache.GetTopRatedPeersFromList_value [OF assms(1,2)])
qed

theorem top_rated_peers_result_witness:
  "rating_inv dataMap rating_example2 \<and>
   fst (GetTopRatedPeersFromList CacherMock_ops [[2], [1], [3]] 3 rating_example2) = [[1], [3], [2]]"
  using top_rated_peers_result [OF CacherMock_rating_cache rating_inv_example2, of "[[2], [1], [3]]" 3]
  by (simp add: rating_inv_example2) (simp add: rating_example2_def)

text \<open>
  The monitor's map has, under the textual form of every connected peer, the decimal rating the
  handler keeps for that peer, or "unknown" when neither cache has the peer; it has no other key.
\<close>

lemma monitor_shows_ratings:
  fixes other :: "string \<Rightarrow> string"
  assumes "rating_cache ops view" and "rating_inv view prh"
    and "mon_topRatedCache mon = topRatedCache prh" and "mon_badRatedCache mon = badRatedCache prh"
    and "inj_on Pretty (set peers)"
  defines "m \<equiv> fst (extractConnectedPeersRatings ops other Pretty peers mon)"
  shows "dom m = Pretty ` set peers \<and>
         (\<forall>p \<in> set peers. m (Pretty p) =
            Some (case rating_of view prh p of Some r \<Rightarrow> decimal_int r | None \<Rightarrow> ''unknown''))"
proof -
  note m = rating_cache.extractConnectedPeersRatings_value [OF assms(1), of other Pretty peers mon, folded m_def]
  have val: "m (Pretty p) = Some (shownRating view other mon p)" if "p \<in> set peers" for p
    unfolding m using assms(5) that by (rule fold_upd_inj)
  have none: "m s = None" if "s \<notin> Pretty ` set peers" for s
    unfolding m using that by (simp add: fold_upd_other)
  have shown: "shownRating view other mon p =
      (case rating_of view prh p of Some r \<Rightarrow> decimal_int r | None \<Rightarrow> ''unknown'')" for p
    using assms(2) tiers_ok_topD [of _ _ p] tiers_ok_badD [of _ _ p]
    by (fastforce simp: shownRating_def rating_of_def rating_inv_def assms(3,4) sprintf_d_def unknownRating_def
        split: option.splits)
  have "dom m = Pretty ` set peers"
    using val none by (force simp: dom_def)
  with val shown show ?thesis by simp
qed

end
