(* ===== verification/ProtoWire.thy ===== *)
theory ProtoWire
  imports Prelude "HOL-Library.Monad_Syntax"
begin

text \<open>
  The wire format routines that protoc-gen-gogo puts into \<^verbatim>\<open>websocket/data/wsMessage.pb.go\<close>,
  \<^verbatim>\<open>p2p/data/topicMessage.pb.go\<close> and \<^verbatim>\<open>p2p/message/peerShardMessage.pb.go\<close>, identical in the three
  files: the varint reader and writer, the sizes, and the skipping of unknown fields. The writers
  fill a buffer from its end; an index out of range panics (\<^const>\<open>None\<close>). The readers work on the
  bytes that are left; the index of the code is the length of the buffer less theirs.
\<close>

datatype proto_error =
    ErrInvalidLength
  | ErrIntOverflow
  | ErrUnexpectedEndOfGroup
  | ErrUnexpectedEOF
  | ErrEndGroupForNonGroup
  | ErrIllegalTag
  | ErrWrongWireType
  | ErrIllegalWireType

section \<open>Sizes\<close>

text \<open>\<^verbatim>\<open>math_bits.Len64\<close>: the number of bits needed.\<close>

fun bitlen :: "nat \<Rightarrow> nat" where
  "bitlen n = (if n = 0 then 0 else Suc (bitlen (n div 2)))"

declare bitlen.simps [simp del]

definition Len64 :: "uint64 \<Rightarrow> nat" where
  "Len64 x = bitlen (unat x)"

definition sov :: "uint64 \<Rightarrow> nat" where
  "sov x = (Len64 (x OR 1) + 6) div 7"

section \<open>Writing from the end of a buffer\<close>

definition set_at :: "bytes \<Rightarrow> int \<Rightarrow> byte \<Rightarrow> bytes option" where
  "set_at dAtA i b = (if 0 \<le> i \<and> i < int (length dAtA) then Some (dAtA[nat i := b]) else None)"

text \<open>\<^verbatim>\<open>copy(dAtA[i:], xs)\<close>: copies as many bytes as fit.\<close>

definition copy_at :: "bytes \<Rightarrow> int \<Rightarrow> bytes \<Rightarrow> bytes option" where
  "copy_at dAtA i xs =
     (if 0 \<le> i \<and> i \<le> int (length dAtA)
      then Some (take (nat i) dAtA @ take (length dAtA - nat i) xs @ drop (nat i + length xs) dAtA)
      else None)"

lemma unat_drop_7: "unat (drop_bit 7 (v :: uint64)) = unat v div 128"
  by (simp add: drop_bit_eq_div unat_div_distrib)

function encodeVarint_loop :: "bytes \<Rightarrow> int \<Rightarrow> uint64 \<Rightarrow> bytes option" where
  "encodeVarint_loop dAtA offset v =
     (if 128 \<le> v then
        (case set_at dAtA offset (ucast (v AND 0x7f OR 0x80)) of
           None \<Rightarrow> None
         | Some dAtA \<Rightarrow> encodeVarint_loop dAtA (offset + 1) (drop_bit 7 v))
      else set_at dAtA offset (ucast v))"
  by pat_completeness auto
termination
proof (relation "measure (\<lambda>(d, i, v). unat v)", goal_cases)
  case (2 dAtA offset v)
  then have "0 < unat v" by (simp add: word_le_nat_alt)
  then show ?case by (simp add: unat_drop_7)
qed simp

declare encodeVarint_loop.simps [simp del]

definition encodeVarint :: "bytes \<Rightarrow> int \<Rightarrow> uint64 \<Rightarrow> (bytes \<times> int) option" where
  "encodeVarint dAtA offset v =
     (let base = offset - int (sov v)
      in case encodeVarint_loop dAtA base v of None \<Rightarrow> None | Some dAtA \<Rightarrow> Some (dAtA, base))"

text \<open>
  One field of a message, written in front of index \<open>i\<close>: the value, for a length delimited field
  its length, and the tag. The generated code has these statements inline once per field.
\<close>

definition write_tag :: "byte \<Rightarrow> bytes \<times> int \<Rightarrow> (bytes \<times> int) option" where
  "write_tag tag = (\<lambda>(dAtA, i). do { dAtA \<leftarrow> set_at dAtA (i - 1) tag; Some (dAtA, i - 1) })"

definition write_varint_field :: "byte \<Rightarrow> uint64 \<Rightarrow> bytes \<times> int \<Rightarrow> (bytes \<times> int) option" where
  "write_varint_field tag v = (\<lambda>(dAtA, i). do { di \<leftarrow> encodeVarint dAtA i v; write_tag tag di })"

definition write_bytes_field :: "byte \<Rightarrow> bytes \<Rightarrow> bytes \<times> int \<Rightarrow> (bytes \<times> int) option" where
  "write_bytes_field tag xs = (\<lambda>(dAtA, i). do {
     dAtA \<leftarrow> copy_at dAtA (i - int (length xs)) xs;
     di \<leftarrow> encodeVarint dAtA (i - int (length xs)) (word_of_nat (length xs));
     write_tag tag di })"

section \<open>Reading\<close>

text \<open>
  The varint loop; the accumulator has the width of the variable it is read into, and a shift past
  that width gives zero, as in Go.
\<close>

fun readVarint :: "bytes \<Rightarrow> nat \<Rightarrow> 'a :: len word \<Rightarrow> proto_error + 'a word \<times> bytes" where
  "readVarint [] shift acc = (if 64 \<le> shift then Inl ErrIntOverflow else Inl ErrUnexpectedEOF)"
| "readVarint (b # rest) shift acc =
     (if 64 \<le> shift then Inl ErrIntOverflow
      else
        (let acc = acc OR push_bit shift (ucast (b AND 0x7F))
         in if b < 0x80 then Inr (acc, rest) else readVarint rest (shift + 7) acc))"

text \<open>
  The sum of two non-negative 64-bit integers is negative exactly when it reaches \<^term>\<open>2 ^ 63 :: nat\<close>;
  the code looks at the sign after the addition.
\<close>

definition add_index :: "nat \<Rightarrow> nat \<Rightarrow> nat option" where
  "add_index i n = (if i + n < 2 ^ 63 then Some (i + n) else None)"

text \<open>
  A length delimited value: its length, read into a 64-bit \<^verbatim>\<open>int\<close>, and then as many bytes; \<open>l\<close> is the
  length of the whole buffer.
\<close>

definition readBytes :: "nat \<Rightarrow> bytes \<Rightarrow> proto_error + bytes \<times> bytes" where
  "readBytes l rest =
     (case readVarint rest 0 (0 :: int64) of
        Inl e \<Rightarrow> Inl e
      | Inr (byteLen, rest) \<Rightarrow>
          (if sint byteLen < 0 then Inl ErrInvalidLength
           else case add_index (l - length rest) (nat (sint byteLen)) of
             None \<Rightarrow> Inl ErrInvalidLength
           | Some postIndex \<Rightarrow>
               (if l < postIndex then Inl ErrUnexpectedEOF
                else Inr (take (nat (sint byteLen)) rest, drop (nat (sint byteLen)) rest))))"

text \<open>The tag of a field: the field number as an \<^verbatim>\<open>int32\<close> and the wire type.\<close>

definition readTag :: "bytes \<Rightarrow> proto_error + int \<times> nat \<times> bytes" where
  "readTag rest =
     (case readVarint rest 0 (0 :: uint64) of
        Inl e \<Rightarrow> Inl e
      | Inr (wire, rest) \<Rightarrow>
          (let fieldNum = sint (ucast (drop_bit 3 wire) :: int32); wireType = unat (wire AND 7)
           in if wireType = 4 then Inl ErrEndGroupForNonGroup
              else if fieldNum \<le> 0 then Inl ErrIllegalTag
              else Inr (fieldNum, wireType, rest)))"

section \<open>Skipping an unknown field\<close>

fun skipVarint :: "bytes \<Rightarrow> nat \<Rightarrow> proto_error + bytes" where
  "skipVarint [] shift = (if 64 \<le> shift then Inl ErrIntOverflow else Inl ErrUnexpectedEOF)"
| "skipVarint (b # rest) shift =
     (if 64 \<le> shift then Inl ErrIntOverflow
      else if b < 0x80 then Inr rest else skipVarint rest (shift + 7))"

text \<open>One turn of the loop after the tag: the new index and the new depth of groups.\<close>

definition advance :: "nat \<Rightarrow> nat \<Rightarrow> nat \<Rightarrow> proto_error + nat \<times> nat" where
  "advance iNdEx n depth =
     (case add_index iNdEx n of None \<Rightarrow> Inl ErrInvalidLength | Some i \<Rightarrow> Inr (i, depth))"

definition skip_switch :: "bytes \<Rightarrow> nat \<Rightarrow> nat \<Rightarrow> nat \<Rightarrow> proto_error + nat \<times> nat" where
  "skip_switch dAtA wireType iNdEx depth =
     (if wireType = 0 then
        (case skipVarint (drop iNdEx dAtA) 0 of
           Inl e \<Rightarrow> Inl e
         | Inr rest \<Rightarrow> Inr (length dAtA - length rest, depth))
      else if wireType = 1 then advance iNdEx 8 depth
      else if wireType = 2 then
        (case readVarint (drop iNdEx dAtA) 0 (0 :: int64) of
           Inl e \<Rightarrow> Inl e
         | Inr (len, rest) \<Rightarrow>
             (if sint len < 0 then Inl ErrInvalidLength
              else advance (length dAtA - length rest) (nat (sint len)) depth))
      else if wireType = 3 then Inr (iNdEx, Suc depth)
      else if wireType = 4 then (if depth = 0 then Inl ErrUnexpectedEndOfGroup else Inr (iNdEx, depth - 1))
      else if wireType = 5 then advance iNdEx 4 depth
      else Inl ErrIllegalWireType)"

lemma readVarint_shorter: "readVarint rest shift acc = Inr (v, rest') \<Longrightarrow> length rest' < length rest"
  by (induction rest shift acc rule: readVarint.induct) (fastforce simp: Let_def split: if_splits)+

lemma skipVarint_shorter: "skipVarint rest shift = Inr rest' \<Longrightarrow> length rest' < length rest"
  by (induction rest shift rule: skipVarint.induct) (fastforce split: if_splits)+

lemma advance_le: "advance i n d = Inr (i', d') \<Longrightarrow> i \<le> i'"
  by (auto simp: advance_def add_index_def split: option.splits if_splits)

lemma skip_switch_le: "skip_switch dAtA w i d = Inr (i', d') \<Longrightarrow> i \<le> length dAtA \<Longrightarrow> i \<le> i'"
  by (auto simp: skip_switch_def split: if_splits sum.splits
      dest!: advance_le skipVarint_shorter readVarint_shorter)

function skip_loop :: "bytes \<Rightarrow> nat \<Rightarrow> nat \<Rightarrow> proto_error + nat" where
  "skip_loop dAtA iNdEx depth =
     (if iNdEx < length dAtA then
        (case readVarint (drop iNdEx dAtA) 0 (0 :: uint64) of
           Inl e \<Rightarrow> Inl e
         | Inr (wire, rest) \<Rightarrow>
             (case skip_switch dAtA (unat (wire AND 7)) (length dAtA - length rest) depth of
                Inl e \<Rightarrow> Inl e
              | Inr (i, d) \<Rightarrow> (if d = 0 then Inr i else skip_loop dAtA i d)))
      else Inl ErrUnexpectedEOF)"
  by pat_completeness auto
termination
proof (relation "measure (\<lambda>(dAtA, i, d). length dAtA - i)", goal_cases)
  case (2 dAtA iNdEx depth r wire rest x i d)
  then have "length rest < length (drop iNdEx dAtA)"
    by (auto dest: readVarint_shorter)
  moreover have "length dAtA - length rest \<le> i"
    using 2 by (auto dest: skip_switch_le)
  ultimately show ?case using 2(1) by simp
qed simp

declare skip_loop.simps [simp del]

definition skip :: "bytes \<Rightarrow> proto_error + nat" where
  "skip dAtA = skip_loop dAtA 0 0"

text \<open>The default branch of the field switch: \<open>rest\<close> starts at the tag of the unknown field.\<close>

definition skip_field :: "nat \<Rightarrow> bytes \<Rightarrow> proto_error + bytes" where
  "skip_field l rest =
     (case skip rest of
        Inl e \<Rightarrow> Inl e
      | Inr skippy \<Rightarrow>
          (case add_index (l - length rest) skippy of
             None \<Rightarrow> Inl ErrInvalidLength
           | Some i \<Rightarrow> (if l < i then Inl ErrUnexpectedEOF else Inr (drop skippy rest))))"

section \<open>The varint encoding\<close>

text \<open>The reference encoding: groups of seven bits, the lowest first, all but the last with the top bit set.\<close>

function varint :: "uint64 \<Rightarrow> bytes" where
  "varint v = (if 128 \<le> v then ucast (v AND 0x7f OR 0x80) # varint (drop_bit 7 v) else [ucast v])"
  by pat_completeness auto
termination
proof (relation "measure unat", goal_cases)
  case (2 v)
  then have "0 < unat v" by (simp add: word_le_nat_alt)
  then show ?case by (simp add: unat_drop_7)
qed simp

declare varint.simps [simp del]

lemma varint_small: "v < 128 \<Longrightarrow> varint v = [ucast v]"
  by (simp add: varint.simps not_le)

lemma varint_large: "128 \<le> v \<Longrightarrow> varint v = ucast (v AND 0x7f OR 0x80) # varint (drop_bit 7 v)"
  by (subst varint.simps) simp

lemma varint_induct [case_names small large]:
  fixes v :: uint64
  assumes "\<And>v. v < 128 \<Longrightarrow> P v" and "\<And>v. 128 \<le> v \<Longrightarrow> P (drop_bit 7 v) \<Longrightarrow> P v"
  shows "P v"
  using assms by (induction v rule: varint.induct) (metis linorder_not_le)

lemma varint_not_Nil [simp]: "varint v \<noteq> []"
  by (subst varint.simps) simp

lemma bitlen_less: "bitlen n \<le> k \<longleftrightarrow> n < 2 ^ k"
proof (induction n arbitrary: k rule: bitlen.induct)
  case (1 n)
  show ?case
  proof (cases "n = 0")
    case False
    with 1 show ?thesis
      by (cases k) (auto simp: bitlen.simps [of n] less_mult_imp_div_less div_less_iff_less_mult mult.commute)
  qed (simp add: bitlen.simps)
qed

lemma bitlen_div: "128 \<le> n \<Longrightarrow> bitlen n = 7 + bitlen (n div 128)"
proof -
  assume "128 \<le> n"
  then have "bitlen n = Suc (Suc (Suc (Suc (Suc (Suc (Suc (bitlen (n div 2 div 2 div 2 div 2 div 2 div 2 div 2))))))))"
    by (simp add: bitlen.simps [of n] bitlen.simps [of "n div 2"] bitlen.simps [of "n div 4"] bitlen.simps [of "n div 8"]
        bitlen.simps [of "n div 16"] bitlen.simps [of "n div 32"] bitlen.simps [of "n div 64"] div_mult2_eq [symmetric] div_greater_zero_iff)
  then show ?thesis by (simp add: div_mult2_eq [symmetric])
qed

lemma unat_or_1: "unat (v OR 1 :: uint64) = (if even (unat v) then Suc (unat v) else unat v)"
proof -
  have "unat (v OR 1) = unat v OR 1" by (simp add: unsigned_or_eq)
  then show ?thesis by (simp only: or_one_eq) simp
qed

lemma bitlen_or_1: "0 < unat v \<Longrightarrow> bitlen (unat (v OR 1 :: uint64)) = bitlen (unat v)"
  by (simp add: unat_or_1 bitlen.simps [of "unat v"] bitlen.simps [of "Suc (unat v)"])

text \<open>The size the code reserves for a varint is the length of its encoding.\<close>

lemma length_varint: "length (varint v) = sov v"
proof (induction v rule: varint_induct)
  case (small v)
  then have "unat v < 2 ^ 7" by (simp add: word_less_nat_alt)
  then have "unat (v OR 1) < 2 ^ 7" by (auto simp: unat_or_1)
  then have "bitlen (unat (v OR 1)) \<le> 7" by (simp only: bitlen_less)
  moreover have "0 < bitlen (unat (v OR 1))" by (subst bitlen.simps) (auto simp: unat_or_1 intro: odd_pos)
  ultimately show ?case using small by (simp add: varint_small sov_def Len64_def)
next
  case (large v)
  then have v: "128 \<le> unat v" by (simp add: word_le_nat_alt)
  then have pos: "0 < unat (drop_bit 7 v)" by (simp add: unat_drop_7)
  have "Len64 (v OR 1) = 7 + Len64 (drop_bit 7 v OR 1)"
    using v pos by (simp add: Len64_def bitlen_or_1 bitlen_div unat_drop_7)
  with large show ?case by (simp add: varint_large sov_def)
qed

lemma sov_le_10: "sov v \<le> 10"
proof -
  have "unat (v OR 1) < 2 ^ 64" using unsigned_less [of "v OR 1", where 'a = nat] by simp
  then have "Len64 (v OR 1) \<le> 64" unfolding Len64_def by (simp only: bitlen_less)
  then show ?thesis by (simp add: sov_def)
qed

section \<open>What the writers write\<close>

text \<open>
  In a buffer \<^term>\<open>A @ X @ B\<close> with \<^term>\<open>B\<close> already written, a writer replaces \<^term>\<open>X\<close>, when it has the
  size of the field, and moves the index to its start.
\<close>

lemma set_at_append: "set_at (A @ x # B) (int (length A)) b = Some (A @ b # B)"
  by (simp add: set_at_def)

lemma encodeVarint_loop_append:
  "length X = length (varint v) \<Longrightarrow> encodeVarint_loop (A @ X @ B) (int (length A)) v = Some (A @ varint v @ B)"
proof (induction v arbitrary: A X rule: varint_induct)
  case (small v)
  then obtain x where "X = [x]" by (auto simp: varint_small length_Suc_conv)
  moreover have "\<not> 128 \<le> v" using small by simp
  ultimately show ?case
    using small by (subst encodeVarint_loop.simps) (simp only: varint_small append_Cons append_Nil set_at_append if_False)
next
  case (large v)
  then obtain x X' where X: "X = x # X'" "length X' = length (varint (drop_bit 7 v))"
    by (auto simp: varint_large length_Suc_conv)
  let ?b = "ucast (v AND 0x7f OR 0x80) :: byte"
  have "encodeVarint_loop ((A @ [?b]) @ X' @ B) (int (length (A @ [?b]))) (drop_bit 7 v) =
        Some ((A @ [?b]) @ varint (drop_bit 7 v) @ B)"
    by (rule large.IH [OF X(2)])
  with large X show ?case
    by (subst encodeVarint_loop.simps) (simp add: varint_large set_at_append add.commute)
qed

lemma encodeVarint_append:
  assumes "length X = sov v"
  shows "encodeVarint (A @ X @ B) (int (length A + length X)) v = Some (A @ varint v @ B, int (length A))"
  using encodeVarint_loop_append [of X v A B] assms
  by (simp add: encodeVarint_def Let_def length_varint)

lemma copy_at_append:
  "length X = length xs \<Longrightarrow> copy_at (A @ X @ B) (int (length A)) xs = Some (A @ xs @ B)"
  by (simp add: copy_at_def)

lemma write_tag_append: "write_tag tag (A @ x # B, int (Suc (length A))) = Some (A @ tag # B, int (length A))"
  by (simp add: write_tag_def set_at_append)

text \<open>The bytes of a field.\<close>

definition varint_field :: "byte \<Rightarrow> uint64 \<Rightarrow> bytes" where
  "varint_field tag v = tag # varint v"

definition bytes_field :: "byte \<Rightarrow> bytes \<Rightarrow> bytes" where
  "bytes_field tag xs = tag # varint (word_of_nat (length xs)) @ xs"

lemma write_varint_field_append:
  assumes "length X = length (varint_field tag v)"
  shows "write_varint_field tag v (A @ X @ B, int (length A + length X)) = Some (A @ varint_field tag v @ B, int (length A))"
proof -
  from assms obtain x X' where X: "X = x # X'" "length X' = sov v"
    by (auto simp: varint_field_def length_varint length_Suc_conv)
  from encodeVarint_append [OF X(2), of "A @ [x]" B] write_tag_append [of tag A x "varint v @ B"] show ?thesis
    by (simp add: write_varint_field_def X varint_field_def add.commute)
qed

lemma write_bytes_field_append:
  assumes "length X = length (bytes_field tag xs)"
  shows "write_bytes_field tag xs (A @ X @ B, int (length A + length X)) = Some (A @ bytes_field tag xs @ B, int (length A))"
proof -
  let ?n = "word_of_nat (length xs) :: uint64"
  from assms obtain x X' where X: "X = x # X'" and len: "length X' = sov ?n + length xs"
    by (auto simp: bytes_field_def length_varint length_Suc_conv)
  let ?V = "take (sov ?n) X'" and ?P = "drop (sov ?n) X'"
  have V: "length ?V = sov ?n" and P: "length ?P = length xs" using len by simp_all
  have buf: "A @ X @ B = (A @ x # ?V) @ ?P @ B" by (simp add: X)
  have i: "int (length A + length X) - int (length xs) = int (length (A @ x # ?V))"
    using V by (simp add: X len)
  have "copy_at (A @ X @ B) (int (length A + length X) - int (length xs)) xs = Some ((A @ [x]) @ ?V @ xs @ B)"
    unfolding buf i using copy_at_append [OF P, of "A @ x # ?V" B] by simp
  moreover have "encodeVarint ((A @ [x]) @ ?V @ xs @ B) (int (length A + length X) - int (length xs)) ?n =
      Some ((A @ [x]) @ varint ?n @ xs @ B, int (length (A @ [x])))"
    using encodeVarint_append [OF V, of "A @ [x]" "xs @ B"] unfolding i by (simp add: len)
  ultimately show ?thesis
    using write_tag_append [of tag A x "varint ?n @ xs @ B"]
    by (simp add: write_bytes_field_def bytes_field_def)
qed

section \<open>Reading what was written\<close>

lemma word_masks: "(0x7f :: 'a :: len word) = mask 7"
  by (simp add: mask_eq_exp_minus_1)

lemma bit_0x80: "bit (0x80 :: 'a :: len word) n \<longleftrightarrow> n = 7 \<and> 7 < LENGTH('a)"
proof -
  have "(0x80 :: 'a word) = 2 ^ 7" by simp
  then show ?thesis by (simp only: bit_exp_iff) auto
qed

lemma bit_0x80_int: "bit (0x80 :: int) n \<longleftrightarrow> n = 7"
proof -
  have "(0x80 :: int) = 2 ^ 7" by simp
  then show ?thesis by (simp only: bit_exp_iff) auto
qed

lemma varint_byte_low: "(ucast (v AND 0x7f OR 0x80 :: uint64) :: byte) AND 0x7F = ucast (v AND 0x7f)"
  unfolding word_masks by (rule bit_word_eqI) (auto simp: bit_simps bit_0x80 bit_0x80_int)

lemma bit_7_not_less:
  assumes "bit (b :: byte) 7"
  shows "\<not> b < 0x80"
proof
  assume "b < 0x80"
  then have "unat b < 128" by (simp add: word_less_nat_alt)
  then have "\<not> bit (unat b) 7" by (simp add: bit_iff_odd)
  with assms show False by (simp add: bit_unsigned_iff)
qed

lemma varint_byte_high: "\<not> (ucast (v AND 0x7f OR 0x80 :: uint64) :: byte) < 0x80"
  by (rule bit_7_not_less) (unfold word_masks, simp add: bit_simps bit_0x80 bit_0x80_int)

lemma small_no_high_bit:
  fixes v :: uint64
  assumes "v < 128" "bit v n"
  shows "n < 7"
proof (rule ccontr)
  assume "\<not> n < 7"
  have "unat v < 128" using assms(1) by (simp add: word_less_nat_alt)
  also have "\<dots> \<le> 2 ^ n" using \<open>\<not> n < 7\<close> power_increasing [of 7 n "2 :: nat"] by simp
  finally have "\<not> bit (unat v) n" by (simp add: bit_iff_odd)
  with assms(2) show False by (simp add: bit_unsigned_iff)
qed

lemma small_byte: "v < 128 \<Longrightarrow> (ucast (v :: uint64) :: byte) < 0x80"
proof -
  assume "v < 128"
  then have v: "unat v < 128" by (simp add: word_less_nat_alt)
  then show ?thesis by (simp add: word_less_nat_alt unsigned_ucast_eq take_bit_eq_mod)
qed

lemma small_byte_low:
  "v < 128 \<Longrightarrow> (ucast ((ucast (v :: uint64) :: byte) AND 0x7F) :: 'a :: len word) = ucast v"
  unfolding word_masks by (rule bit_word_eqI) (auto simp: bit_simps dest: small_no_high_bit)

lemma varint_split:
  "push_bit s (ucast (ucast (v AND 0x7f :: uint64) :: byte)) OR push_bit (s + 7) (ucast (drop_bit 7 v)) =
   (push_bit s (ucast v) :: 'a :: len word)"
proof (unfold word_masks, rule bit_word_eqI)
  fix n
  assume "n < LENGTH('a)"
  then show "bit (push_bit s (ucast (ucast (v AND mask 7) :: byte)) OR push_bit (s + 7) (ucast (drop_bit 7 v)) :: 'a word) n =
        bit (push_bit s (ucast v) :: 'a word) n"
    by (cases "n - s < 7") (auto simp: bit_simps)
qed

lemma readVarint_varint:
  fixes acc :: "'a :: len word"
  assumes "shift < 64" and "unat v < 2 ^ (64 - shift)"
  shows "readVarint (varint v @ rest) shift acc = Inr (acc OR push_bit shift (ucast v), rest)"
  using assms
proof (induction v arbitrary: shift acc rule: varint_induct)
  case (small v)
  then show ?case by (simp add: varint_small small_byte small_byte_low Let_def)
next
  case (large v)
  have v: "128 \<le> unat v" using large.hyps by (simp add: word_le_nat_alt)
  have "7 < 64 - shift"
  proof (rule ccontr)
    assume "\<not> 7 < 64 - shift"
    then have "(2 :: nat) ^ (64 - shift) \<le> 2 ^ 7" by (intro power_increasing) simp_all
    with large.prems v show False by simp
  qed
  moreover from this have "(2 :: nat) ^ (64 - shift) = 2 ^ (64 - (shift + 7)) * 128"
    using power_add [of "2 :: nat" "64 - (shift + 7)" 7] by simp
  ultimately have "readVarint (varint (drop_bit 7 v) @ rest) (shift + 7) a = Inr (a OR push_bit (shift + 7) (ucast (drop_bit 7 v)), rest)"
    for a :: "'a word"
    using large.prems by (intro large.IH) (simp_all add: unat_drop_7 less_mult_imp_div_less)
  with large show ?case
    by (simp add: varint_large Let_def varint_byte_high varint_byte_low or.assoc varint_split del: push_bit_push_bit)
qed

lemma readVarint_varint_0: "readVarint (varint v @ rest) 0 (0 :: 'a :: len word) = Inr (ucast v, rest)"
  using readVarint_varint [of 0 v rest 0] unsigned_less [of v, where 'a = nat] by simp

lemma sint_word_of_nat: "n < 2 ^ 63 \<Longrightarrow> sint (word_of_nat n :: int64) = int n"
  by (simp add: sint_uint uint_nat unsigned_of_nat take_bit_nat_eq_self signed_take_bit_int_eq_self)

lemma readBytes_bytes_field:
  assumes "l < 2 ^ 63" and "length (varint (word_of_nat (length xs)) @ xs @ rest) \<le> l"
  shows "readBytes l (varint (word_of_nat (length xs)) @ xs @ rest) = Inr (xs, rest)"
proof -
  have n: "length xs < 2 ^ 63" using assms by simp
  show ?thesis
    using assms n by (simp add: readBytes_def readVarint_varint_0 sint_word_of_nat add_index_def)
qed

text \<open>The wrap-around that \<^const>\<open>add_index\<close> stands for.\<close>

lemma add_index_wraps:
  assumes "i < 2 ^ 63" and "n < 2 ^ 63"
  shows "sint (word_of_nat i + word_of_nat n :: int64) < 0 \<longleftrightarrow> add_index i n = None"
proof (cases "i + n < 2 ^ 63")
  case True
  then show ?thesis using sint_word_of_nat [of "i + n"] by (simp add: add_index_def)
next
  case False
  let ?w = "word_of_nat (i + n) :: int64"
  have "unat ?w = i + n"
    using assms by (simp only: unsigned_of_nat) (simp add: take_bit_nat_eq_self)
  moreover have "(i + n) div 2 ^ 63 = 1"
    using False assms by (intro div_nat_eqI) simp_all
  ultimately have "bit (unat ?w) 63" by (simp only: bit_iff_odd) simp
  then have "bit ?w 63" by (simp add: bit_unsigned_iff)
  then have "sint ?w < 0" using bit_last_iff [of ?w] by simp
  with False show ?thesis by (simp add: add_index_def)
qed

section \<open>Progress\<close>

lemma readBytes_shorter: "readBytes l rest = Inr (xs, rest') \<Longrightarrow> length rest' < length rest"
  by (auto simp: readBytes_def split: sum.splits prod.splits option.splits if_splits dest!: readVarint_shorter)

lemma readTag_shorter: "readTag rest = Inr (f, w, rest') \<Longrightarrow> length rest' < length rest"
  by (auto simp: readTag_def Let_def split: sum.splits prod.splits if_splits dest!: readVarint_shorter)

lemma skip_loop_pos: "skip_loop dAtA i d = Inr n \<Longrightarrow> i < n"
proof (induction dAtA i d rule: skip_loop.induct)
  case (1 dAtA i d)
  from "1.prems" obtain wire rest where i: "i < length dAtA" and r: "readVarint (drop i dAtA) 0 (0 :: uint64) = Inr (wire, rest)"
    by (subst (asm) skip_loop.simps) (auto split: if_splits sum.splits)
  with "1.prems" obtain i' d' where s: "skip_switch dAtA (unat (wire AND 7)) (length dAtA - length rest) d = Inr (i', d')"
    by (subst (asm) skip_loop.simps) (auto split: if_splits sum.splits)
  have "i < i'"
    using readVarint_shorter [OF r] skip_switch_le [OF s] i by simp
  moreover have "d' = 0 \<and> n = i' \<or> d' \<noteq> 0 \<and> skip_loop dAtA i' d' = Inr n"
    using "1.prems" i r s by (subst (asm) skip_loop.simps) (auto split: if_splits)
  ultimately show ?case using "1.IH" [OF i r refl s refl] by fastforce
qed

lemma skip_field_shorter: "skip_field l rest = Inr rest' \<Longrightarrow> rest \<noteq> [] \<Longrightarrow> length rest' < length rest"
  by (auto simp: skip_field_def skip_def split: sum.splits option.splits if_splits dest!: skip_loop_pos)

section \<open>Composing the writers\<close>

text \<open>A writer that puts the bytes \<open>e\<close> in front of the index.\<close>

definition writes :: "(bytes \<times> int \<Rightarrow> (bytes \<times> int) option) \<Rightarrow> bytes \<Rightarrow> bool" where
  "writes w e \<longleftrightarrow> (\<forall>A X B. length X = length e \<longrightarrow>
     w (A @ X @ B, int (length A + length X)) = Some (A @ e @ B, int (length A)))"

lemma writes_varint: "writes (write_varint_field tag v) (varint_field tag v)"
  unfolding writes_def using write_varint_field_append by blast

lemma writes_bytes: "writes (write_bytes_field tag xs) (bytes_field tag xs)"
  unfolding writes_def using write_bytes_field_append by blast

lemma writes_if: "writes f e \<Longrightarrow> writes (\<lambda>di. if c then f di else Some di) (if c then e else [])"
  by (cases c) (simp_all add: writes_def)

lemma writes_bind:
  assumes "writes f e1" and "writes g e2"
  shows "writes (\<lambda>di. f di \<bind> g) (e2 @ e1)"
  unfolding writes_def
proof (intro allI impI)
  fix A X B :: bytes
  assume len: "length X = length (e2 @ e1)"
  then obtain Y Z where X: "X = Y @ Z" "length Y = length e2" "length Z = length e1"
    by (metis append_take_drop_id diff_add_inverse length_append length_drop length_take min.absorb2 le_add1)
  have "f ((A @ Y) @ Z @ B, int (length (A @ Y) + length Z)) = Some ((A @ Y) @ e1 @ B, int (length (A @ Y)))"
    using assms(1) X unfolding writes_def by blast
  moreover have "g (A @ Y @ (e1 @ B), int (length A + length Y)) = Some (A @ e2 @ (e1 @ B), int (length A))"
    using assms(2) X unfolding writes_def by blast
  ultimately show "(f (A @ X @ B, int (length A + length X)) \<bind> g) = Some (A @ (e2 @ e1) @ B, int (length A))"
    by (simp add: X add.assoc)
qed

lemma writes_whole:
  assumes "writes w e" and "length X = length e"
  shows "w (X, int (length X)) = Some (e, 0)"
proof -
  have "w ([] @ X @ [], int (length ([] :: bytes) + length X)) = Some ([] @ e @ [], int (length ([] :: bytes)))"
    using assms unfolding writes_def by blast
  then show ?thesis by simp
qed

lemma length_varint_field: "length (varint_field tag v) = 1 + sov v"
  by (simp add: varint_field_def length_varint)

lemma length_bytes_field: "length (bytes_field tag xs) = 1 + length xs + sov (word_of_nat (length xs))"
  by (simp add: bytes_field_def length_varint)

end
