(* ===== verification/WireMessages.thy ===== *)
theory WireMessages
  imports ProtoWire
begin

text \<open>
  The three generated messages: \<^verbatim>\<open>WsMessage\<close> (\<^verbatim>\<open>websocket/data/wsMessage.pb.go\<close>), \<^verbatim>\<open>TopicMessage\<close>
  (\<^verbatim>\<open>p2p/data/topicMessage.pb.go\<close>) and \<^verbatim>\<open>PeerShard\<close> (\<^verbatim>\<open>p2p/message/peerShardMessage.pb.go\<close>), with their
  \<^verbatim>\<open>Size\<close>, \<^verbatim>\<open>Marshal\<close>, \<^verbatim>\<open>MarshalTo\<close>, \<^verbatim>\<open>MarshalToSizedBuffer\<close> and \<^verbatim>\<open>Unmarshal\<close>. A Go string is the list of
  its bytes; a nil slice and an empty one are both the empty list. \<^verbatim>\<open>Unmarshal\<close> updates the message
  it is called on; on an error the model returns the error alone.
\<close>

section \<open>WsMessage\<close>

record WsMessage =
  WithAcknowledge :: bool
  Counter :: uint64
  ws_Type :: int32
  ws_Payload :: bytes
  ws_Topic :: bytes
  ws_Version :: uint32

definition WsMessage_zero :: WsMessage where
  "WsMessage_zero = \<lparr>WithAcknowledge = False, Counter = 0, ws_Type = 0, ws_Payload = [], ws_Topic = [], ws_Version = 0\<rparr>"

text \<open>The conversion \<^verbatim>\<open>uint64(m.Type)\<close> of a signed integer extends the sign.\<close>

definition WsMessage_Size :: "WsMessage \<Rightarrow> nat" where
  "WsMessage_Size m =
     (if WithAcknowledge m then 2 else 0)
   + (if Counter m \<noteq> 0 then 1 + sov (Counter m) else 0)
   + (if ws_Type m \<noteq> 0 then 1 + sov (scast (ws_Type m)) else 0)
   + (if 0 < length (ws_Payload m) then 1 + length (ws_Payload m) + sov (word_of_nat (length (ws_Payload m))) else 0)
   + (if 0 < length (ws_Topic m) then 1 + length (ws_Topic m) + sov (word_of_nat (length (ws_Topic m))) else 0)
   + (if ws_Version m \<noteq> 0 then 1 + sov (ucast (ws_Version m)) else 0)"

definition write_bool_field :: "byte \<Rightarrow> bytes \<times> int \<Rightarrow> (bytes \<times> int) option" where
  "write_bool_field tag = (\<lambda>(dAtA, i). do { dAtA \<leftarrow> set_at dAtA (i - 1) 1; write_tag tag (dAtA, i - 1) })"

definition WsMessage_write_fields :: "WsMessage \<Rightarrow> bytes \<times> int \<Rightarrow> (bytes \<times> int) option" where
  "WsMessage_write_fields m di = do {
     di \<leftarrow> (if ws_Version m \<noteq> 0 then write_varint_field 0x30 (ucast (ws_Version m)) di else Some di);
     di \<leftarrow> (if 0 < length (ws_Topic m) then write_bytes_field 0x2a (ws_Topic m) di else Some di);
     di \<leftarrow> (if 0 < length (ws_Payload m) then write_bytes_field 0x22 (ws_Payload m) di else Some di);
     di \<leftarrow> (if ws_Type m \<noteq> 0 then write_varint_field 0x18 (scast (ws_Type m)) di else Some di);
     di \<leftarrow> (if Counter m \<noteq> 0 then write_varint_field 0x10 (Counter m) di else Some di);
     if WithAcknowledge m then write_bool_field 0x8 di else Some di }"

definition WsMessage_MarshalToSizedBuffer :: "WsMessage \<Rightarrow> bytes \<Rightarrow> (bytes \<times> int) option" where
  "WsMessage_MarshalToSizedBuffer m dAtA =
     (case WsMessage_write_fields m (dAtA, int (length dAtA)) of
        None \<Rightarrow> None
      | Some (dAtA', i) \<Rightarrow> Some (dAtA', int (length dAtA) - i))"

definition WsMessage_Marshal :: "WsMessage \<Rightarrow> bytes option" where
  "WsMessage_Marshal m = do {
     dn \<leftarrow> WsMessage_MarshalToSizedBuffer m (replicate (WsMessage_Size m) 0);
     Some (take (nat (snd dn)) (fst dn)) }"

text \<open>\<^verbatim>\<open>MarshalTo\<close> writes into the first \<^verbatim>\<open>Size\<close> bytes; the slice expression panics on a short buffer.\<close>

definition WsMessage_MarshalTo :: "WsMessage \<Rightarrow> bytes \<Rightarrow> (bytes \<times> int) option" where
  "WsMessage_MarshalTo m dAtA =
     (let size = WsMessage_Size m
      in if length dAtA < size then None
         else do { dn \<leftarrow> WsMessage_MarshalToSizedBuffer m (take size dAtA); Some (fst dn @ drop size dAtA, snd dn) })"

text \<open>
  The switch over the field numbers, after the tag was read: \<^const>\<open>None\<close> is the default branch.
\<close>

definition WsMessage_field :: "WsMessage \<Rightarrow> int \<Rightarrow> nat \<Rightarrow> nat \<Rightarrow> bytes \<Rightarrow> (proto_error + WsMessage \<times> bytes) option" where
  "WsMessage_field m fieldNum wireType l rest =
     (if fieldNum = 1 then Some
        (if wireType \<noteq> 0 then Inl ErrWrongWireType
         else case readVarint rest 0 (0 :: int64) of Inl e \<Rightarrow> Inl e
              | Inr (v, rest) \<Rightarrow> Inr (m\<lparr>WithAcknowledge := v \<noteq> 0\<rparr>, rest))
      else if fieldNum = 2 then Some
        (if wireType \<noteq> 0 then Inl ErrWrongWireType
         else case readVarint rest 0 0 of Inl e \<Rightarrow> Inl e | Inr (v, rest) \<Rightarrow> Inr (m\<lparr>Counter := v\<rparr>, rest))
      else if fieldNum = 3 then Some
        (if wireType \<noteq> 0 then Inl ErrWrongWireType
         else case readVarint rest 0 0 of Inl e \<Rightarrow> Inl e | Inr (v, rest) \<Rightarrow> Inr (m\<lparr>ws_Type := v\<rparr>, rest))
      else if fieldNum = 4 then Some
        (if wireType \<noteq> 2 then Inl ErrWrongWireType
         else case readBytes l rest of Inl e \<Rightarrow> Inl e | Inr (v, rest) \<Rightarrow> Inr (m\<lparr>ws_Payload := v\<rparr>, rest))
      else if fieldNum = 5 then Some
        (if wireType \<noteq> 2 then Inl ErrWrongWireType
         else case readBytes l rest of Inl e \<Rightarrow> Inl e | Inr (v, rest) \<Rightarrow> Inr (m\<lparr>ws_Topic := v\<rparr>, rest))
      else if fieldNum = 6 then Some
        (if wireType \<noteq> 0 then Inl ErrWrongWireType
         else case readVarint rest 0 0 of Inl e \<Rightarrow> Inl e | Inr (v, rest) \<Rightarrow> Inr (m\<lparr>ws_Version := v\<rparr>, rest))
      else None)"

lemma WsMessage_field_shorter: "WsMessage_field m f w l rest = Some (Inr (m', rest')) \<Longrightarrow> length rest' < length rest"
  unfolding WsMessage_field_def
  by (auto split: if_splits sum.splits dest!: readVarint_shorter readBytes_shorter)

function WsMessage_Unmarshal_loop :: "WsMessage \<Rightarrow> nat \<Rightarrow> bytes \<Rightarrow> proto_error + WsMessage" where
  "WsMessage_Unmarshal_loop m l rest =
     (if rest = [] then Inr m
      else case readTag rest of
        Inl e \<Rightarrow> Inl e
      | Inr (fieldNum, wireType, rest1) \<Rightarrow>
          (case WsMessage_field m fieldNum wireType l rest1 of
             Some (Inl e) \<Rightarrow> Inl e
           | Some (Inr (m', rest2)) \<Rightarrow> WsMessage_Unmarshal_loop m' l rest2
           | None \<Rightarrow> (case skip_field l rest of Inl e \<Rightarrow> Inl e | Inr rest2 \<Rightarrow> WsMessage_Unmarshal_loop m l rest2)))"
  by pat_completeness auto
termination
  by (relation "measure (\<lambda>(m, l, rest). length rest)")
    (auto dest!: readTag_shorter WsMessage_field_shorter skip_field_shorter)

declare WsMessage_Unmarshal_loop.simps [simp del]

definition WsMessage_Unmarshal :: "WsMessage \<Rightarrow> bytes \<Rightarrow> proto_error + WsMessage" where
  "WsMessage_Unmarshal m dAtA = WsMessage_Unmarshal_loop m (length dAtA) dAtA"

section \<open>TopicMessage\<close>

record TopicMessage =
  tm_Version :: uint32
  tm_Payload :: bytes
  tm_Timestamp :: int64
  tm_Pk :: bytes
  tm_SignatureOnPid :: bytes

definition TopicMessage_zero :: TopicMessage where
  "TopicMessage_zero = \<lparr>tm_Version = 0, tm_Payload = [], tm_Timestamp = 0, tm_Pk = [], tm_SignatureOnPid = []\<rparr>"

definition TopicMessage_Size :: "TopicMessage \<Rightarrow> nat" where
  "TopicMessage_Size m =
     (if tm_Version m \<noteq> 0 then 1 + sov (ucast (tm_Version m)) else 0)
   + (if 0 < length (tm_Payload m) then 1 + length (tm_Payload m) + sov (word_of_nat (length (tm_Payload m))) else 0)
   + (if tm_Timestamp m \<noteq> 0 then 1 + sov (tm_Timestamp m) else 0)
   + (if 0 < length (tm_Pk m) then 1 + length (tm_Pk m) + sov (word_of_nat (length (tm_Pk m))) else 0)
   + (if 0 < length (tm_SignatureOnPid m)
      then 1 + length (tm_SignatureOnPid m) + sov (word_of_nat (length (tm_SignatureOnPid m))) else 0)"

definition TopicMessage_write_fields :: "TopicMessage \<Rightarrow> bytes \<times> int \<Rightarrow> (bytes \<times> int) option" where
  "TopicMessage_write_fields m di = do {
     di \<leftarrow> (if 0 < length (tm_SignatureOnPid m) then write_bytes_field 0x2a (tm_SignatureOnPid m) di else Some di);
     di \<leftarrow> (if 0 < length (tm_Pk m) then write_bytes_field 0x22 (tm_Pk m) di else Some di);
     di \<leftarrow> (if tm_Timestamp m \<noteq> 0 then write_varint_field 0x18 (tm_Timestamp m) di else Some di);
     di \<leftarrow> (if 0 < length (tm_Payload m) then write_bytes_field 0x12 (tm_Payload m) di else Some di);
     if tm_Version m \<noteq> 0 then write_varint_field 0x8 (ucast (tm_Version m)) di else Some di }"

definition TopicMessage_MarshalToSizedBuffer :: "TopicMessage \<Rightarrow> bytes \<Rightarrow> (bytes \<times> int) option" where
  "TopicMessage_MarshalToSizedBuffer m dAtA =
     (case TopicMessage_write_fields m (dAtA, int (length dAtA)) of
        None \<Rightarrow> None
      | Some (dAtA', i) \<Rightarrow> Some (dAtA', int (length dAtA) - i))"

definition TopicMessage_Marshal :: "TopicMessage \<Rightarrow> bytes option" where
  "TopicMessage_Marshal m = do {
     dn \<leftarrow> TopicMessage_MarshalToSizedBuffer m (replicate (TopicMessage_Size m) 0);
     Some (take (nat (snd dn)) (fst dn)) }"

definition TopicMessage_MarshalTo :: "TopicMessage \<Rightarrow> bytes \<Rightarrow> (bytes \<times> int) option" where
  "TopicMessage_MarshalTo m dAtA =
     (let size = TopicMessage_Size m
      in if length dAtA < size then None
         else do { dn \<leftarrow> TopicMessage_MarshalToSizedBuffer m (take size dAtA); Some (fst dn @ drop size dAtA, snd dn) })"

definition TopicMessage_field ::
  "TopicMessage \<Rightarrow> int \<Rightarrow> nat \<Rightarrow> nat \<Rightarrow> bytes \<Rightarrow> (proto_error + TopicMessage \<times> bytes) option" where
  "TopicMessage_field m fieldNum wireType l rest =
     (if fieldNum = 1 then Some
        (if wireType \<noteq> 0 then Inl ErrWrongWireType
         else case readVarint rest 0 0 of Inl e \<Rightarrow> Inl e | Inr (v, rest) \<Rightarrow> Inr (m\<lparr>tm_Version := v\<rparr>, rest))
      else if fieldNum = 2 then Some
        (if wireType \<noteq> 2 then Inl ErrWrongWireType
         else case readBytes l rest of Inl e \<Rightarrow> Inl e | Inr (v, rest) \<Rightarrow> Inr (m\<lparr>tm_Payload := v\<rparr>, rest))
      else if fieldNum = 3 then Some
        (if wireType \<noteq> 0 then Inl ErrWrongWireType
         else case readVarint rest 0 0 of Inl e \<Rightarrow> Inl e | Inr (v, rest) \<Rightarrow> Inr (m\<lparr>tm_Timestamp := v\<rparr>, rest))
      else if fieldNum = 4 then Some
        (if wireType \<noteq> 2 then Inl ErrWrongWireType
         else case readBytes l rest of Inl e \<Rightarrow> Inl e | Inr (v, rest) \<Rightarrow> Inr (m\<lparr>tm_Pk := v\<rparr>, rest))
      else if fieldNum = 5 then Some
        (if wireType \<noteq> 2 then Inl ErrWrongWireType
         else case readBytes l rest of Inl e \<Rightarrow> Inl e | Inr (v, rest) \<Rightarrow> Inr (m\<lparr>tm_SignatureOnPid := v\<rparr>, rest))
      else None)"

lemma TopicMessage_field_shorter:
  "TopicMessage_field m f w l rest = Some (Inr (m', rest')) \<Longrightarrow> length rest' < length rest"
  unfolding TopicMessage_field_def
  by (auto split: if_splits sum.splits dest!: readVarint_shorter readBytes_shorter)

function TopicMessage_Unmarshal_loop :: "TopicMessage \<Rightarrow> nat \<Rightarrow> bytes \<Rightarrow> proto_error + TopicMessage" where
  "TopicMessage_Unmarshal_loop m l rest =
     (if rest = [] then Inr m
      else case readTag rest of
        Inl e \<Rightarrow> Inl e
      | Inr (fieldNum, wireType, rest1) \<Rightarrow>
          (case TopicMessage_field m fieldNum wireType l rest1 of
             Some (Inl e) \<Rightarrow> Inl e
           | Some (Inr (m', rest2)) \<Rightarrow> TopicMessage_Unmarshal_loop m' l rest2
           | None \<Rightarrow> (case skip_field l rest of Inl e \<Rightarrow> Inl e | Inr rest2 \<Rightarrow> TopicMessage_Unmarshal_loop m l rest2)))"
  by pat_completeness auto
termination
  by (relation "measure (\<lambda>(m, l, rest). length rest)")
    (auto dest!: readTag_shorter TopicMessage_field_shorter skip_field_shorter)

declare TopicMessage_Unmarshal_loop.simps [simp del]

definition TopicMessage_Unmarshal :: "TopicMessage \<Rightarrow> bytes \<Rightarrow> proto_error + TopicMessage" where
  "TopicMessage_Unmarshal m dAtA = TopicMessage_Unmarshal_loop m (length dAtA) dAtA"

section \<open>PeerShard\<close>

record PeerShard =
  ShardId :: bytes

definition PeerShard_zero :: PeerShard where
  "PeerShard_zero = \<lparr>ShardId = []\<rparr>"

definition PeerShard_Size :: "PeerShard \<Rightarrow> nat" where
  "PeerShard_Size m =
     (if 0 < length (ShardId m) then 1 + length (ShardId m) + sov (word_of_nat (length (ShardId m))) else 0)"

definition PeerShard_MarshalToSizedBuffer :: "PeerShard \<Rightarrow> bytes \<Rightarrow> (bytes \<times> int) option" where
  "PeerShard_MarshalToSizedBuffer m dAtA = do {
     di \<leftarrow> (if 0 < length (ShardId m) then write_bytes_field 0xa (ShardId m) (dAtA, int (length dAtA))
            else Some (dAtA, int (length dAtA)));
     Some (fst di, int (length dAtA) - snd di) }"

definition PeerShard_Marshal :: "PeerShard \<Rightarrow> bytes option" where
  "PeerShard_Marshal m = do {
     dn \<leftarrow> PeerShard_MarshalToSizedBuffer m (replicate (PeerShard_Size m) 0);
     Some (take (nat (snd dn)) (fst dn)) }"

definition PeerShard_field :: "PeerShard \<Rightarrow> int \<Rightarrow> nat \<Rightarrow> nat \<Rightarrow> bytes \<Rightarrow> (proto_error + PeerShard \<times> bytes) option" where
  "PeerShard_field m fieldNum wireType l rest =
     (if fieldNum = 1 then Some
        (if wireType \<noteq> 2 then Inl ErrWrongWireType
         else case readBytes l rest of Inl e \<Rightarrow> Inl e | Inr (v, rest) \<Rightarrow> Inr (m\<lparr>ShardId := v\<rparr>, rest))
      else None)"

lemma PeerShard_field_shorter: "PeerShard_field m f w l rest = Some (Inr (m', rest')) \<Longrightarrow> length rest' < length rest"
  unfolding PeerShard_field_def by (auto split: if_splits sum.splits dest!: readBytes_shorter)

function PeerShard_Unmarshal_loop :: "PeerShard \<Rightarrow> nat \<Rightarrow> bytes \<Rightarrow> proto_error + PeerShard" where
  "PeerShard_Unmarshal_loop m l rest =
     (if rest = [] then Inr m
      else case readTag rest of
        Inl e \<Rightarrow> Inl e
      | Inr (fieldNum, wireType, rest1) \<Rightarrow>
          (case PeerShard_field m fieldNum wireType l rest1 of
             Some (Inl e) \<Rightarrow> Inl e
           | Some (Inr (m', rest2)) \<Rightarrow> PeerShard_Unmarshal_loop m' l rest2
           | None \<Rightarrow> (case skip_field l rest of Inl e \<Rightarrow> Inl e | Inr rest2 \<Rightarrow> PeerShard_Unmarshal_loop m l rest2)))"
  by pat_completeness auto
termination
  by (relation "measure (\<lambda>(m, l, rest). length rest)")
    (auto dest!: readTag_shorter PeerShard_field_shorter skip_field_shorter)

declare PeerShard_Unmarshal_loop.simps [simp del]

definition PeerShard_Unmarshal :: "PeerShard \<Rightarrow> bytes \<Rightarrow> proto_error + PeerShard" where
  "PeerShard_Unmarshal m dAtA = PeerShard_Unmarshal_loop m (length dAtA) dAtA"

section \<open>The bytes of a message\<close>

lemma writes_bool: "writes (write_bool_field tag) [tag, 1]"
  unfolding writes_def
proof (intro allI impI)
  fix A X B :: bytes
  assume "length X = length [tag, 1]"
  then obtain x y where X: "X = [x, y]" by (auto simp: length_Suc_conv)
  have "set_at (A @ X @ B) (int (length A + length X) - 1) 1 = Some (A @ x # 1 # B)"
    using set_at_append [of "A @ [x]" y B 1] by (simp add: X)
  with write_tag_append [of tag A x "1 # B"]
  show "write_bool_field tag (A @ X @ B, int (length A + length X)) = Some (A @ [tag, 1] @ B, int (length A))"
    by (simp add: write_bool_field_def X)
qed

definition WsMessage_bytes :: "WsMessage \<Rightarrow> bytes" where
  "WsMessage_bytes m =
     (if WithAcknowledge m then [0x8, 1] else [])
   @ (if Counter m \<noteq> 0 then varint_field 0x10 (Counter m) else [])
   @ (if ws_Type m \<noteq> 0 then varint_field 0x18 (scast (ws_Type m)) else [])
   @ (if 0 < length (ws_Payload m) then bytes_field 0x22 (ws_Payload m) else [])
   @ (if 0 < length (ws_Topic m) then bytes_field 0x2a (ws_Topic m) else [])
   @ (if ws_Version m \<noteq> 0 then varint_field 0x30 (ucast (ws_Version m)) else [])"

definition TopicMessage_bytes :: "TopicMessage \<Rightarrow> bytes" where
  "TopicMessage_bytes m =
     (if tm_Version m \<noteq> 0 then varint_field 0x8 (ucast (tm_Version m)) else [])
   @ (if 0 < length (tm_Payload m) then bytes_field 0x12 (tm_Payload m) else [])
   @ (if tm_Timestamp m \<noteq> 0 then varint_field 0x18 (tm_Timestamp m) else [])
   @ (if 0 < length (tm_Pk m) then bytes_field 0x22 (tm_Pk m) else [])
   @ (if 0 < length (tm_SignatureOnPid m) then bytes_field 0x2a (tm_SignatureOnPid m) else [])"

definition PeerShard_bytes :: "PeerShard \<Rightarrow> bytes" where
  "PeerShard_bytes m = (if 0 < length (ShardId m) then bytes_field 0xa (ShardId m) else [])"

lemmas field_lengths = length_varint_field length_bytes_field

lemma WsMessage_Size_length: "WsMessage_Size m = length (WsMessage_bytes m)"
  by (simp add: WsMessage_Size_def WsMessage_bytes_def field_lengths)

lemma TopicMessage_Size_length: "TopicMessage_Size m = length (TopicMessage_bytes m)"
  by (simp add: TopicMessage_Size_def TopicMessage_bytes_def field_lengths)

lemma PeerShard_Size_length: "PeerShard_Size m = length (PeerShard_bytes m)"
  by (simp add: PeerShard_Size_def PeerShard_bytes_def field_lengths)

lemma WsMessage_writes: "writes (WsMessage_write_fields m) (WsMessage_bytes m)"
proof -
  have "writes (WsMessage_write_fields m)
    ((((((if WithAcknowledge m then [0x8, 1] else [])
    @ (if Counter m \<noteq> 0 then varint_field 0x10 (Counter m) else []))
    @ (if ws_Type m \<noteq> 0 then varint_field 0x18 (scast (ws_Type m)) else []))
    @ (if 0 < length (ws_Payload m) then bytes_field 0x22 (ws_Payload m) else []))
    @ (if 0 < length (ws_Topic m) then bytes_field 0x2a (ws_Topic m) else []))
    @ (if ws_Version m \<noteq> 0 then varint_field 0x30 (ucast (ws_Version m)) else []))"
    unfolding WsMessage_write_fields_def [abs_def]
    by (intro writes_bind writes_if writes_varint writes_bytes writes_bool)
  then show ?thesis by (simp only: WsMessage_bytes_def append_assoc)
qed

lemma TopicMessage_writes: "writes (TopicMessage_write_fields m) (TopicMessage_bytes m)"
proof -
  have "writes (TopicMessage_write_fields m)
    (((((if tm_Version m \<noteq> 0 then varint_field 0x8 (ucast (tm_Version m)) else [])
    @ (if 0 < length (tm_Payload m) then bytes_field 0x12 (tm_Payload m) else []))
    @ (if tm_Timestamp m \<noteq> 0 then varint_field 0x18 (tm_Timestamp m) else []))
    @ (if 0 < length (tm_Pk m) then bytes_field 0x22 (tm_Pk m) else []))
    @ (if 0 < length (tm_SignatureOnPid m) then bytes_field 0x2a (tm_SignatureOnPid m) else []))"
    unfolding TopicMessage_write_fields_def [abs_def]
    by (intro writes_bind writes_if writes_varint writes_bytes)
  then show ?thesis by (simp only: TopicMessage_bytes_def append_assoc)
qed

lemma WsMessage_MarshalToSizedBuffer_bytes:
  "length dAtA = WsMessage_Size m \<Longrightarrow>
   WsMessage_MarshalToSizedBuffer m dAtA = Some (WsMessage_bytes m, int (WsMessage_Size m))"
  using writes_whole [OF WsMessage_writes, of dAtA m]
  by (simp add: WsMessage_MarshalToSizedBuffer_def WsMessage_Size_length)

lemma TopicMessage_MarshalToSizedBuffer_bytes:
  "length dAtA = TopicMessage_Size m \<Longrightarrow>
   TopicMessage_MarshalToSizedBuffer m dAtA = Some (TopicMessage_bytes m, int (TopicMessage_Size m))"
  using writes_whole [OF TopicMessage_writes, of dAtA m]
  by (simp add: TopicMessage_MarshalToSizedBuffer_def TopicMessage_Size_length)

lemma PeerShard_MarshalToSizedBuffer_bytes:
  assumes "length dAtA = PeerShard_Size m"
  shows "PeerShard_MarshalToSizedBuffer m dAtA = Some (PeerShard_bytes m, int (PeerShard_Size m))"
proof -
  have "write_bytes_field 0xa (ShardId m) (dAtA, int (length dAtA)) = Some (bytes_field 0xa (ShardId m), 0)" if "ShardId m \<noteq> []"
    using that assms by (intro writes_whole [OF writes_bytes]) (simp add: PeerShard_Size_length PeerShard_bytes_def)
  with assms show ?thesis
    by (auto simp: PeerShard_MarshalToSizedBuffer_def PeerShard_Size_length PeerShard_bytes_def)
qed

lemma WsMessage_Marshal_bytes: "WsMessage_Marshal m = Some (WsMessage_bytes m)"
  by (simp add: WsMessage_Marshal_def WsMessage_MarshalToSizedBuffer_bytes WsMessage_Size_length)

lemma TopicMessage_Marshal_bytes: "TopicMessage_Marshal m = Some (TopicMessage_bytes m)"
  by (simp add: TopicMessage_Marshal_def TopicMessage_MarshalToSizedBuffer_bytes TopicMessage_Size_length)

lemma PeerShard_Marshal_bytes: "PeerShard_Marshal m = Some (PeerShard_bytes m)"
  by (simp add: PeerShard_Marshal_def PeerShard_MarshalToSizedBuffer_bytes PeerShard_Size_length)

section \<open>Reading the bytes of a message\<close>

lemma readTag_bytes:
  "readTag (0x8 # r) = Inr (1, 0, r)" "readTag (0x10 # r) = Inr (2, 0, r)" "readTag (0x18 # r) = Inr (3, 0, r)"
  "readTag (0x22 # r) = Inr (4, 2, r)" "readTag (0x2a # r) = Inr (5, 2, r)" "readTag (0x30 # r) = Inr (6, 0, r)"
  "readTag (0x12 # r) = Inr (2, 2, r)" "readTag (0xa # r) = Inr (1, 2, r)"
  by (simp_all add: readTag_def Let_def)

lemma WsMessage_Unmarshal_loop_Nil [simp]: "WsMessage_Unmarshal_loop m l [] = Inr m"
  by (simp add: WsMessage_Unmarshal_loop.simps)

lemma WsMessage_Unmarshal_loop_field:
  "readTag (tag # r) = Inr (f, w, r) \<Longrightarrow> WsMessage_field m f w l r = Some (Inr (m', rest)) \<Longrightarrow>
   WsMessage_Unmarshal_loop m l (tag # r) = WsMessage_Unmarshal_loop m' l rest"
  by (subst WsMessage_Unmarshal_loop.simps) simp

lemma ucast_ucast_32 [simp]: "ucast (ucast (v :: uint32) :: uint64) = v"
  by (rule bit_word_eqI) (simp add: bit_simps)

lemma ucast_scast_32 [simp]: "ucast (scast (v :: int32) :: uint64) = v"
  by (rule bit_word_eqI) (simp add: bit_simps)

lemma WsMessage_read_fields:
  "WsMessage_Unmarshal_loop m l ((if WithAcknowledge x then [0x8, 1] else []) @ rest) =
     WsMessage_Unmarshal_loop (if WithAcknowledge x then m\<lparr>WithAcknowledge := True\<rparr> else m) l rest"
  "WsMessage_Unmarshal_loop m l ((if c \<noteq> 0 then varint_field 0x10 c else []) @ rest) =
     WsMessage_Unmarshal_loop (if c \<noteq> 0 then m\<lparr>Counter := c\<rparr> else m) l rest"
  "WsMessage_Unmarshal_loop m l ((if t \<noteq> 0 then varint_field 0x18 (scast t) else []) @ rest) =
     WsMessage_Unmarshal_loop (if t \<noteq> 0 then m\<lparr>ws_Type := t\<rparr> else m) l rest"
  "WsMessage_Unmarshal_loop m l ((if v \<noteq> 0 then varint_field 0x30 (ucast v) else []) @ rest) =
     WsMessage_Unmarshal_loop (if v \<noteq> 0 then m\<lparr>ws_Version := v\<rparr> else m) l rest"
  by (auto simp: varint_field_def WsMessage_field_def readVarint_varint_0 Let_def
      intro!: WsMessage_Unmarshal_loop_field [OF readTag_bytes(1)] WsMessage_Unmarshal_loop_field [OF readTag_bytes(2)]
        WsMessage_Unmarshal_loop_field [OF readTag_bytes(3)] WsMessage_Unmarshal_loop_field [OF readTag_bytes(6)])

lemma WsMessage_read_bytes_fields:
  assumes "l < 2 ^ 63" and "length ((if 0 < length xs then bytes_field tag xs else []) @ rest) \<le> l"
  shows "WsMessage_Unmarshal_loop m l ((if 0 < length xs then bytes_field 0x22 xs else []) @ rest) =
     WsMessage_Unmarshal_loop (if 0 < length xs then m\<lparr>ws_Payload := xs\<rparr> else m) l rest"
  "WsMessage_Unmarshal_loop m l ((if 0 < length xs then bytes_field 0x2a xs else []) @ rest) =
     WsMessage_Unmarshal_loop (if 0 < length xs then m\<lparr>ws_Topic := xs\<rparr> else m) l rest"
  using assms
  by (auto simp: bytes_field_def WsMessage_field_def readBytes_bytes_field
      intro!: WsMessage_Unmarshal_loop_field [OF readTag_bytes(4)] WsMessage_Unmarshal_loop_field [OF readTag_bytes(5)])

lemma WsMessage_Unmarshal_bytes:
  assumes "WsMessage_Size m < 2 ^ 63"
  shows "WsMessage_Unmarshal WsMessage_zero (WsMessage_bytes m) = Inr m"
proof -
  let ?l = "length (WsMessage_bytes m)"
  let ?v = "if ws_Version m \<noteq> 0 then varint_field 0x30 (ucast (ws_Version m)) else []"
  let ?t = "(if 0 < length (ws_Topic m) then bytes_field 0x2a (ws_Topic m) else []) @ ?v"
  let ?p = "(if 0 < length (ws_Payload m) then bytes_field 0x22 (ws_Payload m) else []) @ ?t"
  have l: "?l < 2 ^ 63" using assms by (simp add: WsMessage_Size_length)
  have tl: "length ?t \<le> ?l" and pl: "length ?p \<le> ?l" by (simp_all add: WsMessage_bytes_def)
  have t: "WsMessage_Unmarshal_loop x ?l ?t = Inr (x\<lparr>ws_Topic := ws_Topic m, ws_Version := ws_Version m\<rparr>)"
    if "ws_Topic x = []" "ws_Version x = 0" for x
    using that WsMessage_read_bytes_fields(2) [OF l tl, of x] WsMessage_read_fields(4) [of _ ?l "ws_Version m" "[]"]
    by (auto intro: WsMessage.equality)
  have "WsMessage_Unmarshal_loop x ?l ?p =
      Inr (x\<lparr>ws_Payload := ws_Payload m, ws_Topic := ws_Topic m, ws_Version := ws_Version m\<rparr>)"
    if "ws_Payload x = []" "ws_Topic x = []" "ws_Version x = 0" for x
    unfolding WsMessage_read_bytes_fields(1) [OF l pl, of x]
    using that t [of x] t [of "x\<lparr>ws_Payload := ws_Payload m\<rparr>"] by (auto intro: WsMessage.equality)
  then show ?thesis
    unfolding WsMessage_Unmarshal_def
    by (subst (2) WsMessage_bytes_def) (auto simp only: WsMessage_read_fields WsMessage_zero_def, auto intro: WsMessage.equality)
qed

lemma TopicMessage_Unmarshal_loop_Nil [simp]: "TopicMessage_Unmarshal_loop m l [] = Inr m"
  by (simp add: TopicMessage_Unmarshal_loop.simps)

lemma TopicMessage_Unmarshal_loop_field:
  "readTag (tag # r) = Inr (f, w, r) \<Longrightarrow> TopicMessage_field m f w l r = Some (Inr (m', rest)) \<Longrightarrow>
   TopicMessage_Unmarshal_loop m l (tag # r) = TopicMessage_Unmarshal_loop m' l rest"
  by (subst TopicMessage_Unmarshal_loop.simps) simp

lemma TopicMessage_read_fields:
  "TopicMessage_Unmarshal_loop m l ((if v \<noteq> 0 then varint_field 0x8 (ucast v) else []) @ rest) =
     TopicMessage_Unmarshal_loop (if v \<noteq> 0 then m\<lparr>tm_Version := v\<rparr> else m) l rest"
  "TopicMessage_Unmarshal_loop m l ((if t \<noteq> 0 then varint_field 0x18 t else []) @ rest) =
     TopicMessage_Unmarshal_loop (if t \<noteq> 0 then m\<lparr>tm_Timestamp := t\<rparr> else m) l rest"
  by (auto simp: varint_field_def TopicMessage_field_def readVarint_varint_0
      intro!: TopicMessage_Unmarshal_loop_field [OF readTag_bytes(1)] TopicMessage_Unmarshal_loop_field [OF readTag_bytes(3)])

lemma TopicMessage_read_bytes_fields:
  assumes "l < 2 ^ 63" and "length ((if 0 < length xs then bytes_field tag xs else []) @ rest) \<le> l"
  shows "TopicMessage_Unmarshal_loop m l ((if 0 < length xs then bytes_field 0x12 xs else []) @ rest) =
     TopicMessage_Unmarshal_loop (if 0 < length xs then m\<lparr>tm_Payload := xs\<rparr> else m) l rest"
  "TopicMessage_Unmarshal_loop m l ((if 0 < length xs then bytes_field 0x22 xs else []) @ rest) =
     TopicMessage_Unmarshal_loop (if 0 < length xs then m\<lparr>tm_Pk := xs\<rparr> else m) l rest"
  "TopicMessage_Unmarshal_loop m l ((if 0 < length xs then bytes_field 0x2a xs else []) @ rest) =
     TopicMessage_Unmarshal_loop (if 0 < length xs then m\<lparr>tm_SignatureOnPid := xs\<rparr> else m) l rest"
  using assms
  by (auto simp: bytes_field_def TopicMessage_field_def readBytes_bytes_field
      intro!: TopicMessage_Unmarshal_loop_field [OF readTag_bytes(7)] TopicMessage_Unmarshal_loop_field [OF readTag_bytes(4)]
        TopicMessage_Unmarshal_loop_field [OF readTag_bytes(5)])

lemma TopicMessage_Unmarshal_bytes:
  assumes "TopicMessage_Size m < 2 ^ 63"
  shows "TopicMessage_Unmarshal TopicMessage_zero (TopicMessage_bytes m) = Inr m"
proof -
  let ?l = "length (TopicMessage_bytes m)"
  let ?s = "(if 0 < length (tm_SignatureOnPid m) then bytes_field 0x2a (tm_SignatureOnPid m) else []) @ []"
  let ?k = "(if 0 < length (tm_Pk m) then bytes_field 0x22 (tm_Pk m) else []) @ ?s"
  let ?t = "(if tm_Timestamp m \<noteq> 0 then varint_field 0x18 (tm_Timestamp m) else []) @ ?k"
  let ?p = "(if 0 < length (tm_Payload m) then bytes_field 0x12 (tm_Payload m) else []) @ ?t"
  have l: "?l < 2 ^ 63" using assms by (simp add: TopicMessage_Size_length)
  have sl: "length ?s \<le> ?l" and kl: "length ?k \<le> ?l" and pl: "length ?p \<le> ?l" by (simp_all add: TopicMessage_bytes_def)
  have s: "TopicMessage_Unmarshal_loop x ?l ?s = Inr (x\<lparr>tm_SignatureOnPid := tm_SignatureOnPid m\<rparr>)"
    if "tm_SignatureOnPid x = []" for x
    using that unfolding TopicMessage_read_bytes_fields(3) [OF l sl, of x] by auto
  have k: "TopicMessage_Unmarshal_loop x ?l ?k = Inr (x\<lparr>tm_Pk := tm_Pk m, tm_SignatureOnPid := tm_SignatureOnPid m\<rparr>)"
    if "tm_Pk x = []" "tm_SignatureOnPid x = []" for x
    unfolding TopicMessage_read_bytes_fields(2) [OF l kl, of x]
    using that s [of x] s [of "x\<lparr>tm_Pk := tm_Pk m\<rparr>"] by (auto intro: TopicMessage.equality)
  have t: "TopicMessage_Unmarshal_loop x ?l ?t =
      Inr (x\<lparr>tm_Timestamp := tm_Timestamp m, tm_Pk := tm_Pk m, tm_SignatureOnPid := tm_SignatureOnPid m\<rparr>)"
    if "tm_Timestamp x = 0" "tm_Pk x = []" "tm_SignatureOnPid x = []" for x
    unfolding TopicMessage_read_fields(2)
    using that k [of x] k [of "x\<lparr>tm_Timestamp := tm_Timestamp m\<rparr>"] by (auto intro: TopicMessage.equality)
  have p: "TopicMessage_Unmarshal_loop x ?l ?p = Inr (m\<lparr>tm_Version := tm_Version x\<rparr>)"
    if "tm_Payload x = []" "tm_Timestamp x = 0" "tm_Pk x = []" "tm_SignatureOnPid x = []" for x
    unfolding TopicMessage_read_bytes_fields(1) [OF l pl, of x]
    using that t [of x] t [of "x\<lparr>tm_Payload := tm_Payload m\<rparr>"] by (auto intro: TopicMessage.equality)
  have "TopicMessage_bytes m = (if tm_Version m \<noteq> 0 then varint_field 0x8 (ucast (tm_Version m)) else []) @ ?p"
    by (simp add: TopicMessage_bytes_def)
  then have "TopicMessage_Unmarshal TopicMessage_zero (TopicMessage_bytes m) =
      TopicMessage_Unmarshal_loop (if tm_Version m \<noteq> 0 then TopicMessage_zero\<lparr>tm_Version := tm_Version m\<rparr> else TopicMessage_zero) ?l ?p"
    unfolding TopicMessage_Unmarshal_def using TopicMessage_read_fields(1) by metis
  also have "\<dots> = Inr m"
    by (subst p) (auto simp: TopicMessage_zero_def intro: TopicMessage.equality)
  finally show ?thesis .
qed

lemma PeerShard_Unmarshal_bytes:
  assumes "PeerShard_Size m < 2 ^ 63"
  shows "PeerShard_Unmarshal PeerShard_zero (PeerShard_bytes m) = Inr m"
proof (cases "ShardId m = []")
  case True
  then show ?thesis
    by (auto simp: PeerShard_Unmarshal_def PeerShard_bytes_def PeerShard_zero_def PeerShard_Unmarshal_loop.simps
        intro: PeerShard.equality)
next
  case False
  then have "PeerShard_field PeerShard_zero 1 2 (length (PeerShard_bytes m)) (varint (word_of_nat (length (ShardId m))) @ ShardId m @ []) =
      Some (Inr (m, []))"
    using assms by (auto simp: PeerShard_field_def PeerShard_bytes_def bytes_field_def PeerShard_zero_def
        PeerShard_Size_length intro: PeerShard.equality simp del: append_Nil2 simp: readBytes_bytes_field)
  with False show ?thesis
    unfolding PeerShard_Unmarshal_def
    by (subst PeerShard_Unmarshal_loop.simps)
      (auto simp: PeerShard_bytes_def bytes_field_def readTag_bytes PeerShard_Unmarshal_loop.simps)
qed

section \<open>Unknown fields\<close>

lemma skipVarint_varint:
  assumes "shift < 64" and "unat v < 2 ^ (64 - shift)"
  shows "skipVarint (varint v @ rest) shift = Inr rest"
  using readVarint_varint [OF assms, of rest "0 :: uint64"]
proof -
  have "skipVarint xs s = map_sum id snd (readVarint xs s (a :: uint64))" for xs s a
    by (induction xs s a rule: readVarint.induct) (auto simp: Let_def)
  with readVarint_varint [OF assms, of rest "0 :: uint64"] show ?thesis by (metis map_sum.simps(2) snd_conv)
qed

lemma skipVarint_varint_0: "skipVarint (varint v @ rest) 0 = Inr rest"
  using skipVarint_varint [of 0 v rest] unsigned_less [of v, where 'a = nat] by simp

lemma readTag_varint:
  "unat (tag AND 7) \<noteq> 4 \<Longrightarrow> 0 < sint (ucast (drop_bit 3 tag) :: int32) \<Longrightarrow>
   readTag (varint tag @ rest) = Inr (sint (ucast (drop_bit 3 tag) :: int32), unat (tag AND 7), rest)"
  by (simp add: readTag_def readVarint_varint_0 Let_def)

lemma skip_varint_field:
  assumes "unat (tag AND 7) = 0"
  shows "skip (varint tag @ varint v @ rest) = Inr (length (varint tag @ varint v))"
  using assms unfolding skip_def
  by (subst skip_loop.simps) (simp add: readVarint_varint_0 skip_switch_def skipVarint_varint_0)

lemma skip_bytes_field:
  assumes "unat (tag AND 7) = 2" and "length (varint tag @ varint (word_of_nat (length xs)) @ xs) < 2 ^ 63"
  shows "skip (varint tag @ varint (word_of_nat (length xs)) @ xs @ rest) =
         Inr (length (varint tag @ varint (word_of_nat (length xs)) @ xs))"
  using assms unfolding skip_def
  by (subst skip_loop.simps)
    (simp add: readVarint_varint_0 skip_switch_def sint_word_of_nat advance_def add_index_def)

lemma skip_field_prefix:
  "skip (u @ rest) = Inr (length u) \<Longrightarrow> length (u @ rest) \<le> l \<Longrightarrow> l < 2 ^ 63 \<Longrightarrow> skip_field l (u @ rest) = Inr rest"
  by (simp add: skip_field_def add_index_def)

section \<open>The contract of a marshaller\<close>

text \<open>
  What the code that sends messages relies on: a message that fits is encoded, and decoding the
  bytes into a fresh message gives it back.
\<close>

locale codec =
  fixes enc :: "'m \<Rightarrow> bytes option" and dec :: "bytes \<Rightarrow> 'e + 'm" and fits :: "'m \<Rightarrow> bool"
  assumes enc_dec: "fits m \<Longrightarrow> \<exists>b. enc m = Some b \<and> dec b = Inr m"
begin

lemma enc_total: "fits m \<Longrightarrow> enc m \<noteq> None"
  using enc_dec by fastforce

lemma dec_enc: "fits m \<Longrightarrow> enc m = Some b \<Longrightarrow> dec b = Inr m"
  using enc_dec by fastforce

lemma enc_inj: "fits m \<Longrightarrow> fits m' \<Longrightarrow> enc m = enc m' \<Longrightarrow> m = m'"
  using enc_dec by (metis Inr_inject option.inject)

end

interpretation ws_codec: codec WsMessage_Marshal "WsMessage_Unmarshal WsMessage_zero" "\<lambda>m. WsMessage_Size m < 2 ^ 63"
  by unfold_locales (simp add: WsMessage_Marshal_bytes WsMessage_Unmarshal_bytes)

interpretation topic_codec: codec TopicMessage_Marshal "TopicMessage_Unmarshal TopicMessage_zero" "\<lambda>m. TopicMessage_Size m < 2 ^ 63"
  by unfold_locales (simp add: TopicMessage_Marshal_bytes TopicMessage_Unmarshal_bytes)

interpretation shard_codec: codec PeerShard_Marshal "PeerShard_Unmarshal PeerShard_zero" "\<lambda>m. PeerShard_Size m < 2 ^ 63"
  by unfold_locales (simp add: PeerShard_Marshal_bytes PeerShard_Unmarshal_bytes)

text \<open>The fields take at most eleven bytes each beside the contents of the byte slices.\<close>

lemma WsMessage_Size_le: "WsMessage_Size m \<le> 57 + length (ws_Payload m) + length (ws_Topic m)"
  using sov_le_10 [of "Counter m"] sov_le_10 [of "scast (ws_Type m)"] sov_le_10 [of "word_of_nat (length (ws_Payload m))"]
    sov_le_10 [of "word_of_nat (length (ws_Topic m))"] sov_le_10 [of "ucast (ws_Version m)"]
  by (simp add: WsMessage_Size_def)

lemma TopicMessage_Size_le:
  "TopicMessage_Size m \<le> 55 + length (tm_Payload m) + length (tm_Pk m) + length (tm_SignatureOnPid m)"
  using sov_le_10 [of "ucast (tm_Version m)"] sov_le_10 [of "tm_Timestamp m"] sov_le_10 [of "word_of_nat (length (tm_Payload m))"]
    sov_le_10 [of "word_of_nat (length (tm_Pk m))"] sov_le_10 [of "word_of_nat (length (tm_SignatureOnPid m))"]
  by (simp add: TopicMessage_Size_def)

lemma PeerShard_Size_le: "PeerShard_Size m \<le> 11 + length (ShardId m)"
  using sov_le_10 [of "word_of_nat (length (ShardId m))"] by (simp add: PeerShard_Size_def)

section \<open>Properties\<close>

text \<open>
  C13. Every message of the three generated types that fits into memory is marshalled without a panic into exactly as many
  bytes as Size computes, and unmarshalling them gives the message back.
\<close>

theorem messages_round_trip:
  assumes "WsMessage_Size w < 2 ^ 63" and "TopicMessage_Size m < 2 ^ 63" and "PeerShard_Size s < 2 ^ 63"
  shows "(\<exists>b. WsMessage_Marshal w = Some b \<and> length b = WsMessage_Size w \<and> WsMessage_Unmarshal WsMessage_zero b = Inr w) \<and>
         (\<exists>b. TopicMessage_Marshal m = Some b \<and> length b = TopicMessage_Size m \<and> TopicMessage_Unmarshal TopicMessage_zero b = Inr m) \<and>
         (\<exists>b. PeerShard_Marshal s = Some b \<and> length b = PeerShard_Size s \<and> PeerShard_Unmarshal PeerShard_zero b = Inr s)"
  using ws_codec.dec_enc [OF assms(1) WsMessage_Marshal_bytes] topic_codec.dec_enc [OF assms(2) TopicMessage_Marshal_bytes]
    shard_codec.dec_enc [OF assms(3) PeerShard_Marshal_bytes]
  by (simp add: WsMessage_Marshal_bytes WsMessage_Size_length TopicMessage_Marshal_bytes TopicMessage_Size_length PeerShard_Marshal_bytes
      PeerShard_Size_length)

definition example_ws :: WsMessage where
  "example_ws = \<lparr>WithAcknowledge = True, Counter = 300, ws_Type = - 1, ws_Payload = [1, 2], ws_Topic = [65], ws_Version = 1\<rparr>"

definition example_topic_message :: TopicMessage where
  "example_topic_message = \<lparr>tm_Version = 1, tm_Payload = [7, 8, 9], tm_Timestamp = - 5, tm_Pk = [], tm_SignatureOnPid = []\<rparr>"

theorem messages_round_trip_witness:
  "(\<exists>b. WsMessage_Marshal example_ws = Some b \<and> WsMessage_Unmarshal WsMessage_zero b = Inr example_ws) \<and>
   (\<exists>b. TopicMessage_Marshal example_topic_message = Some b \<and> TopicMessage_Unmarshal TopicMessage_zero b = Inr example_topic_message) \<and>
   (\<exists>b. PeerShard_Marshal \<lparr>ShardId = [48]\<rparr> = Some b \<and> PeerShard_Unmarshal PeerShard_zero b = Inr \<lparr>ShardId = [48]\<rparr>)"
proof -
  have "WsMessage_Size example_ws < 2 ^ 63" "TopicMessage_Size example_topic_message < 2 ^ 63" "PeerShard_Size \<lparr>ShardId = [48]\<rparr> < 2 ^ 63"
    using WsMessage_Size_le [of example_ws] TopicMessage_Size_le [of example_topic_message] PeerShard_Size_le [of "\<lparr>ShardId = [48]\<rparr>"]
    by (simp_all add: example_ws_def example_topic_message_def)
  from messages_round_trip [OF this] show ?thesis by blast
qed

text \<open>
  C15. A field of a number that WsMessage does not know, of the varint or of the length delimited
  kind, is skipped: what follows it is read as if it were not there.
\<close>

theorem ws_unknown_field_skipped:
  assumes "6 < sint (ucast (drop_bit 3 tag) :: int32)"
    and "unat (tag AND 7) = 0 \<and> u = varint tag @ varint v \<or>
         unat (tag AND 7) = 2 \<and> u = varint tag @ varint (word_of_nat (length xs)) @ xs"
    and "length (u @ rest) \<le> l" and "l < 2 ^ 63"
  shows "WsMessage_Unmarshal_loop m l (u @ rest) = WsMessage_Unmarshal_loop m l rest"
proof -
  have "skip (u @ rest) = Inr (length u)"
    using assms(2-4) skip_varint_field [of tag v rest] skip_bytes_field [of tag xs rest] by auto
  then have skip: "skip_field l (u @ rest) = Inr rest"
    using assms(3,4) by (rule skip_field_prefix)
  have "\<exists>r. readTag (u @ rest) = Inr (sint (ucast (drop_bit 3 tag) :: int32), unat (tag AND 7), r)"
    using assms(1,2) by (auto simp: readTag_varint)
  moreover have "u \<noteq> []" using assms(2) by auto
  moreover have "WsMessage_field m (sint (ucast (drop_bit 3 tag) :: int32)) w l r = None" for w r
    using assms(1) by (simp add: WsMessage_field_def)
  ultimately show ?thesis
    using skip by (subst WsMessage_Unmarshal_loop.simps) auto
qed

theorem ws_unknown_field_skipped_witness:
  "WsMessage_Unmarshal_loop WsMessage_zero 100 ((varint 0x38 @ varint 5) @ [0x8, 1]) =
   WsMessage_Unmarshal_loop WsMessage_zero 100 [0x8, 1]"
  by (rule ws_unknown_field_skipped [where tag = "0x38" and v = "5" and xs = "[]"]) (simp_all add: varint_small)

end
