(* ===== verification/WireAccess.thy ===== *)
theory WireAccess
  imports WireMessages
begin

text \<open>
  The rest of what \<^verbatim>\<open>protoc-gen-gogo\<close> generates for the three messages, beside reading and writing: the getters, which accept
  a nil receiver, \<^verbatim>\<open>Equal\<close>, \<^verbatim>\<open>MarshalTo\<close> of \<^verbatim>\<open>PeerShard\<close>, and \<^verbatim>\<open>XXX_Marshal\<close>, which the package \<^verbatim>\<open>proto\<close> calls with a
  buffer of its own (\<^verbatim>\<open>wsMessage.pb.go\<close>, \<^verbatim>\<open>topicMessage.pb.go\<close>, \<^verbatim>\<open>peerShardMessage.pb.go\<close>).
\<close>

section \<open>Getters\<close>

text \<open>A receiver that may be nil is an option.\<close>

definition GetWithAcknowledge :: "WsMessage option \<Rightarrow> bool" where
  "GetWithAcknowledge m = (case m of Some m \<Rightarrow> WithAcknowledge m | None \<Rightarrow> False)"

definition GetCounter :: "WsMessage option \<Rightarrow> uint64" where
  "GetCounter m = (case m of Some m \<Rightarrow> Counter m | None \<Rightarrow> 0)"

definition GetType :: "WsMessage option \<Rightarrow> int32" where
  "GetType m = (case m of Some m \<Rightarrow> ws_Type m | None \<Rightarrow> 0)"

definition ws_GetPayload :: "WsMessage option \<Rightarrow> bytes" where
  "ws_GetPayload m = (case m of Some m \<Rightarrow> ws_Payload m | None \<Rightarrow> [])"

definition GetTopic :: "WsMessage option \<Rightarrow> bytes" where
  "GetTopic m = (case m of Some m \<Rightarrow> ws_Topic m | None \<Rightarrow> [])"

definition ws_GetVersion :: "WsMessage option \<Rightarrow> uint32" where
  "ws_GetVersion m = (case m of Some m \<Rightarrow> ws_Version m | None \<Rightarrow> 0)"

definition tm_GetVersion :: "TopicMessage option \<Rightarrow> uint32" where
  "tm_GetVersion m = (case m of Some m \<Rightarrow> tm_Version m | None \<Rightarrow> 0)"

definition tm_GetPayload :: "TopicMessage option \<Rightarrow> bytes" where
  "tm_GetPayload m = (case m of Some m \<Rightarrow> tm_Payload m | None \<Rightarrow> [])"

definition GetTimestamp :: "TopicMessage option \<Rightarrow> int64" where
  "GetTimestamp m = (case m of Some m \<Rightarrow> tm_Timestamp m | None \<Rightarrow> 0)"

definition GetPk :: "TopicMessage option \<Rightarrow> bytes" where
  "GetPk m = (case m of Some m \<Rightarrow> tm_Pk m | None \<Rightarrow> [])"

definition GetSignatureOnPid :: "TopicMessage option \<Rightarrow> bytes" where
  "GetSignatureOnPid m = (case m of Some m \<Rightarrow> tm_SignatureOnPid m | None \<Rightarrow> [])"

definition GetShardId :: "PeerShard option \<Rightarrow> bytes" where
  "GetShardId m = (case m of Some m \<Rightarrow> ShardId m | None \<Rightarrow> [])"

lemmas getter_defs = GetWithAcknowledge_def GetCounter_def GetType_def ws_GetPayload_def GetTopic_def ws_GetVersion_def tm_GetVersion_def
  tm_GetPayload_def GetTimestamp_def GetPk_def GetSignatureOnPid_def GetShardId_def

section \<open>Equality\<close>

text \<open>
  The argument of \<^verbatim>\<open>Equal\<close> has the type \<^verbatim>\<open>interface{}\<close>: nil, a pointer to a message, which may be nil, a message, or a value of
  another type.
\<close>

datatype 'm any_value = AnyNil | AnyPointer "'m option" | AnyMessage 'm | AnyOther

text \<open>The type assertions: \<^const>\<open>None\<close> for a value of another type.\<close>

fun that_pointer :: "'m any_value \<Rightarrow> 'm option option" where
  "that_pointer (AnyPointer p) = Some p"
| "that_pointer (AnyMessage m) = Some (Some m)"
| "that_pointer _ = None"

definition WsMessage_Equal :: "WsMessage option \<Rightarrow> WsMessage any_value \<Rightarrow> bool" where
  "WsMessage_Equal this that =
     (if that = AnyNil then this = None
      else case that_pointer that of
        None \<Rightarrow> False
      | Some that1 \<Rightarrow>
          (case (this, that1) of
             (_, None) \<Rightarrow> this = None
           | (None, Some _) \<Rightarrow> False
           | (Some a, Some b) \<Rightarrow>
               (if WithAcknowledge a \<noteq> WithAcknowledge b then False
                else if Counter a \<noteq> Counter b then False
                else if ws_Type a \<noteq> ws_Type b then False
                else if ws_Payload a \<noteq> ws_Payload b then False
                else if ws_Topic a \<noteq> ws_Topic b then False
                else if ws_Version a \<noteq> ws_Version b then False
                else True)))"

definition TopicMessage_Equal :: "TopicMessage option \<Rightarrow> TopicMessage any_value \<Rightarrow> bool" where
  "TopicMessage_Equal this that =
     (if that = AnyNil then this = None
      else case that_pointer that of
        None \<Rightarrow> False
      | Some that1 \<Rightarrow>
          (case (this, that1) of
             (_, None) \<Rightarrow> this = None
           | (None, Some _) \<Rightarrow> False
           | (Some a, Some b) \<Rightarrow>
               (if tm_Version a \<noteq> tm_Version b then False
                else if tm_Payload a \<noteq> tm_Payload b then False
                else if tm_Timestamp a \<noteq> tm_Timestamp b then False
                else if tm_Pk a \<noteq> tm_Pk b then False
                else if tm_SignatureOnPid a \<noteq> tm_SignatureOnPid b then False
                else True)))"

definition PeerShard_Equal :: "PeerShard option \<Rightarrow> PeerShard any_value \<Rightarrow> bool" where
  "PeerShard_Equal this that =
     (if that = AnyNil then this = None
      else case that_pointer that of
        None \<Rightarrow> False
      | Some that1 \<Rightarrow>
          (case (this, that1) of
             (_, None) \<Rightarrow> this = None
           | (None, Some _) \<Rightarrow> False
           | (Some a, Some b) \<Rightarrow> (if ShardId a \<noteq> ShardId b then False else True)))"

text \<open>\<^verbatim>\<open>Equal\<close> compares all fields: it is the equality of the messages, nil being equal to nil only.\<close>

lemma not_then_False: "(if P then False else Q) \<longleftrightarrow> \<not> P \<and> Q"
  by simp

lemma WsMessage_eq_iff: "a = b \<longleftrightarrow> WithAcknowledge a = WithAcknowledge b \<and> Counter a = Counter b \<and> ws_Type a = ws_Type b \<and>
    ws_Payload a = ws_Payload b \<and> ws_Topic a = ws_Topic b \<and> ws_Version a = ws_Version b" for a b :: WsMessage
  by (cases a; cases b) simp

lemma TopicMessage_eq_iff: "a = b \<longleftrightarrow> tm_Version a = tm_Version b \<and> tm_Payload a = tm_Payload b \<and> tm_Timestamp a = tm_Timestamp b \<and>
    tm_Pk a = tm_Pk b \<and> tm_SignatureOnPid a = tm_SignatureOnPid b" for a b :: TopicMessage
  by (cases a; cases b) simp

lemma PeerShard_eq_iff: "a = b \<longleftrightarrow> ShardId a = ShardId b" for a b :: PeerShard
  by (cases a; cases b) simp

lemma WsMessage_Equal_iff:
  "WsMessage_Equal w x \<longleftrightarrow> (case x of AnyNil \<Rightarrow> w = None | AnyPointer p \<Rightarrow> w = p | AnyMessage m \<Rightarrow> w = Some m | AnyOther \<Rightarrow> False)"
  unfolding WsMessage_Equal_def not_then_False by (cases x; cases w) (simp_all add: WsMessage_eq_iff conj_ac split: option.split)

lemma TopicMessage_Equal_iff:
  "TopicMessage_Equal t y \<longleftrightarrow> (case y of AnyNil \<Rightarrow> t = None | AnyPointer p \<Rightarrow> t = p | AnyMessage m \<Rightarrow> t = Some m | AnyOther \<Rightarrow> False)"
  unfolding TopicMessage_Equal_def not_then_False by (cases y; cases t) (simp_all add: TopicMessage_eq_iff conj_ac split: option.split)

lemma PeerShard_Equal_iff:
  "PeerShard_Equal s z \<longleftrightarrow> (case z of AnyNil \<Rightarrow> s = None | AnyPointer p \<Rightarrow> s = p | AnyMessage m \<Rightarrow> s = Some m | AnyOther \<Rightarrow> False)"
  unfolding PeerShard_Equal_def not_then_False by (cases z; cases s) (simp_all add: PeerShard_eq_iff conj_ac split: option.split)

section \<open>Writing into a buffer of the caller\<close>

definition PeerShard_MarshalTo :: "PeerShard \<Rightarrow> bytes \<Rightarrow> (bytes \<times> int) option" where
  "PeerShard_MarshalTo m dAtA =
     (let size = PeerShard_Size m
      in if length dAtA < size then None
         else do { dn \<leftarrow> PeerShard_MarshalToSizedBuffer m (take size dAtA); Some (fst dn @ drop size dAtA, snd dn) })"

text \<open>\<^verbatim>\<open>XXX_Marshal\<close> takes the buffer up to its capacity: \<open>b\<close> are all its bytes.\<close>

definition WsMessage_XXX_Marshal :: "WsMessage \<Rightarrow> bytes \<Rightarrow> bytes option" where
  "WsMessage_XXX_Marshal m b = do { dn \<leftarrow> WsMessage_MarshalToSizedBuffer m b; Some (take (nat (snd dn)) (fst dn)) }"

definition TopicMessage_XXX_Marshal :: "TopicMessage \<Rightarrow> bytes \<Rightarrow> bytes option" where
  "TopicMessage_XXX_Marshal m b = do { dn \<leftarrow> TopicMessage_MarshalToSizedBuffer m b; Some (take (nat (snd dn)) (fst dn)) }"

definition PeerShard_XXX_Marshal :: "PeerShard \<Rightarrow> bytes \<Rightarrow> bytes option" where
  "PeerShard_XXX_Marshal m b = do { dn \<leftarrow> PeerShard_MarshalToSizedBuffer m b; Some (take (nat (snd dn)) (fst dn)) }"

lemma writes_at_end:
  assumes "writes w bs" and "length X = length bs"
  shows "w (A @ X, int (length (A @ X))) = Some (A @ bs, int (length A))"
  using assms unfolding writes_def by (metis append_Nil2 length_append)

text \<open>A message is written at the end of the buffer, what is before it stays.\<close>

lemma MarshalToSizedBuffer_at_end:
  "length X = WsMessage_Size w \<Longrightarrow> WsMessage_MarshalToSizedBuffer w (A @ X) = Some (A @ WsMessage_bytes w, int (WsMessage_Size w))"
  "length X = TopicMessage_Size t \<Longrightarrow> TopicMessage_MarshalToSizedBuffer t (A @ X) = Some (A @ TopicMessage_bytes t, int (TopicMessage_Size t))"
  "length X = PeerShard_Size s \<Longrightarrow> PeerShard_MarshalToSizedBuffer s (A @ X) = Some (A @ PeerShard_bytes s, int (PeerShard_Size s))"
proof -
  show "WsMessage_MarshalToSizedBuffer w (A @ X) = Some (A @ WsMessage_bytes w, int (WsMessage_Size w))" if "length X = WsMessage_Size w"
    using writes_at_end [OF WsMessage_writes, of X w A] that by (simp add: WsMessage_MarshalToSizedBuffer_def WsMessage_Size_length)
  show "TopicMessage_MarshalToSizedBuffer t (A @ X) = Some (A @ TopicMessage_bytes t, int (TopicMessage_Size t))" if "length X = TopicMessage_Size t"
    using writes_at_end [OF TopicMessage_writes, of X t A] that by (simp add: TopicMessage_MarshalToSizedBuffer_def TopicMessage_Size_length)
  show "PeerShard_MarshalToSizedBuffer s (A @ X) = Some (A @ PeerShard_bytes s, int (PeerShard_Size s))" if "length X = PeerShard_Size s"
    using writes_at_end [OF writes_bytes [of "0xa" "ShardId s"], of X A] that
    by (auto simp: PeerShard_MarshalToSizedBuffer_def PeerShard_Size_length PeerShard_bytes_def)
qed

text \<open>
  \<^verbatim>\<open>XXX_Marshal\<close> agrees with \<^verbatim>\<open>Marshal\<close> for a buffer whose capacity is the size of the message, the only one \<^verbatim>\<open>proto.Marshal\<close>
  passes. In a larger buffer the message is at the end but the first bytes are returned.
\<close>

lemma XXX_Marshal_exact:
  "length b = WsMessage_Size w \<Longrightarrow> WsMessage_XXX_Marshal w b = WsMessage_Marshal w"
  "length b = TopicMessage_Size t \<Longrightarrow> TopicMessage_XXX_Marshal t b = TopicMessage_Marshal t"
  "length b = PeerShard_Size s \<Longrightarrow> PeerShard_XXX_Marshal s b = PeerShard_Marshal s"
  by (simp_all add: WsMessage_XXX_Marshal_def WsMessage_MarshalToSizedBuffer_bytes WsMessage_Marshal_bytes WsMessage_Size_length
      TopicMessage_XXX_Marshal_def TopicMessage_MarshalToSizedBuffer_bytes TopicMessage_Marshal_bytes TopicMessage_Size_length
      PeerShard_XXX_Marshal_def PeerShard_MarshalToSizedBuffer_bytes PeerShard_Marshal_bytes PeerShard_Size_length)

lemma XXX_Marshal_larger:
  assumes "length X = WsMessage_Size w"
  shows "WsMessage_XXX_Marshal w (A @ X) = Some (take (WsMessage_Size w) (A @ WsMessage_bytes w))"
  using MarshalToSizedBuffer_at_end(1) [OF assms] by (simp add: WsMessage_XXX_Marshal_def)

text \<open>\<^verbatim>\<open>MarshalTo\<close> writes the bytes of \<^verbatim>\<open>Marshal\<close> at the start of a buffer that is long enough, and leaves the rest of it.\<close>

lemma MarshalTo_bytes:
  "WsMessage_Size w \<le> length d \<Longrightarrow> WsMessage_MarshalTo w d = Some (WsMessage_bytes w @ drop (WsMessage_Size w) d, int (WsMessage_Size w))"
  "TopicMessage_Size t \<le> length d \<Longrightarrow> TopicMessage_MarshalTo t d = Some (TopicMessage_bytes t @ drop (TopicMessage_Size t) d, int (TopicMessage_Size t))"
  "PeerShard_Size s \<le> length d \<Longrightarrow> PeerShard_MarshalTo s d = Some (PeerShard_bytes s @ drop (PeerShard_Size s) d, int (PeerShard_Size s))"
  by (simp_all add: WsMessage_MarshalTo_def TopicMessage_MarshalTo_def PeerShard_MarshalTo_def Let_def WsMessage_MarshalToSizedBuffer_bytes
      TopicMessage_MarshalToSizedBuffer_bytes PeerShard_MarshalToSizedBuffer_bytes)

text \<open>What was marshalled is equal, for the generated \<^verbatim>\<open>Equal\<close>, to what is read, and the getters of both agree.\<close>

lemma read_back_is_equal:
  assumes "WsMessage_Size w < 2 ^ 63" and "WsMessage_MarshalTo w d = Some (d', n)"
  shows "\<exists>m. WsMessage_Unmarshal WsMessage_zero (take (nat n) d') = Inr m \<and> WsMessage_Equal (Some w) (AnyPointer (Some m)) \<and>
    GetCounter (Some m) = GetCounter (Some w) \<and> ws_GetPayload (Some m) = ws_GetPayload (Some w)"
proof -
  have "WsMessage_Size w \<le> length d" using assms(2) by (simp add: WsMessage_MarshalTo_def Let_def split: if_splits)
  then have "take (nat n) d' = WsMessage_bytes w" using MarshalTo_bytes(1) [of w d] assms(2) by (auto simp: WsMessage_Size_length)
  then show ?thesis using ws_codec.dec_enc [OF assms(1) WsMessage_Marshal_bytes] by (simp add: WsMessage_Equal_iff getter_defs)
qed

end
