(* ===== verification/WsConnection.thy ===== *)
theory WsConnection
  imports WireMessages
begin

text \<open>
  The leaves of the WebSocket host: the errors of \<^verbatim>\<open>websocket/data/errors.go\<close>, the payload converter
  (\<^verbatim>\<open>websocket/payloadConverter.go\<close>), the nil payload handler and the connection client
  (\<^verbatim>\<open>websocket/connection/wsConnClient.go\<close>). The marshaller, the socket of the package
  \<^verbatim>\<open>gorilla/websocket\<close> and the payload handler of the user are records of operations.
\<close>

section \<open>Errors and constants\<close>

datatype ws_error =
    ErrServerIsClosed
  | ErrNilMarshaller_ws
  | ErrNilPayloadProcessor
  | ErrNilPayloadConverter
  | ErrEmptyUrl
  | ErrZeroValueRetryDuration
  | ErrZeroValueAckTimeout
  | ErrConnectionAlreadyOpen
  | ErrConnectionNotOpen
  | ErrExpectedAckWasNotReceivedOnClose
  | ErrInvalidWebSocketHostMode
  | ErrNoClientsConnected
  | ErrAckTimeout
  | core_ErrNilLogger
  | invalidWebSocketURL
  | ExternalError string

definition ClosedConnectionMessage :: string where
  "ClosedConnectionMessage = ''use of closed network connection''"

definition AckMessage :: int32 where "AckMessage = 1"
definition PayloadMessage :: int32 where "PayloadMessage = 2"

definition WSRoute :: string where "WSRoute = ''/save''"
definition ModeServer :: string where "ModeServer = ''server''"
definition ModeClient :: string where "ModeClient = ''client''"

section \<open>The payload converter\<close>

record Marshalizer =
  m_Marshal :: "WsMessage \<Rightarrow> ws_error + bytes"
  m_Unmarshal :: "bytes \<Rightarrow> ws_error + WsMessage"

record webSocketsPayloadConverter =
  marshaller :: Marshalizer

definition NewWebSocketPayloadConverter :: "Marshalizer option \<Rightarrow> ws_error + webSocketsPayloadConverter" where
  "NewWebSocketPayloadConverter m =
     (case m of None \<Rightarrow> Inl ErrNilMarshaller_ws | Some m \<Rightarrow> Inr \<lparr>marshaller = m\<rparr>)"

definition ExtractWsMessage :: "webSocketsPayloadConverter \<Rightarrow> bytes \<Rightarrow> ws_error + WsMessage" where
  "ExtractWsMessage wpc payload =
     (case m_Unmarshal (marshaller wpc) payload of Inl e \<Rightarrow> Inl e | Inr wsMessage \<Rightarrow> Inr wsMessage)"

definition ConstructPayload :: "webSocketsPayloadConverter \<Rightarrow> WsMessage \<Rightarrow> ws_error + bytes" where
  "ConstructPayload wpc wsMessage = m_Marshal (marshaller wpc) wsMessage"

text \<open>
  A converter is lossless when what it constructs is extracted unchanged. With a marshaller that
  calls the generated methods, as the protobuf marshaller does, it is.
\<close>

definition lossless :: "webSocketsPayloadConverter \<Rightarrow> bool" where
  "lossless wpc \<longleftrightarrow> (\<forall>m b. ConstructPayload wpc m = Inr b \<longrightarrow> ExtractWsMessage wpc b = Inr m)"

definition proto_marshaller :: Marshalizer where
  "proto_marshaller = \<lparr>
     m_Marshal = (\<lambda>m. if WsMessage_Size m < 2 ^ 63
                      then (case WsMessage_Marshal m of Some b \<Rightarrow> Inr b | None \<Rightarrow> Inl (ExternalError ''panic''))
                      else Inl (ExternalError ''size'')),
     m_Unmarshal = (\<lambda>b. case WsMessage_Unmarshal WsMessage_zero b of Inl e \<Rightarrow> Inl (ExternalError ''proto'') | Inr m \<Rightarrow> Inr m)\<rparr>"

lemma proto_marshaller_lossless: "lossless \<lparr>marshaller = proto_marshaller\<rparr>"
  by (auto simp: lossless_def ConstructPayload_def ExtractWsMessage_def proto_marshaller_def
      ws_codec.dec_enc [simplified] split: if_splits option.splits)

section \<open>Payload handlers\<close>

text \<open>The handler of the user, over its own state \<open>'h\<close>: an error is \<^const>\<open>Some\<close>.\<close>

record 'h PayloadHandler =
  ProcessPayload :: "bytes \<Rightarrow> bytes \<Rightarrow> uint32 \<Rightarrow> 'h \<Rightarrow> ws_error option \<times> 'h"
  CloseHandler :: "'h \<Rightarrow> ws_error option \<times> 'h"

definition NewNilPayloadHandler :: "'h PayloadHandler" where
  "NewNilPayloadHandler = \<lparr>ProcessPayload = (\<lambda>payload topic version h. (None, h)), CloseHandler = (\<lambda>h. (None, h))\<rparr>"

section \<open>The connection client\<close>

text \<open>
  The socket \<open>'c\<close>: dialling, reading, writing and closing are operations of \<^verbatim>\<open>gorilla/websocket\<close>; the
  text of an error decides in \<^verbatim>\<open>Close\<close>.
\<close>

record 'c socket_ops =
  Dial :: "string \<Rightarrow> ws_error + 'c"
  sock_Read :: "'c \<Rightarrow> (ws_error + int \<times> bytes) \<times> 'c"
  sock_Write :: "int \<Rightarrow> bytes \<Rightarrow> 'c \<Rightarrow> ws_error option \<times> 'c"
  sock_Close :: "'c \<Rightarrow> ws_error option \<times> 'c"
  err_text :: "ws_error \<Rightarrow> string"
  FormatCloseMessage :: bytes

record 'c wsConnClient =
  ws_conn :: "'c option"
  clientID :: string

definition NewWSConnClient :: "'c wsConnClient" where
  "NewWSConnClient = \<lparr>ws_conn = None, clientID = []\<rparr>"

text \<open>The identifier is the printed address of the client, a parameter.\<close>

definition NewWSConnClientWithConn :: "string \<Rightarrow> 'c \<Rightarrow> 'c wsConnClient" where
  "NewWSConnClientWithConn addr c = \<lparr>ws_conn = Some c, clientID = addr\<rparr>"

definition OpenConnection :: "'c socket_ops \<Rightarrow> string \<Rightarrow> 'c wsConnClient \<Rightarrow> ws_error option \<times> 'c wsConnClient" where
  "OpenConnection ops url wsc =
     (if ws_conn wsc \<noteq> None then (Some ErrConnectionAlreadyOpen, wsc)
      else case Dial ops url of
        Inl err \<Rightarrow> (Some err, wsc\<lparr>ws_conn := None\<rparr>)
      | Inr c \<Rightarrow> (None, wsc\<lparr>ws_conn := Some c\<rparr>))"

definition getConn :: "'c wsConnClient \<Rightarrow> ws_error + 'c" where
  "getConn wsc = (case ws_conn wsc of None \<Rightarrow> Inl ErrConnectionNotOpen | Some c \<Rightarrow> Inr c)"

definition ReadMessage :: "'c socket_ops \<Rightarrow> 'c wsConnClient \<Rightarrow> (ws_error + int \<times> bytes) \<times> 'c wsConnClient" where
  "ReadMessage ops wsc =
     (case getConn wsc of
        Inl err \<Rightarrow> (Inl err, wsc)
      | Inr c \<Rightarrow> (let (r, c') = sock_Read ops c in (r, wsc\<lparr>ws_conn := Some c'\<rparr>)))"

definition WriteMessage :: "'c socket_ops \<Rightarrow> int \<Rightarrow> bytes \<Rightarrow> 'c wsConnClient \<Rightarrow> ws_error option \<times> 'c wsConnClient" where
  "WriteMessage ops messageType payload wsc =
     (case ws_conn wsc of
        None \<Rightarrow> (Some ErrConnectionNotOpen, wsc)
      | Some c \<Rightarrow> (let (e, c') = sock_Write ops messageType payload c in (e, wsc\<lparr>ws_conn := Some c'\<rparr>)))"

definition IsOpen :: "'c wsConnClient \<Rightarrow> bool" where
  "IsOpen wsc \<longleftrightarrow> ws_conn wsc \<noteq> None"

definition GetID :: "'c wsConnClient \<Rightarrow> string" where
  "GetID wsc = clientID wsc"

text \<open>\<^verbatim>\<open>websocket.CloseMessage\<close> has the type 8.\<close>

definition CloseConn :: "'c socket_ops \<Rightarrow> 'c wsConnClient \<Rightarrow> ws_error option \<times> 'c wsConnClient" where
  "CloseConn ops wsc =
     (case ws_conn wsc of
        None \<Rightarrow> (Some ErrConnectionNotOpen, wsc)
      | Some c \<Rightarrow>
          (let (_, c) = sock_Write ops 8 (FormatCloseMessage ops) c;
               (err, c) = sock_Close ops c
           in case err of
                None \<Rightarrow> (None, wsc\<lparr>ws_conn := None\<rparr>)
              | Some e \<Rightarrow>
                  (if \<not> strings_Contains (err_text ops e) ClosedConnectionMessage
                   then (Some e, wsc\<lparr>ws_conn := Some c\<rparr>)
                   else (None, wsc\<lparr>ws_conn := None\<rparr>))))"

text \<open>The connection is open exactly between a successful open and a successful close.\<close>

lemma OpenConnection_IsOpen:
  "fst (OpenConnection ops url wsc) = None \<longleftrightarrow> \<not> IsOpen wsc \<and> IsOpen (snd (OpenConnection ops url wsc))"
  by (auto simp: OpenConnection_def IsOpen_def split: sum.split)

lemma CloseConn_IsOpen:
  "fst (CloseConn ops wsc) = None \<longleftrightarrow> IsOpen wsc \<and> \<not> IsOpen (snd (CloseConn ops wsc))"
  by (auto simp: CloseConn_def IsOpen_def split: option.split prod.split)

lemma read_write_keep_open:
  "IsOpen (snd (ReadMessage ops wsc)) = IsOpen wsc" "IsOpen (snd (WriteMessage ops t b wsc)) = IsOpen wsc"
  by (auto simp: ReadMessage_def WriteMessage_def getConn_def IsOpen_def Let_def split: option.split prod.split)

lemma closed_client_errors:
  "\<not> IsOpen wsc \<Longrightarrow> fst (ReadMessage ops wsc) = Inl ErrConnectionNotOpen"
  "\<not> IsOpen wsc \<Longrightarrow> fst (WriteMessage ops t b wsc) = Some ErrConnectionNotOpen"
  "\<not> IsOpen wsc \<Longrightarrow> fst (CloseConn ops wsc) = Some ErrConnectionNotOpen"
  by (simp_all add: ReadMessage_def WriteMessage_def CloseConn_def getConn_def IsOpen_def)

end
