(* ===== verification/Transceiver.thy ===== *)
theory Transceiver
  imports WsConnection
begin

text \<open>
  The transceiver (\<^verbatim>\<open>websocket/transceiver/transceiver.go\<close>): sending a payload with a counter, waiting
  for its acknowledge, listening, and acknowledging what was processed. A Go channel is a number, the
  channels made so far are counted and the closed ones are kept in a set; closing a closed channel
  panics (\<^const>\<open>None\<close>). A call that blocks is cut at the point where it blocks: \<open>Send_begin\<close> is \<^verbatim>\<open>Send\<close>
  up to the \<^verbatim>\<open>select\<close> of \<^verbatim>\<open>waitForAck\<close>, and the three cases of that \<^verbatim>\<open>select\<close> are its possible ends.
\<close>

section \<open>State\<close>

record ArgsTransceiver =
  at_PayloadConverter :: "webSocketsPayloadConverter option"
  at_Log :: "logger option"
  at_RetryDurationInSec :: int
  at_AckTimeoutInSec :: int
  at_BlockingAckOnError :: bool
  at_WithAcknowledge :: bool
  at_PayloadVersion :: uint32

record 'h wsTransceiver =
  payloadParser :: webSocketsPayloadConverter
  payloadHandler :: "'h PayloadHandler"
  retryDuration :: int
  ackTimeout :: int
  mapAck :: "uint64 \<rightharpoonup> nat"
  counter :: uint64
  blockingAckOnError :: bool
  withAcknowledge :: bool
  payloadVersion :: uint32
  chansMade :: nat
  chansClosed :: "nat set"
  safeCloserClosed :: bool

definition checkArgs :: "ArgsTransceiver \<Rightarrow> ws_error option" where
  "checkArgs args =
     (if at_Log args = None then Some core_ErrNilLogger
      else if at_PayloadConverter args = None then Some ErrNilPayloadConverter
      else if at_RetryDurationInSec args = 0 then Some ErrZeroValueRetryDuration
      else if at_WithAcknowledge args \<and> at_AckTimeoutInSec args = 0 then Some ErrZeroValueAckTimeout
      else None)"

definition NewTransceiver :: "ArgsTransceiver \<Rightarrow> ws_error + 'h wsTransceiver" where
  "NewTransceiver args =
     (case checkArgs args of
        Some err \<Rightarrow> Inl err
      | None \<Rightarrow>
          (case at_PayloadConverter args of
             None \<Rightarrow> Inl ErrNilPayloadConverter
           | Some parser \<Rightarrow>
               Inr \<lparr>payloadParser = parser, payloadHandler = NewNilPayloadHandler,
                    retryDuration = at_RetryDurationInSec args, ackTimeout = at_AckTimeoutInSec args,
                    mapAck = Map.empty, counter = 0, blockingAckOnError = at_BlockingAckOnError args,
                    withAcknowledge = at_WithAcknowledge args, payloadVersion = at_PayloadVersion args,
                    chansMade = 0, chansClosed = {}, safeCloserClosed = False\<rparr>))"

definition SetPayloadHandler :: "'h PayloadHandler option \<Rightarrow> 'h wsTransceiver \<Rightarrow> ws_error option \<times> 'h wsTransceiver" where
  "SetPayloadHandler handler wt =
     (case handler of
        None \<Rightarrow> (Some ErrNilPayloadProcessor, wt)
      | Some h \<Rightarrow> (None, wt\<lparr>payloadHandler := h\<rparr>))"

section \<open>Sending\<close>

definition prepareChanAndCounter :: "'h wsTransceiver \<Rightarrow> nat \<times> uint64 \<times> 'h wsTransceiver" where
  "prepareChanAndCounter wt =
     (let wt = wt\<lparr>counter := counter wt + 1\<rparr>;
          localCounter = counter wt;
          ch = chansMade wt;
          wt = wt\<lparr>chansMade := Suc ch\<rparr>;
          wt = (if withAcknowledge wt then wt\<lparr>mapAck := (mapAck wt)(localCounter \<mapsto> ch)\<rparr> else wt)
      in (ch, localCounter, wt))"

definition payloadMessage :: "'h wsTransceiver \<Rightarrow> uint64 \<Rightarrow> bytes \<Rightarrow> bytes \<Rightarrow> WsMessage" where
  "payloadMessage wt localCounter payload topic =
     \<lparr>WithAcknowledge = withAcknowledge wt, Counter = localCounter, ws_Type = PayloadMessage,
      ws_Payload = payload, ws_Topic = topic, ws_Version = payloadVersion wt\<rparr>"

text \<open>How far \<^verbatim>\<open>Send\<close> gets before it blocks: it has returned, or it waits for the acknowledge.\<close>

datatype send_state = SendReturned "ws_error option" | SendWaits nat

text \<open>
  \<open>write\<close> is what \<^verbatim>\<open>connection.WriteMessage\<close> answers. The result also has the bytes that were written.
\<close>

definition sendPayload :: "'h wsTransceiver \<Rightarrow> bytes \<Rightarrow> ws_error option \<Rightarrow> nat \<Rightarrow> send_state \<times> bytes list" where
  "sendPayload wt payload write ch =
     (case write of
        Some errSend \<Rightarrow> (SendReturned (Some errSend), [])
      | None \<Rightarrow>
          (if \<not> withAcknowledge wt then (SendReturned None, [payload])
           else (SendWaits ch, [payload])))"

definition Send_begin ::
  "bytes \<Rightarrow> bytes \<Rightarrow> ws_error option \<Rightarrow> 'h wsTransceiver \<Rightarrow> send_state \<times> bytes list \<times> 'h wsTransceiver" where
  "Send_begin payload topic write wt =
     (let (ch, localCounter, wt) = prepareChanAndCounter wt
      in case ConstructPayload (payloadParser wt) (payloadMessage wt localCounter payload topic) of
           Inl err \<Rightarrow> (SendReturned (Some err), [], wt)
         | Inr newPayload \<Rightarrow> (let (st, written) = sendPayload wt newPayload write ch in (st, written, wt)))"

datatype wait_case = AckReceived | TimerFired | ChanClosed

fun wait_enabled :: "'h wsTransceiver \<Rightarrow> nat \<Rightarrow> wait_case \<Rightarrow> bool" where
  "wait_enabled wt ch AckReceived = (ch \<in> chansClosed wt)"
| "wait_enabled wt ch TimerFired = True"
| "wait_enabled wt ch ChanClosed = safeCloserClosed wt"

fun waitForAck :: "wait_case \<Rightarrow> ws_error option" where
  "waitForAck AckReceived = None"
| "waitForAck TimerFired = Some ErrAckTimeout"
| "waitForAck ChanClosed = Some ErrExpectedAckWasNotReceivedOnClose"

section \<open>Receiving\<close>

definition handleAckMessage :: "uint64 \<Rightarrow> 'h wsTransceiver \<Rightarrow> 'h wsTransceiver option" where
  "handleAckMessage c wt =
     (case mapAck wt c of
        None \<Rightarrow> Some wt
      | Some ch \<Rightarrow>
          (if ch \<in> chansClosed wt then None
           else Some (wt\<lparr>chansClosed := insert ch (chansClosed wt), mapAck := (mapAck wt)(c := None)\<rparr>)))"

text \<open>
  The retries of the acknowledge: for each attempt the answer of \<^verbatim>\<open>WriteMessage\<close> and, after an error,
  whether the transceiver was closed before the timer fired. The loop ends with a written
  acknowledge or with the close; it is still retrying when the attempts are used up.
\<close>

datatype ack_state = AckWritten | AckAbandoned | AckRetrying

fun sendAck_loop :: "(ws_error option \<times> bool) list \<Rightarrow> ack_state" where
  "sendAck_loop [] = AckRetrying"
| "sendAck_loop ((write, closed) # rest) =
     (case write of
        None \<Rightarrow> AckWritten
      | Some err \<Rightarrow> (if closed then AckAbandoned else sendAck_loop rest))"

definition ackMessage :: "WsMessage \<Rightarrow> WsMessage" where
  "ackMessage wsMessage = WsMessage_zero\<lparr>Counter := Counter wsMessage, ws_Type := AckMessage\<rparr>"

definition sendAckIfNeeded :: "'h wsTransceiver \<Rightarrow> (ws_error option \<times> bool) list \<Rightarrow> WsMessage \<Rightarrow> bytes list" where
  "sendAckIfNeeded wt attempts wsMessage =
     (if \<not> WithAcknowledge wsMessage then []
      else case ConstructPayload (payloadParser wt) (ackMessage wsMessage) of
        Inl errConstruct \<Rightarrow> []
      | Inr wsMessageBytes \<Rightarrow> (if sendAck_loop attempts = AckWritten then [wsMessageBytes] else []))"

text \<open>The result: the transceiver, the state of the handler and the bytes written.\<close>

definition verifyPayloadAndSendAckIfNeeded ::
  "(ws_error option \<times> bool) list \<Rightarrow> bytes \<Rightarrow> 'h wsTransceiver \<Rightarrow> 'h \<Rightarrow> ('h wsTransceiver \<times> 'h \<times> bytes list) option" where
  "verifyPayloadAndSendAckIfNeeded attempts payload wt h =
     (if payload = [] then Some (wt, h, [])
      else case ExtractWsMessage (payloadParser wt) payload of
        Inl err \<Rightarrow> Some (wt, h, [])
      | Inr wsMessage \<Rightarrow>
          (if ws_Type wsMessage = AckMessage then
             map_option (\<lambda>wt. (wt, h, [])) (handleAckMessage (Counter wsMessage) wt)
           else if ws_Type wsMessage \<noteq> PayloadMessage then Some (wt, h, [])
           else
             (let (err, h) = ProcessPayload (payloadHandler wt) (ws_Payload wsMessage) (ws_Topic wsMessage)
                               (ws_Version wsMessage) h
              in if err \<noteq> None \<and> blockingAckOnError wt then Some (wt, h, [])
                 else Some (wt, h, sendAckIfNeeded wt attempts wsMessage))))"

text \<open>
  \<^verbatim>\<open>Listen\<close> over the results of \<^verbatim>\<open>ReadMessage\<close>, each message with the attempts of its acknowledge: it
  returns at the first error, with \<^const>\<open>False\<close> when the transceiver was closed. The outer
  \<^const>\<open>None\<close> is a panic, the inner one a call that still waits for a message.
\<close>

fun Listen ::
  "(ws_error + bytes \<times> (ws_error option \<times> bool) list) list \<Rightarrow> 'h wsTransceiver \<Rightarrow> 'h
   \<Rightarrow> (bool option \<times> 'h wsTransceiver \<times> 'h \<times> bytes list) option" where
  "Listen [] wt h = Some (None, wt, h, [])"
| "Listen (Inl err # reads) wt h = Some (Some (\<not> safeCloserClosed wt), wt, h, [])"
| "Listen (Inr (message, attempts) # reads) wt h =
     (case verifyPayloadAndSendAckIfNeeded attempts message wt h of
        None \<Rightarrow> None
      | Some (wt, h, written) \<Rightarrow>
          (case Listen reads wt h of
             None \<Rightarrow> None
           | Some (r, wt, h, written') \<Rightarrow> Some (r, wt, h, written @ written')))"

definition Transceiver_Close :: "'h wsTransceiver \<Rightarrow> 'h \<Rightarrow> ws_error option \<times> 'h wsTransceiver \<times> 'h" where
  "Transceiver_Close wt h =
     (let (err, h) = CloseHandler (payloadHandler wt) h in (err, wt\<lparr>safeCloserClosed := True\<rparr>, h))"

section \<open>Channels\<close>

text \<open>Every channel in the map was made, is open, and is in the map once.\<close>

definition chans_ok :: "'h wsTransceiver \<Rightarrow> bool" where
  "chans_ok wt \<longleftrightarrow> (\<forall>c ch. mapAck wt c = Some ch \<longrightarrow> ch < chansMade wt \<and> ch \<notin> chansClosed wt) \<and>
     (\<forall>c c' ch. mapAck wt c = Some ch \<longrightarrow> mapAck wt c' = Some ch \<longrightarrow> c = c') \<and>
     (\<forall>ch \<in> chansClosed wt. ch < chansMade wt)"

lemma chans_ok_new [wf_intros]: "NewTransceiver args = Inr wt \<Longrightarrow> chans_ok wt"
  by (auto simp: NewTransceiver_def chans_ok_def split: option.splits)

lemma prepare_fields:
  assumes "prepareChanAndCounter wt = (ch, c, wt')"
  shows "ch = chansMade wt" "c = counter wt + 1" "counter wt' = c" "chansMade wt' = Suc ch"
    "mapAck wt' = (if withAcknowledge wt then (mapAck wt)(c \<mapsto> ch) else mapAck wt)"
    "chansClosed wt' = chansClosed wt" "payloadParser wt' = payloadParser wt" "payloadHandler wt' = payloadHandler wt"
    "withAcknowledge wt' = withAcknowledge wt" "blockingAckOnError wt' = blockingAckOnError wt"
    "payloadVersion wt' = payloadVersion wt" "safeCloserClosed wt' = safeCloserClosed wt"
  using assms by (auto simp: prepareChanAndCounter_def Let_def split: if_splits)

lemma chans_ok_prepare [wf_intros]:
  assumes "chans_ok wt" and "prepareChanAndCounter wt = (ch, c, wt')"
  shows "chans_ok wt'"
  using assms(1) unfolding chans_ok_def prepare_fields [OF assms(2)]
  by (fastforce simp: less_Suc_eq split: if_splits)

lemma chans_ok_handleAck [wf_intros]:
  assumes "chans_ok wt" and "handleAckMessage c wt = Some wt'"
  shows "chans_ok wt'"
proof (cases "mapAck wt c")
  case None
  with assms show ?thesis by (simp add: handleAckMessage_def)
next
  case (Some ch)
  then have wt': "wt' = wt\<lparr>chansClosed := insert ch (chansClosed wt), mapAck := (mapAck wt)(c := None)\<rparr>"
    using assms(2) by (simp add: handleAckMessage_def split: if_splits)
  show ?thesis
    using assms(1) Some unfolding wt' chans_ok_def by simp metis
qed

text \<open>So an acknowledge never closes a channel twice.\<close>

lemma handleAck_no_panic: "chans_ok wt \<Longrightarrow> handleAckMessage c wt \<noteq> None"
  by (auto simp: handleAckMessage_def chans_ok_def split: option.split)

lemma verify_no_panic:
  assumes "chans_ok wt"
  shows "verifyPayloadAndSendAckIfNeeded attempts payload wt h \<noteq> None"
proof (cases "ExtractWsMessage (payloadParser wt) payload")
  case (Inr m)
  obtain wt' where "handleAckMessage (Counter m) wt = Some wt'"
    using handleAck_no_panic [OF assms] by blast
  with Inr show ?thesis
    by (simp add: verifyPayloadAndSendAckIfNeeded_def Let_def split: prod.split)
qed (simp add: verifyPayloadAndSendAckIfNeeded_def)

lemma verify_cases:
  assumes "verifyPayloadAndSendAckIfNeeded attempts payload wt h = Some (wt', h', written)"
  obtains (nothing) "wt' = wt" "h' = h" "written = []"
  | (ack) m where "ExtractWsMessage (payloadParser wt) payload = Inr m" "ws_Type m = AckMessage"
      "handleAckMessage (Counter m) wt = Some wt'" "h' = h" "written = []"
  | (processed) m err where "ExtractWsMessage (payloadParser wt) payload = Inr m" "ws_Type m = PayloadMessage"
      "ProcessPayload (payloadHandler wt) (ws_Payload m) (ws_Topic m) (ws_Version m) h = (err, h')"
      "wt' = wt" "written = (if err \<noteq> None \<and> blockingAckOnError wt then [] else sendAckIfNeeded wt attempts m)"
proof (cases "ExtractWsMessage (payloadParser wt) payload")
  case (Inl e)
  with assms have "wt' = wt" "h' = h" "written = []"
    by (auto simp: verifyPayloadAndSendAckIfNeeded_def split: if_splits)
  then show ?thesis by (rule nothing)
next
  case (Inr m)
  consider "payload = []" | "payload \<noteq> []" "ws_Type m = AckMessage"
    | "payload \<noteq> []" "ws_Type m \<noteq> AckMessage" "ws_Type m \<noteq> PayloadMessage"
    | "payload \<noteq> []" "ws_Type m \<noteq> AckMessage" "ws_Type m = PayloadMessage" by blast
  then show ?thesis
  proof cases
    case 2
    with assms Inr have "handleAckMessage (Counter m) wt = Some wt'" "h' = h" "written = []"
      by (auto simp: verifyPayloadAndSendAckIfNeeded_def)
    with Inr 2 show ?thesis by (intro ack)
  next
    case 4
    obtain err h1 where p: "ProcessPayload (payloadHandler wt) (ws_Payload m) (ws_Topic m) (ws_Version m) h = (err, h1)"
      by (meson surj_pair)
    with assms Inr 4 have "h' = h1" "wt' = wt" "written = (if err \<noteq> None \<and> blockingAckOnError wt then [] else sendAckIfNeeded wt attempts m)"
      by (auto simp: verifyPayloadAndSendAckIfNeeded_def split: if_splits)
    with Inr 4 p show ?thesis by (intro processed) simp_all
  next
    case 1
    with assms have "wt' = wt" "h' = h" "written = []" by (auto simp: verifyPayloadAndSendAckIfNeeded_def)
    then show ?thesis by (rule nothing)
  next
    case 3
    with assms Inr have "wt' = wt" "h' = h" "written = []" by (auto simp: verifyPayloadAndSendAckIfNeeded_def)
    then show ?thesis by (rule nothing)
  qed
qed

end
