(* ===== verification/WsProtocol.thy ===== *)
theory WsProtocol
  imports Transceiver
begin

text \<open>
  Two transceivers that talk over one connection. Any number of \<^verbatim>\<open>Send\<close> calls run on either side
  while both sides listen; the steps of the calls and of the listeners interleave in any order. A
  side receives only what the other side has written; a message may be delivered late, more than
  once, out of order or never, which covers every schedule of the real connection.
\<close>

section \<open>The system\<close>

record call =
  call_ch :: nat
  call_counter :: uint64
  call_payload :: bytes
  call_topic :: bytes
  call_version :: uint32

text \<open>
  For each of the two sides, named by a truth value: its transceiver, the state of its handler, what
  it has written, its calls of \<^verbatim>\<open>Send\<close>, those that wait, those that have returned and with what, and
  what its handler has processed and with what answer.
\<close>

record 'h ws_system =
  tr :: "bool \<Rightarrow> 'h wsTransceiver"
  hst :: "bool \<Rightarrow> 'h"
  wire :: "bool \<Rightarrow> bytes list"
  calls :: "bool \<Rightarrow> call list"
  waiting :: "bool \<Rightarrow> call list"
  returned :: "bool \<Rightarrow> (call \<times> ws_error option) list"
  processed :: "bool \<Rightarrow> (bytes \<times> bytes \<times> uint32 \<times> ws_error option) list"

definition processing :: "'h wsTransceiver \<Rightarrow> 'h \<Rightarrow> bytes \<Rightarrow> (bytes \<times> bytes \<times> uint32 \<times> ws_error option) list" where
  "processing wt h b =
     (case ExtractWsMessage (payloadParser wt) b of
        Inl err \<Rightarrow> []
      | Inr m \<Rightarrow>
          (if b \<noteq> [] \<and> ws_Type m = PayloadMessage
           then [(ws_Payload m, ws_Topic m, ws_Version m,
                  fst (ProcessPayload (payloadHandler wt) (ws_Payload m) (ws_Topic m) (ws_Version m) h))]
           else []))"

definition new_call :: "'h wsTransceiver \<Rightarrow> bytes \<Rightarrow> bytes \<Rightarrow> call" where
  "new_call wt payload topic =
     \<lparr>call_ch = chansMade wt, call_counter = counter wt + 1, call_payload = payload, call_topic = topic,
      call_version = payloadVersion wt\<rparr>"

fun returned_by :: "call \<Rightarrow> send_state \<Rightarrow> (call \<times> ws_error option) list" where
  "returned_by cl (SendReturned r) = [(cl, r)]"
| "returned_by cl (SendWaits ch) = []"

fun waiting_by :: "call \<Rightarrow> send_state \<Rightarrow> call list" where
  "waiting_by cl (SendReturned r) = []"
| "waiting_by cl (SendWaits ch) = [cl]"

inductive ws_step :: "'h ws_system \<Rightarrow> 'h ws_system \<Rightarrow> bool" where
  send: "Send_begin payload topic wr (tr s d) = (st, written, wt') \<Longrightarrow> cl = new_call (tr s d) payload topic \<Longrightarrow>
    ws_step s (s\<lparr>tr := (tr s)(d := wt'), wire := (wire s)(d := wire s d @ written),
                 calls := (calls s)(d := calls s d @ [cl]),
                 waiting := (waiting s)(d := waiting s d @ waiting_by cl st),
                 returned := (returned s)(d := returned s d @ returned_by cl st)\<rparr>)"
| wait: "cl \<in> set (waiting s d) \<Longrightarrow> wait_enabled (tr s d) (call_ch cl) w \<Longrightarrow>
    ws_step s (s\<lparr>waiting := (waiting s)(d := remove1 cl (waiting s d)),
                 returned := (returned s)(d := returned s d @ [(cl, waitForAck w)])\<rparr>)"
| receive: "b \<in> set (wire s (\<not> d)) \<Longrightarrow>
    verifyPayloadAndSendAckIfNeeded attempts b (tr s d) (hst s d) = Some (wt', h', written) \<Longrightarrow>
    ws_step s (s\<lparr>tr := (tr s)(d := wt'), hst := (hst s)(d := h'), wire := (wire s)(d := wire s d @ written),
                 processed := (processed s)(d := processed s d @ processing (tr s d) (hst s d) b)\<rparr>)"
| set_handler: "SetPayloadHandler handler (tr s d) = (err, wt') \<Longrightarrow> ws_step s (s\<lparr>tr := (tr s)(d := wt')\<rparr>)"
| close: "Transceiver_Close (tr s d) (hst s d) = (err, wt', h') \<Longrightarrow>
    ws_step s (s\<lparr>tr := (tr s)(d := wt'), hst := (hst s)(d := h')\<rparr>)"

definition ws_init :: "ArgsTransceiver \<Rightarrow> ArgsTransceiver \<Rightarrow> 'h \<Rightarrow> 'h \<Rightarrow> 'h ws_system \<Rightarrow> bool" where
  "ws_init args0 args1 h0 h1 s \<longleftrightarrow>
     NewTransceiver args0 = Inr (tr s False) \<and> NewTransceiver args1 = Inr (tr s True) \<and>
     hst s False = h0 \<and> hst s True = h1 \<and>
     wire s = (\<lambda>_. []) \<and> calls s = (\<lambda>_. []) \<and> waiting s = (\<lambda>_. []) \<and> returned s = (\<lambda>_. []) \<and> processed s = (\<lambda>_. [])"

inductive ws_reach :: "'h ws_system \<Rightarrow> 'h ws_system \<Rightarrow> bool" for s0 where
  init: "ws_reach s0 s0"
| step: "ws_reach s0 s \<Longrightarrow> ws_step s s' \<Longrightarrow> ws_reach s0 s'"

section \<open>The invariant of one side\<close>

text \<open>The calls are numbered: the \<open>i\<close>-th has channel \<open>i\<close> and the counter \<open>i + 1\<close>, modulo the width.\<close>

definition calls_ok :: "'h wsTransceiver \<Rightarrow> call list \<Rightarrow> bool" where
  "calls_ok wt cls \<longleftrightarrow> counter wt = word_of_nat (length cls) \<and> chansMade wt = length cls \<and>
     (\<forall>i < length cls. call_ch (cls ! i) = i \<and> call_counter (cls ! i) = word_of_nat (Suc i))"

definition map_ok :: "'h wsTransceiver \<Rightarrow> call list \<Rightarrow> bool" where
  "map_ok wt cls \<longleftrightarrow> (\<forall>c ch. mapAck wt c = Some ch \<longrightarrow> (\<exists>cl \<in> set cls. call_ch cl = ch \<and> call_counter cl = c))"

text \<open>Messages of a kind and with a counter among the bytes on a wire.\<close>

definition on_wire :: "webSocketsPayloadConverter \<Rightarrow> bytes list \<Rightarrow> int32 \<Rightarrow> WsMessage \<Rightarrow> bool" where
  "on_wire pc w k m \<longleftrightarrow> (\<exists>b \<in> set w. ExtractWsMessage pc b = Inr m) \<and> ws_Type m = k"

text \<open>A channel is closed only by an acknowledge with the counter of its call.\<close>

definition closed_ok :: "webSocketsPayloadConverter \<Rightarrow> 'h wsTransceiver \<Rightarrow> call list \<Rightarrow> bytes list \<Rightarrow> bool" where
  "closed_ok pc wt cls other \<longleftrightarrow> (\<forall>ch \<in> chansClosed wt. \<exists>cl \<in> set cls. call_ch cl = ch \<and>
     (\<exists>m. on_wire pc other AckMessage m \<and> Counter m = call_counter cl))"

text \<open>A payload message on the own wire is the message of a call.\<close>

definition payload_ok :: "webSocketsPayloadConverter \<Rightarrow> call list \<Rightarrow> bytes list \<Rightarrow> bool" where
  "payload_ok pc cls own \<longleftrightarrow> (\<forall>m. on_wire pc own PayloadMessage m \<longrightarrow>
     (\<exists>cl \<in> set cls. Counter m = call_counter cl \<and> ws_Payload m = call_payload cl \<and> ws_Topic m = call_topic cl \<and>
        ws_Version m = call_version cl))"

text \<open>An acknowledge on the own wire answers a payload message of the other wire that was processed.\<close>

definition ack_ok :: "webSocketsPayloadConverter \<Rightarrow> bool \<Rightarrow> (bytes \<times> bytes \<times> uint32 \<times> ws_error option) list
  \<Rightarrow> bytes list \<Rightarrow> bytes list \<Rightarrow> bool" where
  "ack_ok pc blocking done other own \<longleftrightarrow> (\<forall>m. on_wire pc own AckMessage m \<longrightarrow>
     (\<exists>m'. on_wire pc other PayloadMessage m' \<and> Counter m' = Counter m \<and>
        (\<exists>err. (ws_Payload m', ws_Topic m', ws_Version m', err) \<in> set done \<and> (blocking \<longrightarrow> err = None))))"

definition ret_ok :: "'h wsTransceiver \<Rightarrow> call list \<Rightarrow> call list \<Rightarrow> (call \<times> ws_error option) list \<Rightarrow> bool" where
  "ret_ok wt cls wait ret \<longleftrightarrow> set wait \<subseteq> set cls \<and>
     (withAcknowledge wt \<longrightarrow> (\<forall>cl. (cl, None) \<in> set ret \<longrightarrow> cl \<in> set cls \<and> call_ch cl \<in> chansClosed wt))"

definition side_inv :: "webSocketsPayloadConverter \<Rightarrow> 'h ws_system \<Rightarrow> bool \<Rightarrow> bool" where
  "side_inv pc s d \<longleftrightarrow> payloadParser (tr s d) = pc \<and> chans_ok (tr s d) \<and>
     calls_ok (tr s d) (calls s d) \<and> map_ok (tr s d) (calls s d) \<and>
     closed_ok pc (tr s d) (calls s d) (wire s (\<not> d)) \<and> payload_ok pc (calls s d) (wire s d) \<and>
     ack_ok pc (blockingAckOnError (tr s d)) (processed s d) (wire s (\<not> d)) (wire s d) \<and>
     ret_ok (tr s d) (calls s d) (waiting s d) (returned s d)"

lemma on_wire_append [simp]: "on_wire pc (w @ w') k m \<longleftrightarrow> on_wire pc w k m \<or> on_wire pc w' k m"
  by (auto simp: on_wire_def)

lemma on_wire_Nil [simp]: "\<not> on_wire pc [] k m"
  by (simp add: on_wire_def)

lemma message_kinds: "AckMessage \<noteq> PayloadMessage" "PayloadMessage \<noteq> AckMessage"
  by (simp_all add: AckMessage_def PayloadMessage_def)

lemma closed_ok_mono: "closed_ok pc wt cls w \<Longrightarrow> closed_ok pc wt cls (w @ w')"
  by (auto simp: closed_ok_def) blast

lemma ack_ok_mono: "ack_ok pc bl done other own \<Longrightarrow> ack_ok pc bl done (other @ w') own"
  by (auto simp: ack_ok_def) blast

lemma calls_ok_new:
  assumes "calls_ok wt cls" and "prepareChanAndCounter wt = (ch, c, wt')"
  shows "calls_ok wt' (cls @ [new_call wt payload topic])"
  using assms(1) prepare_fields [OF assms(2)]
  by (auto simp: calls_ok_def new_call_def nth_append less_Suc_eq add.commute)

lemma map_ok_new:
  assumes "map_ok wt cls" and "prepareChanAndCounter wt = (ch, c, wt')"
  shows "map_ok wt' (cls @ [new_call wt payload topic])"
  using assms(1) prepare_fields [OF assms(2)]
  by (auto simp: map_ok_def new_call_def split: if_splits)

text \<open>What a call of \<^verbatim>\<open>Send\<close> writes and how it returns.\<close>

lemma Send_begin_cases:
  assumes "Send_begin payload topic write wt = (st, written, wt')"
  obtains ch c where "prepareChanAndCounter wt = (ch, c, wt')"
    and "written = [] \<or> (\<exists>b. written = [b] \<and> ConstructPayload (payloadParser wt) (payloadMessage wt' c payload topic) = Inr b)"
    and "withAcknowledge wt \<longrightarrow> st \<noteq> SendReturned None"
proof -
  obtain ch c w1 where p: "prepareChanAndCounter wt = (ch, c, w1)" by (metis prod_cases3)
  note f = prepare_fields [OF p]
  show ?thesis
  proof (cases "ConstructPayload (payloadParser w1) (payloadMessage w1 c payload topic)")
    case (Inl e)
    then have "st = SendReturned (Some e)" "written = []" "wt' = w1"
      using assms p by (auto simp: Send_begin_def)
    with p that show ?thesis by blast
  next
    case (Inr b)
    then have "wt' = w1" and sp: "sendPayload w1 b write ch = (st, written)"
      using assms p by (auto simp: Send_begin_def split: prod.splits)
    from sp have "written = [] \<or> written = [b]" "withAcknowledge w1 \<longrightarrow> st \<noteq> SendReturned None"
      by (auto simp: sendPayload_def split: option.splits if_splits)
    with p that Inr \<open>wt' = w1\<close> f show ?thesis by auto
  qed
qed

lemma Send_begin_failed:
  assumes "Send_begin payload topic write wt = (SendReturned (Some e), written, wt')"
  shows "written = []"
proof -
  obtain ch c w1 where p: "prepareChanAndCounter wt = (ch, c, w1)" by (metis prod_cases3)
  show ?thesis
    using assms p
    by (cases "ConstructPayload (payloadParser w1) (payloadMessage w1 c payload topic)"; cases "write")
      (auto simp: Send_begin_def sendPayload_def split: if_splits)
qed

section \<open>The steps keep the invariant\<close>

text \<open>A side that does not move sees at most more bytes on the wire of the other.\<close>

lemma side_inv_other:
  assumes "side_inv pc s e" and "tr s' e = tr s e" "calls s' e = calls s e" "waiting s' e = waiting s e"
    "returned s' e = returned s e" "processed s' e = processed s e" "wire s' e = wire s e"
    "wire s' (\<not> e) = wire s (\<not> e) @ w"
  shows "side_inv pc s' e"
  using assms by (simp add: side_inv_def closed_ok_mono ack_ok_mono)

lemma payload_ok_send:
  assumes "lossless pc" and "payload_ok pc cls own" and "prepareChanAndCounter wt = (ch, c, wt')"
    and "ConstructPayload pc (payloadMessage wt' c payload topic) = Inr b"
  shows "payload_ok pc (cls @ [new_call wt payload topic]) (own @ [b])"
proof -
  have "ExtractWsMessage pc b = Inr (payloadMessage wt' c payload topic)"
    using assms(1,4) by (simp add: lossless_def)
  then show ?thesis
    using assms(2) prepare_fields [OF assms(3)]
    by (auto simp: payload_ok_def on_wire_def payloadMessage_def new_call_def)
qed

lemma ack_ok_send:
  assumes "lossless pc" and "ack_ok pc bl done other own"
    and "ConstructPayload pc (payloadMessage wt c payload topic) = Inr b"
  shows "ack_ok pc bl done other (own @ [b])"
proof -
  have "ExtractWsMessage pc b = Inr (payloadMessage wt c payload topic)"
    using assms(1,3) by (simp add: lossless_def)
  then have "\<not> on_wire pc [b] AckMessage m" for m
    by (auto simp: on_wire_def payloadMessage_def message_kinds)
  with assms(2) show ?thesis by (simp add: ack_ok_def)
qed

lemma payload_ok_grow: "payload_ok pc cls own \<Longrightarrow> payload_ok pc (cls @ cls') own"
  by (auto simp: payload_ok_def)

lemma closed_ok_grow: "closed_ok pc wt cls w \<Longrightarrow> chansClosed wt' = chansClosed wt \<Longrightarrow> closed_ok pc wt' (cls @ cls') w"
  unfolding closed_ok_def by (metis Un_iff set_append)

lemma ret_ok_send:
  assumes "ret_ok wt cls wait ret" and "withAcknowledge wt' = withAcknowledge wt" "chansClosed wt' = chansClosed wt"
    and "withAcknowledge wt \<longrightarrow> st \<noteq> SendReturned None"
  shows "ret_ok wt' (cls @ [cl]) (wait @ waiting_by cl st) (ret @ returned_by cl st)"
  using assms by (cases st) (auto simp: ret_ok_def)

lemma side_inv_send:
  assumes "lossless pc" and "side_inv pc s d" and "Send_begin payload topic write (tr s d) = (st, written, wt')"
    and cl: "cl = new_call (tr s d) payload topic"
  shows "side_inv pc (s\<lparr>tr := (tr s)(d := wt'), wire := (wire s)(d := wire s d @ written),
                        calls := (calls s)(d := calls s d @ [cl]),
                        waiting := (waiting s)(d := waiting s d @ waiting_by cl st),
                        returned := (returned s)(d := returned s d @ returned_by cl st)\<rparr>) d"
proof -
  from assms(2) have inv: "payloadParser (tr s d) = pc" "chans_ok (tr s d)" "calls_ok (tr s d) (calls s d)"
    "map_ok (tr s d) (calls s d)" "closed_ok pc (tr s d) (calls s d) (wire s (\<not> d))" "payload_ok pc (calls s d) (wire s d)"
    "ack_ok pc (blockingAckOnError (tr s d)) (processed s d) (wire s (\<not> d)) (wire s d)"
    "ret_ok (tr s d) (calls s d) (waiting s d) (returned s d)"
    by (simp_all add: side_inv_def)
  from Send_begin_cases [OF assms(3)] obtain ch c where p: "prepareChanAndCounter (tr s d) = (ch, c, wt')"
    and w: "written = [] \<or> (\<exists>b. written = [b] \<and> ConstructPayload pc (payloadMessage wt' c payload topic) = Inr b)"
    and st: "withAcknowledge (tr s d) \<longrightarrow> st \<noteq> SendReturned None"
    unfolding inv(1) by blast
  note f = prepare_fields [OF p]
  have "payload_ok pc (calls s d @ [cl]) (wire s d @ written)"
    using w payload_ok_send [OF assms(1) inv(6) p] payload_ok_grow [OF inv(6)] by (auto simp: cl)
  moreover have "ack_ok pc (blockingAckOnError wt') (processed s d) (wire s (\<not> d)) (wire s d @ written)"
    using w ack_ok_send [OF assms(1) inv(7)] inv(7) f by auto
  ultimately show ?thesis
    using inv(1) chans_ok_prepare [OF inv(2) p] calls_ok_new [OF inv(3) p] map_ok_new [OF inv(4) p]
      closed_ok_grow [OF inv(5), of wt' "[cl]"] ret_ok_send [OF inv(8), of wt' st cl] st f
    by (simp add: side_inv_def cl)
qed

lemma side_inv_wait:
  assumes "side_inv pc s d" and "cl \<in> set (waiting s d)" and "wait_enabled (tr s d) (call_ch cl) w"
  shows "side_inv pc (s\<lparr>waiting := (waiting s)(d := remove1 cl (waiting s d)),
                        returned := (returned s)(d := returned s d @ [(cl, waitForAck w)])\<rparr>) d"
proof -
  have "ret_ok (tr s d) (calls s d) (waiting s d) (returned s d)" using assms(1) by (simp add: side_inv_def)
  then have "ret_ok (tr s d) (calls s d) (remove1 cl (waiting s d)) (returned s d @ [(cl, waitForAck w)])"
    using assms(2,3) set_remove1_subset [of cl "waiting s d"] by (cases w) (auto simp: ret_ok_def)
  with assms(1) show ?thesis by (simp add: side_inv_def)
qed

text \<open>Receiving an acknowledge closes the channel of the call that has its counter.\<close>

lemma receive_ack:
  assumes "handleAckMessage c wt = Some wt'" and "map_ok wt cls" and "closed_ok pc wt cls w"
    and "on_wire pc w AckMessage m" "Counter m = c"
  shows "map_ok wt' cls" "closed_ok pc wt' cls w" "chansClosed wt \<subseteq> chansClosed wt'"
proof -
  from assms(1) consider "wt' = wt" | ch where "mapAck wt c = Some ch"
      "wt' = wt\<lparr>chansClosed := insert ch (chansClosed wt), mapAck := (mapAck wt)(c := None)\<rparr>"
    by (auto simp: handleAckMessage_def split: option.splits if_splits)
  then have "map_ok wt' cls \<and> closed_ok pc wt' cls w \<and> chansClosed wt \<subseteq> chansClosed wt'"
  proof cases
    case 2
    with assms(2) obtain cl where "cl \<in> set cls" "call_ch cl = ch" "call_counter cl = c"
      by (auto simp: map_ok_def)
    with assms(4,5) have "\<exists>cl \<in> set cls. call_ch cl = ch \<and> (\<exists>m. on_wire pc w AckMessage m \<and> Counter m = call_counter cl)"
      by metis
    with 2 assms(2,3) show ?thesis by (auto simp: map_ok_def closed_ok_def)
  qed (use assms in simp)
  then show "map_ok wt' cls" "closed_ok pc wt' cls w" "chansClosed wt \<subseteq> chansClosed wt'" by simp_all
qed

lemma handleAck_fields:
  assumes "handleAckMessage c wt = Some wt'"
  shows "payloadParser wt' = payloadParser wt" "counter wt' = counter wt" "chansMade wt' = chansMade wt"
    "withAcknowledge wt' = withAcknowledge wt" "blockingAckOnError wt' = blockingAckOnError wt"
  using assms by (auto simp: handleAckMessage_def split: option.splits if_splits)

lemma ack_ok_receive:
  assumes "lossless pc" and "payloadParser wt = pc" and "ack_ok pc (blockingAckOnError wt) done other own"
    and "b \<in> set other" "b \<noteq> []" and "ExtractWsMessage pc b = Inr m" "ws_Type m = PayloadMessage"
    and "ProcessPayload (payloadHandler wt) (ws_Payload m) (ws_Topic m) (ws_Version m) h = (err, h')"
    and "written = (if err \<noteq> None \<and> blockingAckOnError wt then [] else sendAckIfNeeded wt attempts m)"
  shows "ack_ok pc (blockingAckOnError wt) (done @ processing wt h b) other (own @ written)"
proof -
  have pr: "processing wt h b = [(ws_Payload m, ws_Topic m, ws_Version m, err)]"
    using assms(2,5-8) by (simp add: processing_def)
  have mw: "on_wire pc other PayloadMessage m" using assms(4,6,7) by (auto simp: on_wire_def)
  have "Counter a = Counter m \<and> (blockingAckOnError wt \<longrightarrow> err = None)" if "on_wire pc written AckMessage a" for a
  proof -
    from that obtain b' where b': "b' \<in> set written" "ExtractWsMessage pc b' = Inr a" by (auto simp: on_wire_def)
    with assms(9,2) have "ConstructPayload pc (ackMessage m) = Inr b'" "\<not> (err \<noteq> None \<and> blockingAckOnError wt)"
      by (auto simp: sendAckIfNeeded_def split: if_splits sum.splits)
    moreover from this(1) assms(1) b'(2) have "a = ackMessage m" by (simp add: lossless_def)
    ultimately show ?thesis by (auto simp: ackMessage_def)
  qed
  with mw assms(3) show ?thesis unfolding pr ack_ok_def by (fastforce simp: ack_ok_def)
qed

lemma payload_ok_receive:
  assumes "lossless pc" and "payloadParser wt = pc" and "payload_ok pc cls own"
    and "set written \<subseteq> set (sendAckIfNeeded wt attempts m)"
  shows "payload_ok pc cls (own @ written)"
proof -
  have "\<not> on_wire pc written PayloadMessage a" for a
  proof
    assume "on_wire pc written PayloadMessage a"
    then obtain b where b: "b \<in> set (sendAckIfNeeded wt attempts m)" "ExtractWsMessage pc b = Inr a" "ws_Type a = PayloadMessage"
      using assms(4) by (auto simp: on_wire_def)
    with assms(1,2) have "a = ackMessage m"
      by (auto simp: sendAckIfNeeded_def lossless_def split: if_splits sum.splits)
    with b(3) show False by (simp add: ackMessage_def message_kinds)
  qed
  with assms(3) show ?thesis by (simp add: payload_ok_def)
qed

lemma side_inv_receive:
  assumes "lossless pc" and "side_inv pc s d" and "b \<in> set (wire s (\<not> d))"
    and "verifyPayloadAndSendAckIfNeeded attempts b (tr s d) (hst s d) = Some (wt', h', written)"
  shows "side_inv pc (s\<lparr>tr := (tr s)(d := wt'), hst := (hst s)(d := h'), wire := (wire s)(d := wire s d @ written),
                        processed := (processed s)(d := processed s d @ processing (tr s d) (hst s d) b)\<rparr>) d"
proof -
  let ?wt = "tr s d" and ?pr = "processed s d @ processing (tr s d) (hst s d) b"
  from assms(2) have inv: "payloadParser ?wt = pc" "chans_ok ?wt" "calls_ok ?wt (calls s d)"
    "map_ok ?wt (calls s d)" "closed_ok pc ?wt (calls s d) (wire s (\<not> d))" "payload_ok pc (calls s d) (wire s d)"
    "ack_ok pc (blockingAckOnError ?wt) (processed s d) (wire s (\<not> d)) (wire s d)"
    "ret_ok ?wt (calls s d) (waiting s d) (returned s d)"
    by (simp_all add: side_inv_def)
  have more: "ack_ok pc (blockingAckOnError ?wt) ?pr (wire s (\<not> d)) (wire s d)"
    using inv(7) unfolding ack_ok_def set_append by blast
  from assms(4) show ?thesis
  proof (cases rule: verify_cases)
    case nothing
    with inv more show ?thesis by (simp add: side_inv_def)
  next
    case (ack m)
    then have "on_wire pc (wire s (\<not> d)) AckMessage m" using assms(3) inv(1) by (auto simp: on_wire_def)
    note r = receive_ack [OF ack(3) inv(4,5) this refl] and f = handleAck_fields [OF ack(3)]
    have "calls_ok wt' (calls s d)" using inv(3) f by (simp add: calls_ok_def)
    moreover have "ret_ok wt' (calls s d) (waiting s d) (returned s d)" using inv(8) f r(3) by (auto simp: ret_ok_def)
    ultimately show ?thesis
      using inv more r f chans_ok_handleAck [OF inv(2) ack(3)] ack(5) by (simp add: side_inv_def)
  next
    case (processed m err)
    show ?thesis
    proof (cases "b = []")
      case True
      then have "written = []" using assms(4) by (simp add: verifyPayloadAndSendAckIfNeeded_def)
      with processed(4) inv more show ?thesis by (simp add: side_inv_def)
    next
      case False
      have "set written \<subseteq> set (sendAckIfNeeded ?wt attempts m)" using processed(5) by auto
      from payload_ok_receive [OF assms(1) inv(1,6) this]
        ack_ok_receive [OF assms(1) inv(1) inv(7) assms(3) False _ processed(2,3,5)] processed(1,4) inv
      show ?thesis by (simp add: side_inv_def)
    qed
  qed
qed

lemma NewTransceiver_fields:
  assumes "NewTransceiver args = Inr wt"
  shows "at_PayloadConverter args = Some (payloadParser wt)" "mapAck wt = Map.empty" "counter wt = 0" "chansMade wt = 0"
    "chansClosed wt = {}" "withAcknowledge wt = at_WithAcknowledge args" "blockingAckOnError wt = at_BlockingAckOnError args"
    "safeCloserClosed wt = False"
  using assms by (auto simp: NewTransceiver_def split: option.splits)

lemma side_inv_init:
  assumes "ws_init args0 args1 h0 h1 s" and "at_PayloadConverter args0 = Some pc" "at_PayloadConverter args1 = Some pc"
  shows "side_inv pc s d"
proof -
  have "NewTransceiver (if d then args1 else args0) = Inr (tr s d)" using assms(1) by (cases d) (simp_all add: ws_init_def)
  from NewTransceiver_fields [OF this] chans_ok_new [OF this]
  have "payloadParser (tr s d) = pc" "mapAck (tr s d) = Map.empty" "counter (tr s d) = 0" "chansMade (tr s d) = 0"
    "chansClosed (tr s d) = {}" "chans_ok (tr s d)"
    using assms(2,3) by (auto split: if_splits)
  then show ?thesis
    using assms(1) by (simp add: side_inv_def ws_init_def calls_ok_def map_ok_def closed_ok_def payload_ok_def ack_ok_def ret_ok_def)
qed

lemma side_inv_step:
  assumes "ws_step s s'" and "lossless pc" and "\<And>d. side_inv pc s d"
  shows "side_inv pc s' e"
  using assms(1)
proof cases
  case (send payload topic wr d st written wt' cl)
  show ?thesis
  proof (cases "e = d")
    case True
    with send side_inv_send [OF assms(2,3) send(2,3)] show ?thesis by simp
  next
    case False
    then show ?thesis by (intro side_inv_other [OF assms(3) [of e]]) (auto simp: send(1))
  qed
next
  case (wait cl d w)
  show ?thesis
  proof (cases "e = d")
    case True
    with wait side_inv_wait [OF assms(3) wait(2,3)] show ?thesis by simp
  next
    case False
    then show ?thesis by (intro side_inv_other [OF assms(3) [of e], where w = "[]"]) (auto simp: wait(1))
  qed
next
  case (receive b d attempts wt' h' written)
  show ?thesis
  proof (cases "e = d")
    case True
    with receive side_inv_receive [OF assms(2,3) receive(2,3)] show ?thesis by simp
  next
    case False
    then show ?thesis by (intro side_inv_other [OF assms(3) [of e]]) (auto simp: receive(1))
  qed
next
  case (set_handler handler d err wt')
  then have "wt' = tr s d \<or> (\<exists>h. wt' = (tr s d)\<lparr>payloadHandler := h\<rparr>)"
    by (auto simp: SetPayloadHandler_def split: option.splits)
  with assms(3) [of e] set_handler(1) show ?thesis
    by (auto simp: side_inv_def chans_ok_def calls_ok_def map_ok_def closed_ok_def ret_ok_def)
next
  case (close d err wt' h')
  then have "wt' = (tr s d)\<lparr>safeCloserClosed := True\<rparr>"
    by (auto simp: Transceiver_Close_def split: prod.splits)
  with assms(3) [of e] close(1) show ?thesis
    by (auto simp: side_inv_def chans_ok_def calls_ok_def map_ok_def closed_ok_def ret_ok_def)
qed

lemma side_inv_reach:
  assumes "ws_reach s0 s" and "lossless pc" and "\<And>d. side_inv pc s0 d"
  shows "side_inv pc s d"
  using assms(1)
proof (induction arbitrary: d rule: ws_reach.induct)
  case init
  show ?case by (rule assms(3))
next
  case (step s s')
  then show ?case using side_inv_step assms(2) by blast
qed

text \<open>Two calls with the same counter are the same call, as long as the counter has not wrapped around.\<close>

lemma calls_ok_unique:
  assumes "calls_ok wt cls" and "length cls < 2 ^ 64" and "cl \<in> set cls" "cl' \<in> set cls" "call_counter cl = call_counter cl'"
  shows "cl = cl'"
proof -
  from assms(3,4) obtain i j where ij: "i < length cls" "cls ! i = cl" "j < length cls" "cls ! j = cl'"
    by (auto simp: in_set_conv_nth)
  with assms(1,5) have "(word_of_nat (Suc i) :: uint64) = word_of_nat (Suc j)" by (auto simp: calls_ok_def)
  moreover have "unat (word_of_nat (Suc k) :: uint64) = Suc k" if "k < length cls" for k
    using that assms(2) by (simp only: unsigned_of_nat) (simp add: take_bit_nat_eq_self)
  ultimately have "Suc i = Suc j" using ij by metis
  with ij show ?thesis by simp
qed

lemma calls_ok_chan_unique:
  assumes "calls_ok wt cls" and "cl \<in> set cls" "cl' \<in> set cls" "call_ch cl = call_ch cl'"
  shows "cl = cl'"
  using assms by (auto simp: calls_ok_def in_set_conv_nth)

section \<open>An example run\<close>

text \<open>
  Both sides use the protobuf converter; one sends with acknowledge, the other processes the
  payload and acknowledges it, and the call returns.
\<close>

definition example_args :: ArgsTransceiver where
  "example_args = \<lparr>at_PayloadConverter = Some \<lparr>marshaller = proto_marshaller\<rparr>, at_Log = Some \<lparr>isLevelTrace = False\<rparr>,
     at_RetryDurationInSec = 1, at_AckTimeoutInSec = 1, at_BlockingAckOnError = True, at_WithAcknowledge = True,
     at_PayloadVersion = 1\<rparr>"

definition example_transceiver :: "unit wsTransceiver" where
  "example_transceiver = \<lparr>payloadParser = \<lparr>marshaller = proto_marshaller\<rparr>, payloadHandler = NewNilPayloadHandler,
     retryDuration = 1, ackTimeout = 1, mapAck = Map.empty, counter = 0, blockingAckOnError = True,
     withAcknowledge = True, payloadVersion = 1, chansMade = 0, chansClosed = {}, safeCloserClosed = False\<rparr>"

definition example_system :: "unit ws_system" where
  "example_system = \<lparr>tr = (\<lambda>_. example_transceiver), hst = (\<lambda>_. ()), wire = (\<lambda>_. []), calls = (\<lambda>_. []),
     waiting = (\<lambda>_. []), returned = (\<lambda>_. []), processed = (\<lambda>_. [])\<rparr>"

lemma example_new: "NewTransceiver example_args = Inr example_transceiver"
  by (simp add: NewTransceiver_def checkArgs_def example_args_def example_transceiver_def)

lemma example_init: "ws_init example_args example_args () () example_system"
  by (simp add: ws_init_def example_system_def example_new)

definition example_msg :: WsMessage where
  "example_msg = \<lparr>WithAcknowledge = True, Counter = 1, ws_Type = 2, ws_Payload = [7], ws_Topic = [65], ws_Version = 1\<rparr>"

lemma proto_construct:
  "WsMessage_Size m < 2 ^ 63 \<Longrightarrow> ConstructPayload \<lparr>marshaller = proto_marshaller\<rparr> m = Inr (WsMessage_bytes m)"
  by (simp add: ConstructPayload_def proto_marshaller_def WsMessage_Marshal_bytes)

lemma proto_extract:
  "WsMessage_Size m < 2 ^ 63 \<Longrightarrow> ExtractWsMessage \<lparr>marshaller = proto_marshaller\<rparr> (WsMessage_bytes m) = Inr m"
  using proto_construct [of m] proto_marshaller_lossless by (simp only: lossless_def)

lemma example_sizes: "WsMessage_Size example_msg < 2 ^ 63" "WsMessage_Size (ackMessage example_msg) < 2 ^ 63"
  using WsMessage_Size_le [of example_msg] WsMessage_Size_le [of "ackMessage example_msg"]
  by (simp_all add: example_msg_def ackMessage_def WsMessage_zero_def)

lemma typed_bytes_not_Nil: "ws_Type m \<noteq> 0 \<Longrightarrow> WsMessage_bytes m \<noteq> []"
  by (simp add: WsMessage_bytes_def varint_field_def)

definition example_call :: call where
  "example_call = \<lparr>call_ch = 0, call_counter = 1, call_payload = [7], call_topic = [65], call_version = 1\<rparr>"

definition sent_transceiver :: "unit wsTransceiver" where
  "sent_transceiver = example_transceiver\<lparr>counter := 1, chansMade := 1, mapAck := [1 \<mapsto> 0]\<rparr>"

lemma example_send:
  "Send_begin [7] [65] None example_transceiver = (SendWaits 0, [WsMessage_bytes example_msg], sent_transceiver)"
proof -
  have "payloadMessage sent_transceiver 1 [7] [65] = example_msg"
    by (simp add: payloadMessage_def sent_transceiver_def example_transceiver_def example_msg_def PayloadMessage_def)
  moreover have "prepareChanAndCounter example_transceiver = (0, 1, sent_transceiver)"
    by (simp add: prepareChanAndCounter_def sent_transceiver_def example_transceiver_def)
  moreover have "payloadParser sent_transceiver = \<lparr>marshaller = proto_marshaller\<rparr>" "withAcknowledge sent_transceiver"
    by (simp_all add: sent_transceiver_def example_transceiver_def)
  ultimately show ?thesis
    by (simp add: Send_begin_def sendPayload_def proto_construct [OF example_sizes(1)])
qed

lemma example_receive_payload:
  "verifyPayloadAndSendAckIfNeeded [(None, False)] (WsMessage_bytes example_msg) example_transceiver () =
   Some (example_transceiver, (), [WsMessage_bytes (ackMessage example_msg)])"
  using typed_bytes_not_Nil [of example_msg] proto_extract [OF example_sizes(1)] proto_construct [OF example_sizes(2)]
  by (simp add: verifyPayloadAndSendAckIfNeeded_def sendAckIfNeeded_def example_transceiver_def example_msg_def
      AckMessage_def PayloadMessage_def NewNilPayloadHandler_def)

lemma example_receive_ack:
  "verifyPayloadAndSendAckIfNeeded [] (WsMessage_bytes (ackMessage example_msg)) sent_transceiver () =
   Some (sent_transceiver\<lparr>chansClosed := {0}, mapAck := Map.empty\<rparr>, (), [])"
proof -
  have "ws_Type (ackMessage example_msg) = 1" "Counter (ackMessage example_msg) = 1"
    by (simp_all add: ackMessage_def AckMessage_def example_msg_def)
  with typed_bytes_not_Nil [of "ackMessage example_msg"] proto_extract [OF example_sizes(2)] show ?thesis
    by (simp add: verifyPayloadAndSendAckIfNeeded_def handleAckMessage_def sent_transceiver_def example_transceiver_def
        AckMessage_def fun_upd_idem)
qed

lemma example_run:
  "\<exists>s. ws_reach example_system s \<and> withAcknowledge (tr s False) \<and> (example_call, None) \<in> set (returned s False) \<and>
       length (calls s False) < 2 ^ 64"
proof -
  let ?s1 = "example_system\<lparr>tr := (tr example_system)(False := sent_transceiver),
    wire := (wire example_system)(False := wire example_system False @ [WsMessage_bytes example_msg]),
    calls := (calls example_system)(False := calls example_system False @ [example_call]),
    waiting := (waiting example_system)(False := waiting example_system False @ waiting_by example_call (SendWaits 0)),
    returned := (returned example_system)(False := returned example_system False @ returned_by example_call (SendWaits 0))\<rparr>"
  have s1: "ws_step example_system ?s1"
    by (rule ws_step.send [where wr = None and payload = "[7]" and topic = "[65]"])
      (simp add: example_system_def example_send,
       simp add: example_system_def new_call_def example_call_def example_transceiver_def)
  let ?s2 = "?s1\<lparr>tr := (tr ?s1)(True := example_transceiver), hst := (hst ?s1)(True := ()),
    wire := (wire ?s1)(True := wire ?s1 True @ [WsMessage_bytes (ackMessage example_msg)]),
    processed := (processed ?s1)(True := processed ?s1 True @ processing (tr ?s1 True) (hst ?s1 True) (WsMessage_bytes example_msg))\<rparr>"
  have s2: "ws_step ?s1 ?s2"
    by (rule ws_step.receive [where attempts = "[(None, False)]"])
      (simp_all add: example_system_def example_receive_payload)
  let ?wt3 = "sent_transceiver\<lparr>chansClosed := {0}, mapAck := Map.empty\<rparr>"
  let ?s3 = "?s2\<lparr>tr := (tr ?s2)(False := ?wt3), hst := (hst ?s2)(False := ()),
    wire := (wire ?s2)(False := wire ?s2 False @ []),
    processed := (processed ?s2)(False := processed ?s2 False @ processing (tr ?s2 False) (hst ?s2 False)
      (WsMessage_bytes (ackMessage example_msg)))\<rparr>"
  have s3: "ws_step ?s2 ?s3"
    by (rule ws_step.receive [where attempts = "[]"]) (simp_all add: example_system_def example_receive_ack)
  let ?s4 = "?s3\<lparr>waiting := (waiting ?s3)(False := remove1 example_call (waiting ?s3 False)),
    returned := (returned ?s3)(False := returned ?s3 False @ [(example_call, waitForAck AckReceived)])\<rparr>"
  have s4: "ws_step ?s3 ?s4"
    by (rule ws_step.wait) (simp_all add: example_system_def example_call_def)
  have "ws_reach example_system ?s4"
    using ws_reach.step [OF ws_reach.step [OF ws_reach.step [OF ws_reach.step [OF ws_reach.init s1] s2] s3] s4] .
  then show ?thesis
    by (intro exI [of _ ?s4]) (simp add: sent_transceiver_def example_transceiver_def example_system_def)
qed

lemma example_args_converter: "at_PayloadConverter example_args = Some \<lparr>marshaller = proto_marshaller\<rparr>"
  by (simp add: example_args_def)

section \<open>Properties\<close>

text \<open>
  C16. When a Send with acknowledge returns without an error, the handler of the other side has
  processed exactly its payload, topic and version, and without an error if that side blocks the
  acknowledge on errors. This holds for any number of concurrent calls on both sides and any order
  of delivery, until the 64-bit counter wraps around.
\<close>

theorem acknowledged_send_was_processed:
  assumes "ws_init args0 args1 h0 h1 s0" and "at_PayloadConverter args0 = Some pc" "at_PayloadConverter args1 = Some pc"
    and "lossless pc" and "ws_reach s0 s"
    and "withAcknowledge (tr s d)" and "(cl, None) \<in> set (returned s d)" and "length (calls s d) < 2 ^ 64"
  shows "\<exists>err. (call_payload cl, call_topic cl, call_version cl, err) \<in> set (processed s (\<not> d)) \<and>
           (blockingAckOnError (tr s (\<not> d)) \<longrightarrow> err = None)"
proof -
  have inv: "side_inv pc s e" for e
    using side_inv_reach [OF assms(5,4)] side_inv_init [OF assms(1-3)] by blast
  have calls: "calls_ok (tr s d) (calls s d)" using inv [of d] by (simp add: side_inv_def)
  from inv [of d] assms(6,7) have "cl \<in> set (calls s d)" "call_ch cl \<in> chansClosed (tr s d)"
    by (auto simp: side_inv_def ret_ok_def)
  then obtain m where m: "on_wire pc (wire s (\<not> d)) AckMessage m" "Counter m = call_counter cl"
    using inv [of d] calls_ok_chan_unique [OF calls] by (fastforce simp: side_inv_def closed_ok_def)
  from inv [of "\<not> d"] m(1) obtain m' err where m': "on_wire pc (wire s d) PayloadMessage m'" "Counter m' = Counter m"
    "(ws_Payload m', ws_Topic m', ws_Version m', err) \<in> set (processed s (\<not> d))" "blockingAckOnError (tr s (\<not> d)) \<longrightarrow> err = None"
    by (auto simp: side_inv_def ack_ok_def)
  from inv [of d] m'(1) obtain cl' where cl': "cl' \<in> set (calls s d)" "Counter m' = call_counter cl'"
    "ws_Payload m' = call_payload cl'" "ws_Topic m' = call_topic cl'" "ws_Version m' = call_version cl'"
    by (auto simp: side_inv_def payload_ok_def)
  have "cl' = cl"
    using calls_ok_unique [OF calls assms(8) cl'(1) \<open>cl \<in> set (calls s d)\<close>] cl'(2) m'(2) m(2) by simp
  with m' cl' show ?thesis by auto
qed

theorem acknowledged_send_was_processed_witness:
  "\<exists>s. ws_reach example_system s \<and> (example_call, None) \<in> set (returned s False) \<and>
     (\<exists>err. ([7], [65], 1, err) \<in> set (processed s True))"
proof -
  from example_run obtain s where s: "ws_reach example_system s" "withAcknowledge (tr s False)"
    "(example_call, None) \<in> set (returned s False)" "length (calls s False) < 2 ^ 64" by blast
  from acknowledged_send_was_processed [OF example_init example_args_converter example_args_converter
      proto_marshaller_lossless s] s
  show ?thesis by (auto simp: example_call_def)
qed

text \<open>
  C17. No message that arrives can make the listener panic: whatever the bytes are, handling them in
  a reachable state never closes a channel twice.
\<close>

theorem listener_never_panics:
  assumes "ws_init args0 args1 h0 h1 s0" and "at_PayloadConverter args0 = Some pc" "at_PayloadConverter args1 = Some pc"
    and "lossless pc" and "ws_reach s0 s"
  shows "verifyPayloadAndSendAckIfNeeded attempts b (tr s d) h \<noteq> None"
proof (rule verify_no_panic)
  have "side_inv pc s d" using side_inv_reach [OF assms(5,4)] side_inv_init [OF assms(1-3)] by blast
  then show "chans_ok (tr s d)" by (simp only: side_inv_def)
qed

theorem listener_never_panics_witness:
  "verifyPayloadAndSendAckIfNeeded [] [1, 2, 3] (tr example_system True) () \<noteq> None"
  by (rule listener_never_panics [OF example_init example_args_converter example_args_converter
      proto_marshaller_lossless ws_reach.init])

text \<open>
  C18. A Send with acknowledge that fails before it waits (the payload cannot be constructed or not
  be written) leaves its channel in the map of expected acknowledges, although nobody waits for it;
  so does a Send whose wait ends by the timeout or by the close, which do not touch the map.
\<close>

theorem failed_send_leaves_map_entry:
  assumes "Send_begin payload topic write wt = (st, written, wt')" and "withAcknowledge wt"
  shows "dom (mapAck wt') = insert (counter wt + 1) (dom (mapAck wt)) \<and>
         (st = SendReturned (Some e) \<longrightarrow> written = [] \<and> mapAck wt' (counter wt + 1) = Some (chansMade wt))"
proof -
  obtain ch c where p: "prepareChanAndCounter wt = (ch, c, wt')"
    by (rule Send_begin_cases [OF assms(1)])
  have "st = SendReturned (Some e) \<longrightarrow> written = []" using Send_begin_failed assms(1) by blast
  with prepare_fields [OF p] assms(2) show ?thesis by auto
qed

theorem failed_send_leaves_map_entry_witness:
  "dom (mapAck (snd (snd (Send_begin [7] [65] (Some ErrConnectionNotOpen) example_transceiver)))) = {1}"
proof -
  obtain st written wt' where s: "Send_begin [7] [65] (Some ErrConnectionNotOpen) example_transceiver = (st, written, wt')"
    by (metis prod_cases3)
  have "withAcknowledge example_transceiver" "counter example_transceiver = 0" "mapAck example_transceiver = Map.empty"
    by (simp_all add: example_transceiver_def)
  with failed_send_leaves_map_entry [OF s] show ?thesis by (simp add: s)
qed

end
