(* ===== verification/WsHost.thy ===== *)
theory WsHost
  imports Transceiver
begin

text \<open>
  The two kinds of WebSocket host: the client (\<^verbatim>\<open>websocket/client/client.go\<close>), the server
  (\<^verbatim>\<open>websocket/server/server.go\<close>, \<^verbatim>\<open>transceiversAndConnHolder.go\<close>) and the factory that chooses between them
  (\<^verbatim>\<open>websocket/factory/factoryHost.go\<close>). The HTTP server and the upgrade of a request to a socket are
  outside: the server is given the upgraded sockets. Durations are whole seconds. The go routines of
  a client are its two loops, modelled by one turn each.
\<close>

section \<open>Sending over a connection\<close>

text \<open>
  \<^verbatim>\<open>Send\<close> of a transceiver with the connection it writes to; 2 is \<^verbatim>\<open>websocket.BinaryMessage\<close>.
\<close>

definition Send_on :: "'c socket_ops \<Rightarrow> bytes \<Rightarrow> bytes \<Rightarrow> 'h wsTransceiver \<Rightarrow> 'c wsConnClient
  \<Rightarrow> send_state \<times> 'h wsTransceiver \<times> 'c wsConnClient" where
  "Send_on ops payload topic wt conn =
     (let (ch, localCounter, wt) = prepareChanAndCounter wt
      in case ConstructPayload (payloadParser wt) (payloadMessage wt localCounter payload topic) of
           Inl err \<Rightarrow> (SendReturned (Some err), wt, conn)
         | Inr newPayload \<Rightarrow>
             (let (errSend, conn) = WriteMessage ops 2 newPayload conn;
                  (st, _) = sendPayload wt newPayload errSend ch
              in (st, wt, conn)))"

text \<open>It is the step of the protocol model, with the answer that the connection gives.\<close>

lemma Send_on_begin:
  assumes "Send_on ops payload topic wt conn = (st, wt', conn')"
  shows "\<exists>wr written. Send_begin payload topic wr wt = (st, written, wt')"
proof -
  obtain ch c w1 where p: "prepareChanAndCounter wt = (ch, c, w1)" by (metis prod_cases3)
  show ?thesis
  proof (cases "ConstructPayload (payloadParser w1) (payloadMessage w1 c payload topic)")
    case (Inl e)
    with assms p show ?thesis by (simp add: Send_on_def Send_begin_def)
  next
    case (Inr b)
    obtain e cn where w: "WriteMessage ops 2 b conn = (e, cn)" by fastforce
    obtain st1 wr1 where s: "sendPayload w1 b e ch = (st1, wr1)" by fastforce
    from assms p Inr w s show ?thesis
      by (intro exI [of _ e]) (simp add: Send_on_def Send_begin_def)
  qed
qed

lemma Send_on_closed:
  assumes "\<not> IsOpen conn" and "Send_on ops payload topic wt conn = (st, wt', conn')"
  shows "conn' = conn \<and> (\<exists>err. st = SendReturned (Some err))"
proof -
  obtain ch c w1 where p: "prepareChanAndCounter wt = (ch, c, w1)" by (metis prod_cases3)
  have "WriteMessage ops 2 b conn = (Some ErrConnectionNotOpen, conn)" for b
    using assms(1) by (simp add: WriteMessage_def IsOpen_def)
  with assms(2) p show ?thesis
    by (cases "ConstructPayload (payloadParser w1) (payloadMessage w1 c payload topic)")
      (auto simp: Send_on_def sendPayload_def)
qed

section \<open>The client\<close>

record ArgsWebSocketClient =
  ac_RetryDurationInSeconds :: int
  ac_AckTimeoutInSeconds :: int
  ac_WithAcknowledge :: bool
  ac_BlockingAckOnError :: bool
  ac_DropMessagesIfNoConnection :: bool
  ac_URL :: string
  ac_PayloadConverter :: "webSocketsPayloadConverter option"
  ac_Log :: "logger option"
  ac_PayloadVersion :: uint32

record ('c, 'h) client =
  cl_url :: string
  cl_retryDuration :: int
  cl_closed :: bool
  cl_wsConn :: "'c wsConnClient"
  cl_transceiver :: "'h wsTransceiver"
  cl_dropMessagesIfNoConnection :: bool

definition client_checkArgs :: "ArgsWebSocketClient \<Rightarrow> ws_error option" where
  "client_checkArgs args =
     (if ac_Log args = None then Some core_ErrNilLogger
      else if ac_PayloadConverter args = None then Some ErrNilPayloadConverter
      else if ac_URL args = [] then Some ErrEmptyUrl
      else if ac_RetryDurationInSeconds args = 0 then Some ErrZeroValueRetryDuration
      else None)"

text \<open>
  What the client uses of \<^verbatim>\<open>net/url\<close>: \<open>url_Parse\<close> gives the scheme and the printed form of the URL as a
  function of its path.
\<close>

type_synonym parsed_url = "string \<times> (string \<Rightarrow> string)"

definition NewWebSocketClient ::
  "(string \<Rightarrow> ws_error + parsed_url) \<Rightarrow> ArgsWebSocketClient \<Rightarrow> ws_error + ('c, 'h) client" where
  "NewWebSocketClient url_Parse args =
     (case client_checkArgs args of
        Some err \<Rightarrow> Inl err
      | None \<Rightarrow>
          (case NewTransceiver
                  \<lparr>at_PayloadConverter = ac_PayloadConverter args, at_Log = ac_Log args,
                   at_RetryDurationInSec = ac_RetryDurationInSeconds args,
                   at_AckTimeoutInSec = ac_AckTimeoutInSeconds args,
                   at_BlockingAckOnError = ac_BlockingAckOnError args,
                   at_WithAcknowledge = ac_WithAcknowledge args, at_PayloadVersion = ac_PayloadVersion args\<rparr> of
             Inl err \<Rightarrow> Inl err
           | Inr wsTransceiver \<Rightarrow>
               (case url_Parse (ac_URL args) of
                  Inl err \<Rightarrow> Inl invalidWebSocketURL
                | Inr (Scheme, wsUrl) \<Rightarrow>
                    (if Scheme \<noteq> ''ws'' \<and> Scheme \<noteq> ''wss'' then Inl invalidWebSocketURL
                     else Inr \<lparr>cl_url = wsUrl WSRoute, cl_retryDuration = ac_RetryDurationInSeconds args,
                               cl_closed = False, cl_wsConn = NewWSConnClient, cl_transceiver = wsTransceiver,
                               cl_dropMessagesIfNoConnection = ac_DropMessagesIfNoConnection args\<rparr>))))"

text \<open>One turn of the first loop of \<^verbatim>\<open>start\<close>: the connection is opened again if it is not open.\<close>

definition client_open_turn :: "'c socket_ops \<Rightarrow> ('c, 'h) client \<Rightarrow> ('c, 'h) client" where
  "client_open_turn ops c = c\<lparr>cl_wsConn := snd (OpenConnection ops (cl_url c) (cl_wsConn c))\<rparr>"

text \<open>
  The end of one turn of the second loop: \<^verbatim>\<open>Listen\<close> has returned \<open>closed\<close>, and the connection is closed.
\<close>

definition client_listen_turn :: "'c socket_ops \<Rightarrow> bool \<Rightarrow> ('c, 'h) client \<Rightarrow> ('c, 'h) client" where
  "client_listen_turn ops closed c =
     (if closed then c\<lparr>cl_wsConn := snd (CloseConn ops (cl_wsConn c))\<rparr> else c)"

definition client_Send :: "'c socket_ops \<Rightarrow> bytes \<Rightarrow> bytes \<Rightarrow> ('c, 'h) client \<Rightarrow> send_state \<times> ('c, 'h) client" where
  "client_Send ops payload topic c =
     (let dropMessage = cl_dropMessagesIfNoConnection c \<and> \<not> IsOpen (cl_wsConn c)
      in if dropMessage then (SendReturned None, c)
         else
           (let (st, wt, conn) = Send_on ops payload topic (cl_transceiver c) (cl_wsConn c)
            in (st, c\<lparr>cl_transceiver := wt, cl_wsConn := conn\<rparr>)))"

definition client_SetPayloadHandler ::
  "'h PayloadHandler option \<Rightarrow> ('c, 'h) client \<Rightarrow> ws_error option \<times> ('c, 'h) client" where
  "client_SetPayloadHandler handler c =
     (let (err, wt) = SetPayloadHandler handler (cl_transceiver c) in (err, c\<lparr>cl_transceiver := wt\<rparr>))"

definition client_Close :: "'c socket_ops \<Rightarrow> ('c, 'h) client \<Rightarrow> 'h \<Rightarrow> ws_error option \<times> ('c, 'h) client \<times> 'h" where
  "client_Close ops c h =
     (let (err1, wt, h) = Transceiver_Close (cl_transceiver c) h;
          lastErr = err1;
          (err2, conn) = CloseConn ops (cl_wsConn c);
          lastErr = (if err2 \<noteq> None then err2 else lastErr)
      in (lastErr, c\<lparr>cl_transceiver := wt, cl_wsConn := conn, cl_closed := True\<rparr>, h))"

section \<open>The registry of the server\<close>

type_synonym ('c, 'h) tupleTransceiverAndConn = "'h wsTransceiver \<times> 'c wsConnClient"
type_synonym ('c, 'h) transceiversAndConnHolder = "string \<rightharpoonup> ('c, 'h) tupleTransceiverAndConn"

definition newTransceiversAndConnHolder :: "('c, 'h) transceiversAndConnHolder" where
  "newTransceiversAndConnHolder = Map.empty"

definition addTransceiverAndConn ::
  "'h wsTransceiver \<Rightarrow> 'c wsConnClient \<Rightarrow> ('c, 'h) transceiversAndConnHolder \<Rightarrow> ('c, 'h) transceiversAndConnHolder" where
  "addTransceiverAndConn wt conn th = th(GetID conn \<mapsto> (wt, conn))"

definition removeTransceiver :: "string \<Rightarrow> ('c, 'h) transceiversAndConnHolder \<Rightarrow> ('c, 'h) transceiversAndConnHolder" where
  "removeTransceiver cid th = th(cid := None)"

definition getAll :: "('c, 'h) transceiversAndConnHolder \<Rightarrow> ('c, 'h) transceiversAndConnHolder" where
  "getAll th = th"

section \<open>The server\<close>

record ArgsWebSocketServer =
  as_RetryDurationInSeconds :: int
  as_AckTimeoutInSeconds :: int
  as_BlockingAckOnError :: bool
  as_WithAcknowledge :: bool
  as_DropMessagesIfNoConnection :: bool
  as_URL :: string
  as_PayloadConverter :: "webSocketsPayloadConverter option"
  as_Log :: "logger option"
  as_PayloadVersion :: uint32

record ('c, 'h) server =
  sv_blockingAckOnError :: bool
  sv_withAcknowledge :: bool
  sv_dropMessagesIfNoConnection :: bool
  sv_ackTimeoutInSec :: int
  sv_payloadConverter :: webSocketsPayloadConverter
  sv_retryDuration :: int
  sv_log :: logger
  sv_transceiversAndConn :: "('c, 'h) transceiversAndConnHolder"
  sv_payloadHandler :: "'h PayloadHandler option"
  sv_payloadVersion :: uint32

definition server_checkArgs :: "ArgsWebSocketServer \<Rightarrow> ws_error option" where
  "server_checkArgs args =
     (if as_Log args = None then Some core_ErrNilLogger
      else if as_PayloadConverter args = None then Some ErrNilPayloadConverter
      else if as_URL args = [] then Some ErrEmptyUrl
      else if as_RetryDurationInSeconds args = 0 then Some ErrZeroValueRetryDuration
      else None)"

definition NewWebSocketServer :: "ArgsWebSocketServer \<Rightarrow> ws_error + ('c, 'h) server" where
  "NewWebSocketServer args =
     (case server_checkArgs args of
        Some err \<Rightarrow> Inl err
      | None \<Rightarrow>
          (case (as_Log args, as_PayloadConverter args) of
             (Some log, Some pc) \<Rightarrow>
               Inr \<lparr>sv_blockingAckOnError = as_BlockingAckOnError args, sv_withAcknowledge = as_WithAcknowledge args,
                    sv_dropMessagesIfNoConnection = as_DropMessagesIfNoConnection args,
                    sv_ackTimeoutInSec = as_AckTimeoutInSeconds args, sv_payloadConverter = pc,
                    sv_retryDuration = as_RetryDurationInSeconds args, sv_log = log,
                    sv_transceiversAndConn = newTransceiversAndConnHolder,
                    sv_payloadHandler = Some NewNilPayloadHandler, sv_payloadVersion = as_PayloadVersion args\<rparr>
           | _ \<Rightarrow> Inl ErrNilPayloadConverter))"

definition server_SetPayloadHandler :: "'h PayloadHandler option \<Rightarrow> ('c, 'h) server \<Rightarrow> ws_error option \<times> ('c, 'h) server" where
  "server_SetPayloadHandler handler s = (None, s\<lparr>sv_payloadHandler := handler\<rparr>)"

text \<open>
  \<^verbatim>\<open>connectionHandler\<close> makes a transceiver for a new connection and registers the pair; when the
  listener of that connection returns, the pair is removed.
\<close>

definition connectionHandler :: "'c wsConnClient \<Rightarrow> ('c, 'h) server \<Rightarrow> ('c, 'h) server" where
  "connectionHandler conn s =
     (case NewTransceiver
             \<lparr>at_PayloadConverter = Some (sv_payloadConverter s), at_Log = Some (sv_log s),
              at_RetryDurationInSec = sv_retryDuration s, at_AckTimeoutInSec = sv_ackTimeoutInSec s,
              at_BlockingAckOnError = sv_blockingAckOnError s, at_WithAcknowledge = sv_withAcknowledge s,
              at_PayloadVersion = sv_payloadVersion s\<rparr> of
        Inl err \<Rightarrow> s
      | Inr wt \<Rightarrow>
          (let (err, wt) = SetPayloadHandler (sv_payloadHandler s) wt
           in s\<lparr>sv_transceiversAndConn := addTransceiverAndConn wt conn (sv_transceiversAndConn s)\<rparr>))"

definition listenerEnded :: "'c wsConnClient \<Rightarrow> ('c, 'h) server \<Rightarrow> ('c, 'h) server" where
  "listenerEnded conn s = s\<lparr>sv_transceiversAndConn := removeTransceiver (GetID conn) (sv_transceiversAndConn s)\<rparr>"

text \<open>
  The HTTP server: \<^verbatim>\<open>initializeServer\<close> binds the address and the one route, whose handler upgrades a request and hands
  the socket with the printed remote address to \<^verbatim>\<open>connectionHandler\<close>. \<^verbatim>\<open>start\<close> waits until the listening ends and tells
  a shutdown from a failure by the text of the error.
\<close>

record http_server =
  hs_Addr :: string
  hs_Path :: string

definition initializeServer :: "string \<Rightarrow> string \<Rightarrow> http_server" where
  "initializeServer wsURL wsPath = \<lparr>hs_Addr = wsURL, hs_Path = wsPath\<rparr>"

definition addClientFunc :: "ws_error + (string \<times> 'c) \<Rightarrow> ('c, 'h) server \<Rightarrow> ('c, 'h) server" where
  "addClientFunc upgraded s =
     (case upgraded of
        Inl errUpgrade \<Rightarrow> s
      | Inr (remoteAddr, ws) \<Rightarrow> connectionHandler (NewWSConnClientWithConn remoteAddr ws) s)"

datatype start_outcome = CouldNotInitialize ws_error | ServerWasClosed

definition server_start :: "(ws_error \<Rightarrow> string) \<Rightarrow> ws_error option \<Rightarrow> start_outcome" where
  "server_start errText ListenAndServe =
     (case ListenAndServe of
        None \<Rightarrow> ServerWasClosed
      | Some err \<Rightarrow>
          (if \<not> strings_Contains (errText err) (errText ErrServerIsClosed) then CouldNotInitialize err else ServerWasClosed))"

text \<open>
  \<^verbatim>\<open>Send\<close> ranges over the copied map in an order that Go leaves open: \<open>ids\<close> lists its keys. The
  transceivers are shared, so what a \<^verbatim>\<open>Send\<close> changes is seen in the registry; errors are only logged. Each \<^verbatim>\<open>Send\<close> blocks until its
  acknowledge arrives, its timer fires or its transceiver is closed, and only then the next client is served: \<open>waits cid\<close> tells
  how the wait of a client ends, and what its listener did to the transceiver in the meantime.
\<close>

type_synonym 'h wait = "nat \<Rightarrow> 'h wsTransceiver \<Rightarrow> wait_case \<times> 'h wsTransceiver"

definition Send_blocking :: "'c socket_ops \<Rightarrow> 'h wait \<Rightarrow> bytes \<Rightarrow> bytes \<Rightarrow> 'h wsTransceiver \<Rightarrow> 'c wsConnClient
  \<Rightarrow> ws_error option \<times> 'h wsTransceiver \<times> 'c wsConnClient" where
  "Send_blocking ops wait payload topic wt conn =
     (let (st, wt, conn) = Send_on ops payload topic wt conn
      in case st of
           SendReturned err \<Rightarrow> (err, wt, conn)
         | SendWaits ch \<Rightarrow> (let (c, wt) = wait ch wt in (waitForAck c, wt, conn)))"

fun server_Send_loop :: "'c socket_ops \<Rightarrow> (string \<Rightarrow> 'h wait) \<Rightarrow> bytes \<Rightarrow> bytes \<Rightarrow> string list \<Rightarrow> ('c, 'h) transceiversAndConnHolder
  \<Rightarrow> ('c, 'h) transceiversAndConnHolder" where
  "server_Send_loop ops waits payload topic [] th = th"
| "server_Send_loop ops waits payload topic (cid # ids) th =
     (case th cid of
        None \<Rightarrow> server_Send_loop ops waits payload topic ids th
      | Some (wt, conn) \<Rightarrow>
          (let (err, wt, conn) = Send_blocking ops (waits cid) payload topic wt conn
           in server_Send_loop ops waits payload topic ids (th(cid \<mapsto> (wt, conn)))))"

definition server_Send :: "'c socket_ops \<Rightarrow> (string \<Rightarrow> 'h wait) \<Rightarrow> string list \<Rightarrow> bytes \<Rightarrow> bytes \<Rightarrow> ('c, 'h) server
  \<Rightarrow> ws_error option \<times> ('c, 'h) server" where
  "server_Send ops waits ids payload topic s =
     (let transceiversAndCon = getAll (sv_transceiversAndConn s);
          noClients = (ids = [])
      in if noClients \<and> \<not> sv_dropMessagesIfNoConnection s then (Some ErrNoClientsConnected, s)
         else (None, s\<lparr>sv_transceiversAndConn := server_Send_loop ops waits payload topic ids transceiversAndCon\<rparr>))"

fun server_Close_loop :: "'c socket_ops \<Rightarrow> string list \<Rightarrow> ws_error option \<Rightarrow> ('c, 'h) transceiversAndConnHolder \<Rightarrow> 'h
  \<Rightarrow> ws_error option \<times> ('c, 'h) transceiversAndConnHolder \<times> 'h" where
  "server_Close_loop ops [] lastError th h = (lastError, th, h)"
| "server_Close_loop ops (cid # ids) lastError th h =
     (case th cid of
        None \<Rightarrow> server_Close_loop ops ids lastError th h
      | Some (wt, conn) \<Rightarrow>
          (let (err, wt, h) = Transceiver_Close wt h;
               lastError = (if err \<noteq> None then err else lastError);
               (err, conn) = CloseConn ops conn;
               lastError = (if err \<noteq> None then err else lastError)
           in server_Close_loop ops ids lastError (th(cid \<mapsto> (wt, conn))) h))"

text \<open>\<open>shutdown\<close> is what \<^verbatim>\<open>httpServer.Shutdown\<close> answers.\<close>

definition server_Close :: "'c socket_ops \<Rightarrow> string list \<Rightarrow> ws_error option \<Rightarrow> ('c, 'h) server \<Rightarrow> 'h
  \<Rightarrow> ws_error option \<times> ('c, 'h) server \<times> 'h" where
  "server_Close ops ids shutdown s h =
     (let (lastError, th, h) = server_Close_loop ops ids shutdown (getAll (sv_transceiversAndConn s)) h
      in (lastError, s\<lparr>sv_transceiversAndConn := th\<rparr>, h))"

section \<open>The factory\<close>

record WebSocketConfig =
  wc_URL :: string
  wc_Mode :: string
  wc_RetryDurationInSec :: int
  wc_WithAcknowledge :: bool
  wc_AcknowledgeTimeoutInSec :: int
  wc_BlockingAckOnError :: bool
  wc_DropMessagesIfNoConnection :: bool
  wc_Version :: uint32

record ArgsWebSocketHost =
  ah_WebSocketConfig :: WebSocketConfig
  ah_Marshaller :: "Marshalizer option"
  ah_Log :: "logger option"

datatype ('c, 'h) FullDuplexHost = ClientHost "('c, 'h) client" | ServerHost "('c, 'h) server"

definition createWebSocketClient ::
  "(string \<Rightarrow> ws_error + parsed_url) \<Rightarrow> ArgsWebSocketHost \<Rightarrow> ws_error + ('c, 'h) FullDuplexHost" where
  "createWebSocketClient url_Parse args =
     (case NewWebSocketPayloadConverter (ah_Marshaller args) of
        Inl err \<Rightarrow> Inl err
      | Inr pc \<Rightarrow>
          (let cfg = ah_WebSocketConfig args
           in map_sum id ClientHost (NewWebSocketClient url_Parse
                \<lparr>ac_RetryDurationInSeconds = wc_RetryDurationInSec cfg,
                 ac_AckTimeoutInSeconds = wc_AcknowledgeTimeoutInSec cfg, ac_WithAcknowledge = wc_WithAcknowledge cfg,
                 ac_BlockingAckOnError = wc_BlockingAckOnError cfg,
                 ac_DropMessagesIfNoConnection = wc_DropMessagesIfNoConnection cfg, ac_URL = wc_URL cfg,
                 ac_PayloadConverter = Some pc, ac_Log = ah_Log args, ac_PayloadVersion = wc_Version cfg\<rparr>)))"

definition createWebSocketServer :: "ArgsWebSocketHost \<Rightarrow> ws_error + ('c, 'h) FullDuplexHost" where
  "createWebSocketServer args =
     (case NewWebSocketPayloadConverter (ah_Marshaller args) of
        Inl err \<Rightarrow> Inl err
      | Inr pc \<Rightarrow>
          (let cfg = ah_WebSocketConfig args
           in map_sum id ServerHost (NewWebSocketServer
                \<lparr>as_RetryDurationInSeconds = wc_RetryDurationInSec cfg,
                 as_AckTimeoutInSeconds = wc_AcknowledgeTimeoutInSec cfg,
                 as_BlockingAckOnError = wc_BlockingAckOnError cfg, as_WithAcknowledge = wc_WithAcknowledge cfg,
                 as_DropMessagesIfNoConnection = wc_DropMessagesIfNoConnection cfg, as_URL = wc_URL cfg,
                 as_PayloadConverter = Some pc, as_Log = ah_Log args, as_PayloadVersion = wc_Version cfg\<rparr>)))"

definition CreateWebSocketHost ::
  "(string \<Rightarrow> ws_error + parsed_url) \<Rightarrow> ArgsWebSocketHost \<Rightarrow> ws_error + ('c, 'h) FullDuplexHost" where
  "CreateWebSocketHost url_Parse args =
     (let mode = wc_Mode (ah_WebSocketConfig args)
      in if mode = ModeServer then createWebSocketServer args
         else if mode = ModeClient then createWebSocketClient url_Parse args
         else Inl ErrInvalidWebSocketHostMode)"

section \<open>Sending to every client\<close>

lemma server_Send_loop_other:
  "cid \<notin> set ids \<Longrightarrow> server_Send_loop ops waits payload topic ids th cid = th cid"
  by (induction ids arbitrary: th) (auto split: option.split prod.split)

lemma server_Send_loop_each:
  assumes "distinct ids" and "cid \<in> set ids"
  shows "server_Send_loop ops waits payload topic ids th cid =
           map_option (\<lambda>(wt, conn). snd (Send_blocking ops (waits cid) payload topic wt conn)) (th cid)"
  using assms
proof (induction ids arbitrary: th)
  case (Cons i ids)
  show ?case
  proof (cases "th i")
    case None
    with Cons show ?thesis by (cases "cid = i") (auto simp: server_Send_loop_other)
  next
    case (Some p)
    obtain wt conn where p: "p = (wt, conn)" by fastforce
    obtain err wt' conn' where s: "Send_blocking ops (waits i) payload topic wt conn = (err, wt', conn')" by (metis prod_cases3)
    from Cons Some p s show ?thesis by (cases "cid = i") (auto simp: server_Send_loop_other)
  qed
qed simp

lemma server_Send_loop_all:
  assumes "distinct ids" and "set ids = dom th"
  shows "server_Send_loop ops waits payload topic ids th = (\<lambda>cid. map_option (\<lambda>(wt, conn). snd (Send_blocking ops (waits cid) payload topic wt conn)) (th cid))"
proof (rule ext)
  fix cid
  show "server_Send_loop ops waits payload topic ids th cid = map_option (\<lambda>(wt, conn). snd (Send_blocking ops (waits cid) payload topic wt conn)) (th cid)"
  proof (cases "cid \<in> set ids")
    case True
    with assms(1) show ?thesis by (rule server_Send_loop_each)
  next
    case False
    with assms(2) have "th cid = None" by auto
    with False show ?thesis by (simp add: server_Send_loop_other)
  qed
qed

lemma server_Close_loop_each:
  assumes "distinct ids" and "server_Close_loop ops ids e th h = (e', th', h')"
  shows "cid \<notin> set ids \<longrightarrow> th' cid = th cid"
    and "cid \<in> set ids \<longrightarrow> th' cid =
           map_option (\<lambda>(wt, conn). (wt\<lparr>safeCloserClosed := True\<rparr>, snd (CloseConn ops conn))) (th cid)"
  using assms
proof (induction ids arbitrary: th e h)
  case (Cons i ids)
  {
    case 1
    with Cons.IH(1) show ?case
      by (auto simp: Let_def Transceiver_Close_def split: option.splits prod.splits)
  next
    case 2
    with Cons.IH show ?case
      by (cases "cid = i") (auto simp: Let_def Transceiver_Close_def split: option.splits prod.splits)
  }
qed simp_all

lemma server_Close_loop_err:
  assumes "distinct ids" and "server_Close_loop ops ids e th h = (e', th', h')"
  shows "(e \<noteq> None \<longrightarrow> e' \<noteq> None) \<and>
         (\<forall>cid wt conn. cid \<in> set ids \<and> th cid = Some (wt, conn) \<and> fst (CloseConn ops conn) \<noteq> None \<longrightarrow> e' \<noteq> None)"
  using assms
proof (induction ids arbitrary: th e h)
  case (Cons i ids)
  show ?case
  proof (cases "th i")
    case None
    with Cons.prems Cons.IH [of e th h] show ?thesis by auto
  next
    case (Some p)
    obtain wt conn where p: "p = (wt, conn)" by fastforce
    obtain e1 wt1 h1 where w: "Transceiver_Close wt h = (e1, wt1, h1)" by (metis prod_cases3)
    obtain e2 conn1 where c: "CloseConn ops conn = (e2, conn1)" by fastforce
    let ?e = "if e2 \<noteq> None then e2 else if e1 \<noteq> None then e1 else e"
    from Cons.prems(2) Some p w c
    have l: "server_Close_loop ops ids ?e (th(i \<mapsto> (wt1, conn1))) h1 = (e', th', h')"
      by (cases e1; cases e2) simp_all
    from Cons.prems(1) have "distinct ids" by simp
    from Cons.IH [OF this l] Cons.prems(1) Some p c show ?thesis by (auto split: if_splits)
  qed
qed simp

section \<open>The registry of clients\<close>

text \<open>
  The steps of a server: clients come and go, and messages are sent to those that are registered. What a listener does to a
  transceiver while a \<^verbatim>\<open>Send\<close> waits leaves its settings alone.
\<close>

definition keeps_settings :: "'h wait \<Rightarrow> bool" where
  "keeps_settings wait \<longleftrightarrow> (\<forall>ch wt. withAcknowledge (snd (wait ch wt)) = withAcknowledge wt \<and> payloadVersion (snd (wait ch wt)) = payloadVersion wt)"

inductive server_step :: "'c socket_ops \<Rightarrow> ('c, 'h) server \<Rightarrow> ('c, 'h) server \<Rightarrow> bool" for ops where
  request: "server_step ops s (addClientFunc upgraded s)"
| ended: "server_step ops s (listenerEnded conn s)"
| sends: "\<forall>cid. keeps_settings (waits cid) \<Longrightarrow> distinct ids \<Longrightarrow> set ids = dom (sv_transceiversAndConn s) \<Longrightarrow> server_Send ops waits ids payload topic s = (r, s') \<Longrightarrow> server_step ops s s'"
| set_handler: "server_step ops s (snd (server_SetPayloadHandler handler s))"

inductive_cases server_stepE: "server_step ops s s'"

text \<open>Every pair is registered under the identifier of its connection, and its transceiver acknowledges as the server was told to.\<close>

definition server_wf :: "('c, 'h) server \<Rightarrow> bool" where
  "server_wf s \<longleftrightarrow> (\<forall>cid wt conn. sv_transceiversAndConn s cid = Some (wt, conn) \<longrightarrow>
     GetID conn = cid \<and> withAcknowledge wt = sv_withAcknowledge s \<and> payloadVersion wt = sv_payloadVersion s)"

lemma Send_on_keeps:
  assumes "Send_on ops payload topic wt conn = (st, wt', conn')"
  shows "GetID conn' = GetID conn" "withAcknowledge wt' = withAcknowledge wt" "payloadVersion wt' = payloadVersion wt"
  using assms
  by (auto simp: Send_on_def prepareChanAndCounter_def WriteMessage_def GetID_def Let_def split: prod.splits sum.splits if_splits option.splits)

lemma keeps_settings_wait:
  assumes "keeps_settings wait" and "wait ch wt = (wr, wt')"
  shows "withAcknowledge wt' = withAcknowledge wt" "payloadVersion wt' = payloadVersion wt"
  using assms(1) [unfolded keeps_settings_def, rule_format, of ch wt] assms(2) by simp_all

lemma Send_blocking_keeps:
  assumes "Send_blocking ops wait payload topic wt conn = (err, wt', conn')" and "keeps_settings wait"
  shows "GetID conn' = GetID conn" "withAcknowledge wt' = withAcknowledge wt" "payloadVersion wt' = payloadVersion wt"
proof -
  obtain st w c where s: "Send_on ops payload topic wt conn = (st, w, c)" by (metis prod_cases3)
  have "conn' = c" "withAcknowledge wt' = withAcknowledge w" "payloadVersion wt' = payloadVersion w"
    using assms(1) s
    by (auto simp: Send_blocking_def keeps_settings_wait [OF assms(2)] split: send_state.splits prod.splits)
  with Send_on_keeps [OF s] show "GetID conn' = GetID conn" "withAcknowledge wt' = withAcknowledge wt" "payloadVersion wt' = payloadVersion wt"
    by simp_all
qed

lemma server_wf_connection: "server_wf s \<Longrightarrow> server_wf (connectionHandler conn s)"
  by (auto simp: server_wf_def connectionHandler_def NewTransceiver_def checkArgs_def SetPayloadHandler_def addTransceiverAndConn_def
      split: option.splits sum.splits prod.splits if_splits)

lemma server_wf_sends:
  assumes "server_wf s" and "server_Send ops waits ids payload topic s = (r, s')" and "distinct ids" and "set ids = dom (sv_transceiversAndConn s)"
    and "\<forall>cid. keeps_settings (waits cid)"
  shows "server_wf s'"
proof (cases "s' = s")
  case False
  then have s': "s' = s\<lparr>sv_transceiversAndConn := server_Send_loop ops waits payload topic ids (sv_transceiversAndConn s)\<rparr>"
    using assms(2) by (auto simp: server_Send_def getAll_def Let_def split: if_splits)
  have "GetID (snd (snd (Send_blocking ops (waits cid) payload topic wt conn))) = cid \<and>
      withAcknowledge (fst (snd (Send_blocking ops (waits cid) payload topic wt conn))) = sv_withAcknowledge s \<and>
      payloadVersion (fst (snd (Send_blocking ops (waits cid) payload topic wt conn))) = sv_payloadVersion s"
    if "sv_transceiversAndConn s cid = Some (wt, conn)" for cid wt conn
  proof -
    obtain err wt' conn' where b: "Send_blocking ops (waits cid) payload topic wt conn = (err, wt', conn')" by (metis prod_cases3)
    from Send_blocking_keeps [OF b assms(5) [rule_format]] that assms(1) b show ?thesis by (simp add: server_wf_def)
  qed
  then show ?thesis unfolding server_wf_def s' server_Send_loop_all [OF assms(3,4)] by force
qed (use assms(1) in simp)

lemma server_wf_step: "server_step ops s s' \<Longrightarrow> server_wf s \<Longrightarrow> server_wf s'"
proof (elim server_stepE)
  fix upgraded :: "ws_error + string \<times> 'a"
  assume "server_wf s" "s' = addClientFunc upgraded s"
  then show ?thesis by (auto simp: addClientFunc_def server_wf_connection split: sum.split prod.split)
qed (auto simp: server_wf_sends, auto simp: server_wf_def listenerEnded_def removeTransceiver_def server_SetPayloadHandler_def)

section \<open>Examples\<close>

text \<open>A socket that records what is written to it, and the arguments of the examples.\<close>

definition example_socket :: "(int \<times> bytes) list socket_ops" where
  "example_socket = \<lparr>Dial = (\<lambda>url. Inr []), sock_Read = (\<lambda>c. (Inl (ExternalError ''EOF''), c)),
     sock_Write = (\<lambda>t b c. (None, c @ [(t, b)])), sock_Close = (\<lambda>c. (None, c)), err_text = (\<lambda>e. ''error''),
     FormatCloseMessage = []\<rparr>"

definition example_server_args :: "bool \<Rightarrow> ArgsWebSocketServer" where
  "example_server_args ack = \<lparr>as_RetryDurationInSeconds = 1, as_AckTimeoutInSeconds = 0, as_BlockingAckOnError = False,
     as_WithAcknowledge = ack, as_DropMessagesIfNoConnection = False, as_URL = ''localhost:22111'',
     as_PayloadConverter = Some \<lparr>marshaller = proto_marshaller\<rparr>, as_Log = Some \<lparr>isLevelTrace = False\<rparr>,
     as_PayloadVersion = 1\<rparr>"

definition example_server :: "bool \<Rightarrow> ('c, 'h) server" where
  "example_server ack = \<lparr>sv_blockingAckOnError = False, sv_withAcknowledge = ack, sv_dropMessagesIfNoConnection = False,
     sv_ackTimeoutInSec = 0, sv_payloadConverter = \<lparr>marshaller = proto_marshaller\<rparr>, sv_retryDuration = 1,
     sv_log = \<lparr>isLevelTrace = False\<rparr>, sv_transceiversAndConn = Map.empty,
     sv_payloadHandler = Some NewNilPayloadHandler, sv_payloadVersion = 1\<rparr>"

lemma example_server_new: "NewWebSocketServer (example_server_args ack) = Inr (example_server ack)"
  by (simp add: NewWebSocketServer_def server_checkArgs_def example_server_args_def example_server_def
      newTransceiversAndConnHolder_def)

definition example_client_args :: ArgsWebSocketClient where
  "example_client_args = \<lparr>ac_RetryDurationInSeconds = 1, ac_AckTimeoutInSeconds = 1, ac_WithAcknowledge = True,
     ac_BlockingAckOnError = False, ac_DropMessagesIfNoConnection = True, ac_URL = ''ws://localhost'',
     ac_PayloadConverter = Some \<lparr>marshaller = proto_marshaller\<rparr>, ac_Log = Some \<lparr>isLevelTrace = False\<rparr>,
     ac_PayloadVersion = 1\<rparr>"

lemma new_client_closed:
  "NewWebSocketClient url_Parse args = Inr c \<Longrightarrow>
     \<not> IsOpen (cl_wsConn c) \<and> cl_dropMessagesIfNoConnection c = ac_DropMessagesIfNoConnection args"
  by (auto simp: NewWebSocketClient_def IsOpen_def NewWSConnClient_def split: option.splits sum.splits if_splits)

definition example_client :: "((int \<times> bytes) list, unit) client" where
  "example_client =
     (case NewWebSocketClient (\<lambda>url. Inr (''ws'', (@) ''ws://localhost'')) example_client_args of Inr c \<Rightarrow> c)"

lemma example_client_new:
  "NewWebSocketClient (\<lambda>url. Inr (''ws'', (@) ''ws://localhost'')) example_client_args = Inr example_client"
  by (simp add: example_client_def NewWebSocketClient_def client_checkArgs_def example_client_args_def
      NewTransceiver_def checkArgs_def)

text \<open>
  A client whose connection is not open: with the drop flag its Send succeeds and changes
  nothing, without the flag it returns an error and keeps the connection as it is.
\<close>

lemma client_Send_closed:
  assumes "\<not> IsOpen (cl_wsConn c)"
  shows "if cl_dropMessagesIfNoConnection c then client_Send ops payload topic c = (SendReturned None, c)
         else \<exists>err wt. client_Send ops payload topic c = (SendReturned (Some err), c\<lparr>cl_transceiver := wt\<rparr>)"
proof -
  obtain st wt conn where s: "Send_on ops payload topic (cl_transceiver c) (cl_wsConn c) = (st, wt, conn)"
    by (metis prod_cases3)
  from Send_on_closed [OF assms s] s assms show ?thesis by (auto simp: client_Send_def)
qed

text \<open>
  Close of the server closes every registered transceiver and tries to close every connection:
  afterwards each waiting Send can return, and a connection is still open only if its own close
  failed, which the result reports when the shutdown and the handlers report nothing.
\<close>

lemma server_Close_all:
  assumes "distinct ids" and "set ids = dom (sv_transceiversAndConn s)"
    and "server_Close ops ids shutdown s h = (err, s', h')"
    and "sv_transceiversAndConn s cid = Some (wt, conn)"
  shows "sv_transceiversAndConn s' cid = Some (wt\<lparr>safeCloserClosed := True\<rparr>, snd (CloseConn ops conn)) \<and>
         (shutdown \<noteq> None \<longrightarrow> err \<noteq> None) \<and> (fst (CloseConn ops conn) \<noteq> None \<longrightarrow> err \<noteq> None)"
proof -
  obtain th where l: "server_Close_loop ops ids shutdown (sv_transceiversAndConn s) h = (err, th, h')"
    and s': "s' = s\<lparr>sv_transceiversAndConn := th\<rparr>"
    using assms(3) by (auto simp: server_Close_def getAll_def split: prod.splits)
  have cid: "cid \<in> set ids" using assms(2,4) by auto
  with server_Close_loop_each(2) [OF assms(1) l] assms(4) have "th cid = Some (wt\<lparr>safeCloserClosed := True\<rparr>, snd (CloseConn ops conn))"
    by simp
  with server_Close_loop_err [OF assms(1) l] cid assms(4) s' show ?thesis by auto
qed

section \<open>Properties\<close>


definition no_wait :: "string \<Rightarrow> 'h wait" where
  "no_wait cid ch wt = (TimerFired, wt)"


text \<open>
  C21. The acknowledge timeout is checked by the transceiver and not by the server: a server with
  acknowledge and a zero timeout is created without an error, but every client that connects is
  dropped, so each Send reports that nobody is connected. The client refuses the same settings.
\<close>

theorem server_accepts_zero_ack_timeout:
  assumes "server_checkArgs args = None" and "as_WithAcknowledge args" and "as_AckTimeoutInSeconds args = 0"
  shows "\<exists>s. NewWebSocketServer args = Inr s \<and> (\<forall>conn. connectionHandler conn s = s) \<and>
           sv_transceiversAndConn s = Map.empty \<and> (\<forall>cargs. ac_WithAcknowledge cargs \<and> ac_AckTimeoutInSeconds cargs = 0 \<longrightarrow>
              client_checkArgs cargs = None \<longrightarrow>
              NewWebSocketClient url_Parse cargs = (Inl ErrZeroValueAckTimeout :: ws_error + ('c, 'h) client))"
proof -
  from assms(1) obtain log pc where l: "as_Log args = Some log" "as_PayloadConverter args = Some pc"
    "as_RetryDurationInSeconds args \<noteq> 0"
    by (auto simp: server_checkArgs_def split: if_splits)
  with assms have "\<exists>s. NewWebSocketServer args = Inr s \<and> (\<forall>conn. connectionHandler conn s = s) \<and>
      sv_transceiversAndConn s = Map.empty"
    by (auto simp: NewWebSocketServer_def connectionHandler_def NewTransceiver_def checkArgs_def
        newTransceiversAndConnHolder_def)
  moreover have "NewWebSocketClient url_Parse cargs = (Inl ErrZeroValueAckTimeout :: ws_error + ('c, 'h) client)"
    if "ac_WithAcknowledge cargs" "ac_AckTimeoutInSeconds cargs = 0" "client_checkArgs cargs = None" for cargs
    using that by (auto simp: NewWebSocketClient_def NewTransceiver_def checkArgs_def client_checkArgs_def split: if_splits)
  ultimately show ?thesis by blast
qed

theorem server_accepts_zero_ack_timeout_witness:
  "\<exists>s. NewWebSocketServer (example_server_args True) = Inr s \<and>
       connectionHandler (NewWSConnClientWithConn ''a'' ()) s = (s :: (unit, unit) server)"
proof -
  have "server_checkArgs (example_server_args True) = None" "as_WithAcknowledge (example_server_args True)"
    "as_AckTimeoutInSeconds (example_server_args True) = 0"
    by (simp_all add: server_checkArgs_def example_server_args_def)
  from server_accepts_zero_ack_timeout [OF this] show ?thesis by blast
qed

end
