(* ===== verification/Ports.thy ===== *)
theory Ports
  imports Prelude
begin

text \<open>
  The choice of the port a node listens on (\<^verbatim>\<open>p2p/libp2p/ports.go\<close>): one port or a range, of which a free port is
  taken in a random order. \<^verbatim>\<open>strconv.Atoi\<close> and \<^verbatim>\<open>strings.Split\<close> are modelled; the shuffle of
  \<^verbatim>\<open>mx-chain-core-go\<close>, the attempt to listen and the largest slice that the run time makes are parameters.
\<close>

section \<open>Numbers and ranges\<close>

text \<open>\<^verbatim>\<open>strconv.Atoi\<close> for an \<^verbatim>\<open>int\<close> of 64 bits: an optional sign and decimal digits; \<^const>\<open>None\<close> is the error.\<close>

definition atoi_digits :: "string \<Rightarrow> nat option" where
  "atoi_digits s = (if s = [] \<or> \<not> list_all is_digit s then None else Some (digits_value 0 s))"

definition Atoi :: "string \<Rightarrow> int option" where
  "Atoi s =
     (case s of
        [] \<Rightarrow> None
      | c # ds \<Rightarrow>
          (if c = CHR ''-'' then
             (case atoi_digits ds of None \<Rightarrow> None | Some v \<Rightarrow> (if v \<le> 2 ^ 63 then Some (- int v) else None))
           else
             (case atoi_digits (if c = CHR ''+'' then ds else s) of
                None \<Rightarrow> None | Some v \<Rightarrow> (if v < 2 ^ 63 then Some (int v) else None))))"

text \<open>\<^verbatim>\<open>strings.Split(s, "-")\<close>.\<close>

fun split_dash :: "string \<Rightarrow> string list" where
  "split_dash [] = [[]]"
| "split_dash (c # s) =
     (if c = CHR ''-'' then [] # split_dash s
      else case split_dash s of [] \<Rightarrow> [[c]] | w # ws \<Rightarrow> (c # w) # ws)"

section \<open>The port\<close>

text \<open>\<^verbatim>\<open>checkFreePort\<close> tries to listen and closes at once; resolving and listening are of the package \<^verbatim>\<open>net\<close>.\<close>

definition checkFreePort :: "(string \<Rightarrow> 'a res) \<Rightarrow> ('a \<Rightarrow> p2p_error option) \<Rightarrow> int \<Rightarrow> p2p_error option" where
  "checkFreePort ResolveTCPAddr ListenTCP port =
     (case ResolveTCPAddr (''localhost:'' @ decimal_int port) of
        Inl err \<Rightarrow> Some err
      | Inr addr \<Rightarrow> ListenTCP addr)"

definition minRangePortValue :: int where "minRangePortValue = 1025"

fun choosePort_loop :: "(int \<Rightarrow> p2p_error option) \<Rightarrow> int list \<Rightarrow> int res" where
  "choosePort_loop handler [] = Inl ErrNoFreePortInRange"
| "choosePort_loop handler (p # ports) = (if handler p \<noteq> None then choosePort_loop handler ports else Inr p)"

text \<open>
  \<^verbatim>\<open>choosePort\<close> makes a slice with room for the whole range: \<open>maxCap\<close> is the largest capacity that the run time gives
  for a \<^verbatim>\<open>[]int\<close>, and \<^verbatim>\<open>make\<close> panics above it. When the range ends at the largest \<^verbatim>\<open>int\<close> the condition
  \<^verbatim>\<open>i <= endPort\<close> of the loop that fills the slice holds for ever (the counter wraps around), and the memory is
  used up. Both are \<^const>\<open>None\<close>: the call does not return.
\<close>

definition maxInt :: int where "maxInt = 2 ^ 63 - 1"

definition choosePort :: "int \<Rightarrow> (int list \<Rightarrow> int list) \<Rightarrow> int \<Rightarrow> int \<Rightarrow> (int \<Rightarrow> p2p_error option) \<Rightarrow> logger option \<Rightarrow> int res option" where
  "choosePort maxCap FisherYatesShuffle startPort endPort handler log =
     (if log = None then Some (Inl ErrNilLogger)
      else if maxCap < endPort - startPort + 1 then None
      else if endPort = maxInt then None
      else (let ports = FisherYatesShuffle [startPort..endPort] in Some (choosePort_loop handler ports)))"

definition getPort :: "int \<Rightarrow> (int list \<Rightarrow> int list) \<Rightarrow> string \<Rightarrow> (int \<Rightarrow> p2p_error option) \<Rightarrow> logger option \<Rightarrow> int res option" where
  "getPort maxCap FisherYatesShuffle port handler log =
     (case Atoi port of
        Some val \<Rightarrow> Some (if val < 0 then Inl ErrInvalidPortValue else Inr val)
      | None \<Rightarrow>
          (let ports = split_dash port
           in if length ports \<noteq> 2 then Some (Inl ErrInvalidPortsRangeString)
              else case Atoi (ports ! 0) of
                None \<Rightarrow> Some (Inl ErrInvalidStartingPortValue)
              | Some startPort \<Rightarrow>
                  (case Atoi (ports ! 1) of
                     None \<Rightarrow> Some (Inl ErrInvalidEndingPortValue)
                   | Some endPort \<Rightarrow>
                       (if startPort < minRangePortValue then Some (Inl ErrInvalidValue)
                        else if endPort < startPort then Some (Inl ErrEndPortIsSmallerThanStartPort)
                        else choosePort maxCap FisherYatesShuffle startPort endPort handler log))))"

section \<open>Facts\<close>

lemma dash_no_digit: "\<not> is_digit CHR ''-''" and plus_no_digit: "\<not> is_digit CHR ''+''"
  by (simp_all add: is_digit_def)

lemma atoi_digits_decimal: "atoi_digits (decimal_digits n) = Some n"
  by (simp add: atoi_digits_def decimal_digits_not_Nil digits_value_decimal list_all_iff decimal_digits_are_digits)

lemma Atoi_decimal: "n < 2 ^ 63 \<Longrightarrow> Atoi (decimal_digits n) = Some (int n)"
proof -
  assume n: "n < 2 ^ 63"
  obtain c ds where d: "decimal_digits n = c # ds" by (cases "decimal_digits n") (simp_all add: decimal_digits_not_Nil)
  have "is_digit c" using decimal_digits_are_digits [of c n] by (simp add: d)
  then have "c \<noteq> CHR ''-''" "c \<noteq> CHR ''+''" using dash_no_digit plus_no_digit by auto
  then show ?thesis using n atoi_digits_decimal [of n] by (simp add: Atoi_def d)
qed

lemma split_dash_digits: "list_all is_digit s \<Longrightarrow> split_dash s = [s]"
  by (induction s) (auto simp: dash_no_digit)

lemma split_dash_range: "list_all is_digit s \<Longrightarrow> split_dash (s @ CHR ''-'' # t) = s # split_dash t"
  by (induction s) (auto simp: dash_no_digit)

lemma decimal_all_digits: "list_all is_digit (decimal_digits n)"
  by (simp add: list_all_iff decimal_digits_are_digits)

lemma Atoi_range_None: "Atoi (decimal_digits m @ CHR ''-'' # t) = None"
proof -
  obtain c ds where d: "decimal_digits m = c # ds" by (cases "decimal_digits m") (simp_all add: decimal_digits_not_Nil)
  have "is_digit c" using decimal_digits_are_digits [of c m] by (simp add: d)
  then have "c \<noteq> CHR ''-''" "c \<noteq> CHR ''+''" using dash_no_digit plus_no_digit by auto
  then show ?thesis by (simp add: Atoi_def d atoi_digits_def dash_no_digit)
qed

lemma choosePort_loop_Inr: "choosePort_loop handler ps = Inr p \<Longrightarrow> p \<in> set ps \<and> handler p = None"
  by (induction ps) (auto split: if_splits)

lemma choosePort_loop_Inl: "choosePort_loop handler ps = Inl e \<longleftrightarrow> e = ErrNoFreePortInRange \<and> (\<forall>p \<in> set ps. handler p \<noteq> None)"
  by (induction ps) auto

lemma getPort_range:
  assumes "s < 2 ^ 63" and "e < 2 ^ 63"
  shows "getPort maxCap shuffle (decimal_digits s @ CHR ''-'' # decimal_digits e) handler log =
    (if s < 1025 then Some (Inl ErrInvalidValue)
     else if e < s then Some (Inl ErrEndPortIsSmallerThanStartPort)
     else choosePort maxCap shuffle (int s) (int e) handler log)"
proof -
  have "split_dash (decimal_digits s @ CHR ''-'' # decimal_digits e) = [decimal_digits s, decimal_digits e]"
    by (simp add: split_dash_range split_dash_digits decimal_all_digits)
  moreover have "Atoi (decimal_digits s) = Some (int s)" "Atoi (decimal_digits e) = Some (int e)"
    using assms by (simp_all add: Atoi_decimal)
  ultimately show ?thesis
    by (simp add: getPort_def Atoi_range_None minRangePortValue_def)
qed

section \<open>Property\<close>

text \<open>
  C19. The port of a node. A range of ports as a configuration writes it, two decimal numbers that fit an int, is
  refused when it starts below 1025 or ends before it starts. Otherwise the call gives a free port of the range, and
  an error exactly when no port of the range is free, whatever the random order is; it does not return exactly when
  the range has more ports than the largest slice, or ends at the largest int. A single number that fits an int is
  taken as it is, small or large, free or not.
\<close>

theorem port_is_free_and_in_range:
  assumes "s < 2 ^ 63" and "e < 2 ^ 63" and "n < 2 ^ 63" and "\<And>xs. set (shuffle xs) = set xs"
  shows "(case getPort maxCap shuffle (decimal_digits s @ ''-'' @ decimal_digits e) handler (Some lg) of
            None \<Rightarrow> 1025 \<le> s \<and> s \<le> e \<and> (maxCap < int e - int s + 1 \<or> int e = maxInt)
          | Some (Inr p) \<Rightarrow> 1025 \<le> s \<and> int e - int s + 1 \<le> maxCap \<and> int e < maxInt \<and> int s \<le> p \<and> p \<le> int e \<and> handler p = None
          | Some (Inl err) \<Rightarrow>
              (if s < 1025 then err = ErrInvalidValue
               else if e < s then err = ErrEndPortIsSmallerThanStartPort
               else int e - int s + 1 \<le> maxCap \<and> int e < maxInt \<and> err = ErrNoFreePortInRange \<and>
                 (\<forall>p. int s \<le> p \<and> p \<le> int e \<longrightarrow> handler p \<noteq> None))) \<and>
         getPort maxCap shuffle (decimal_digits n) handler (Some lg) = Some (Inr (int n))"
proof -
  have "getPort maxCap shuffle (decimal_digits n) handler (Some lg) = Some (Inr (int n))"
    using assms by (simp add: getPort_def Atoi_decimal)
  moreover have "set (shuffle [int s..int e]) = {int s..int e}" using assms(4) by simp
  moreover have "int e \<noteq> maxInt \<longleftrightarrow> int e < maxInt" using assms(2) by (auto simp: maxInt_def)
  ultimately show ?thesis
    using choosePort_loop_Inr [of handler "shuffle [int s..int e]"] choosePort_loop_Inl [of handler "shuffle [int s..int e]"]
    by (auto simp: getPort_range [OF assms(1,2)] choosePort_def Let_def split: sum.splits)
qed

theorem port_is_free_and_in_range_witness:
  "getPort 65536 rev (decimal_digits 37373 @ ''-'' @ decimal_digits 37375) (\<lambda>p. if p = 37374 then None else Some ErrInvalidPortValue)
     (Some \<lparr>isLevelTrace = False\<rparr>) = Some (Inr 37374) \<and>
   getPort 65536 rev (decimal_digits 0) (\<lambda>p. if p = 37374 then None else Some ErrInvalidPortValue) (Some \<lparr>isLevelTrace = False\<rparr>) = Some (Inr 0)"
proof -
  let ?h = "\<lambda>p :: int. if p = 37374 then None else Some ErrInvalidPortValue"
  let ?r = "getPort 65536 rev (decimal_digits 37373 @ ''-'' @ decimal_digits 37375) ?h (Some \<lparr>isLevelTrace = False\<rparr>)"
  note r = port_is_free_and_in_range [of 37373 37375 0 rev 65536 ?h "\<lparr>isLevelTrace = False\<rparr>"]
  have "?r = Some (Inr 37374)"
  proof (cases ?r)
    case None
    then show ?thesis using r [THEN conjunct1] by (simp add: maxInt_def)
  next
    case (Some x)
    show ?thesis
    proof (cases x)
      case (Inl err)
      then have "\<forall>p. 37373 \<le> p \<and> p \<le> 37375 \<longrightarrow> ?h p \<noteq> None" using r [THEN conjunct1] Some by simp
      then show ?thesis by (auto dest: spec [of _ 37374])
    next
      case (Inr p)
      then have "?h p = None" using r [THEN conjunct1] Some by simp
      then show ?thesis using Some Inr by (simp split: if_splits)
    qed
  qed
  then show ?thesis using r [THEN conjunct2] by simp
qed

end
