(* ===== verification/Config.thy ===== *)
theory Config
  imports Prelude
begin

text \<open>
  The configuration structures of \<^verbatim>\<open>p2p/config/config.go\<close>, field by field, and the constants of
  \<^verbatim>\<open>p2p/constants.go\<close> that select an implementation by name.
\<close>

record TCPProtocolConfig =
  ListenAddress :: string
  PreventPortReuse :: bool

record TransportConfig =
  TCP :: TCPProtocolConfig
  QUICAddress :: string
  WebSocketAddress :: string
  WebTransportAddress :: string

record ConnLimitConfig =
  PrefixLength :: int
  ConnCount :: int

record ResourceLimiterConfig =
  rl_Type :: string
  ManualSystemMemoryInMB :: int64
  ManualMaximumFD :: int
  Ipv4ConnLimit :: "ConnLimitConfig list"
  Ipv6ConnLimit :: "ConnLimitConfig list"

record NodeConfig =
  Port :: string
  MaximumExpectedPeerCount :: uint64
  ThresholdMinConnectedPeers :: uint32
  MinNumPeersToWaitForOnBootstrap :: uint32
  Transports :: TransportConfig
  ResourceLimiter :: ResourceLimiterConfig

record KadDhtPeerDiscoveryConfig =
  Enabled :: bool
  kad_Type :: string
  RefreshIntervalInSec :: uint32
  ProtocolIDs :: "string list"
  InitialPeerList :: "string list"
  BucketSize :: uint32
  RoutingTableRefreshIntervalInSec :: uint32

record ShardingConfig =
  TargetPeerCount :: uint32
  MaxIntraShardValidators :: uint32
  MaxCrossShardValidators :: uint32
  MaxIntraShardObservers :: uint32
  MaxCrossShardObservers :: uint32
  MaxSeeders :: uint32
  sharding_Type :: string

record P2PConfig =
  Node :: NodeConfig
  KadDhtPeerDiscovery :: KadDhtPeerDiscoveryConfig
  Sharding :: ShardingConfig

definition ListsSharder :: string where "ListsSharder = ''ListsSharder''"
definition OneListSharder :: string where "OneListSharder = ''OneListSharder''"
definition NilListSharder :: string where "NilListSharder = ''NilListSharder''"

definition ConnectionWatcherTypePrint :: string where "ConnectionWatcherTypePrint = ''print''"
definition ConnectionWatcherTypeDisabled :: string where "ConnectionWatcherTypeDisabled = ''disabled''"
definition ConnectionWatcherTypeEmpty :: string where "ConnectionWatcherTypeEmpty = []"

definition DefaultAutoscaleResourceLimiter :: string where
  "DefaultAutoscaleResourceLimiter = ''default autoscale''"
definition InfiniteResourceLimiter :: string where "InfiniteResourceLimiter = ''infinite''"
definition DefaultWithScaleResourceLimiter :: string where
  "DefaultWithScaleResourceLimiter = ''default with manual scale''"

text \<open>The zero value of the configuration, which Go gives a field that is not set.\<close>

definition zero_P2PConfig :: P2PConfig where
  "zero_P2PConfig = \<lparr>
     Node = \<lparr>Port = [], MaximumExpectedPeerCount = 0, ThresholdMinConnectedPeers = 0,
       MinNumPeersToWaitForOnBootstrap = 0,
       Transports = \<lparr>TCP = \<lparr>ListenAddress = [], PreventPortReuse = False\<rparr>, QUICAddress = [],
         WebSocketAddress = [], WebTransportAddress = []\<rparr>,
       ResourceLimiter = \<lparr>rl_Type = [], ManualSystemMemoryInMB = 0, ManualMaximumFD = 0,
         Ipv4ConnLimit = [], Ipv6ConnLimit = []\<rparr>\<rparr>,
     KadDhtPeerDiscovery = \<lparr>Enabled = False, kad_Type = [], RefreshIntervalInSec = 0, ProtocolIDs = [],
       InitialPeerList = [], BucketSize = 0, RoutingTableRefreshIntervalInSec = 0\<rparr>,
     Sharding = \<lparr>TargetPeerCount = 0, MaxIntraShardValidators = 0, MaxCrossShardValidators = 0,
       MaxIntraShardObservers = 0, MaxCrossShardObservers = 0, MaxSeeders = 0, sharding_Type = []\<rparr>\<rparr>"

end
