(* ===== verification/PeerSorting.thy ===== *)
theory PeerSorting
  imports Prelude
begin

text \<open>
  The sortable slices of \<^verbatim>\<open>p2p/libp2p/networksharding/sorting\<close> and \<^verbatim>\<open>sort.Sort\<close>. The order in which
  \<^verbatim>\<open>sort.Sort\<close> leaves equal elements is not specified by its documentation, so the definitions that
  sort take the function as a parameter; the locale \<open>sorter\<close> states what is documented. The
  insertion sort that \<^verbatim>\<open>sort.Sort\<close> runs on slices of up to twelve elements is modelled on the
  \<^verbatim>\<open>Less\<close> and \<^verbatim>\<open>Swap\<close> methods of the repository and is shown to be an instance.
\<close>

section \<open>The sortable slices\<close>

text \<open>Indexing out of range panics: \<^const>\<open>None\<close>.\<close>

definition slice_Less :: "('a \<Rightarrow> int) \<Rightarrow> 'a list \<Rightarrow> nat \<Rightarrow> nat \<Rightarrow> bool option" where
  "slice_Less key xs i j =
     (if i < length xs \<and> j < length xs then Some (key (xs ! i) < key (xs ! j)) else None)"

definition slice_Swap :: "'a list \<Rightarrow> nat \<Rightarrow> nat \<Rightarrow> 'a list option" where
  "slice_Swap xs i j =
     (if i < length xs \<and> j < length xs then Some (xs[i := xs ! j, j := xs ! i]) else None)"

record PeerDistance =
  pd_ID :: peerid
  Distance :: int

type_synonym PeerDistances = "PeerDistance list"

definition PeerDistances_Len :: "PeerDistances \<Rightarrow> nat" where
  "PeerDistances_Len pd = length pd"

definition PeerDistances_Less :: "PeerDistances \<Rightarrow> nat \<Rightarrow> nat \<Rightarrow> bool option" where
  "PeerDistances_Less pd i j = slice_Less Distance pd i j"

definition PeerDistances_Swap :: "PeerDistances \<Rightarrow> nat \<Rightarrow> nat \<Rightarrow> PeerDistances option" where
  "PeerDistances_Swap pd i j = slice_Swap pd i j"

record SortedID =
  sid_ID :: peerid
  Key :: bytes
  sid_Shard :: uint32
  sid_Distance :: int

record SortedList =
  Ref :: SortedID
  Peers :: "SortedID list"

definition SortedList_Len :: "SortedList \<Rightarrow> nat" where
  "SortedList_Len sl = length (Peers sl)"

definition SortedList_Less :: "SortedList \<Rightarrow> nat \<Rightarrow> nat \<Rightarrow> bool option" where
  "SortedList_Less sl i j = slice_Less sid_Distance (Peers sl) i j"

definition SortedList_Swap :: "SortedList \<Rightarrow> nat \<Rightarrow> nat \<Rightarrow> SortedList option" where
  "SortedList_Swap sl i j = map_option (\<lambda>ps. sl\<lparr>Peers := ps\<rparr>) (slice_Swap (Peers sl) i j)"

text \<open>\<^verbatim>\<open>SortedPeers\<close> sorts the list in place and returns the identifiers; \<open>srt\<close> is \<^verbatim>\<open>sort.Sort\<close>.\<close>

definition SortedPeers :: "(SortedID list \<Rightarrow> SortedID list) \<Rightarrow> SortedList \<Rightarrow> peerid list \<times> SortedList" where
  "SortedPeers srt sl = (let ps = srt (Peers sl) in (map sid_ID ps, sl\<lparr>Peers := ps\<rparr>))"

section \<open>Insertion sort\<close>

text \<open>
  \<^verbatim>\<open>insertionSort\<close> of the package \<^verbatim>\<open>sort\<close>: for each position from the second on, the element is
  swapped down as long as it is less than the one before it.
\<close>

fun insertion_inner :: "('a list \<Rightarrow> nat \<Rightarrow> nat \<Rightarrow> bool option) \<Rightarrow> ('a list \<Rightarrow> nat \<Rightarrow> nat \<Rightarrow> 'a list option)
  \<Rightarrow> 'a list \<Rightarrow> nat \<Rightarrow> 'a list option" where
  "insertion_inner lt swap xs 0 = Some xs"
| "insertion_inner lt swap xs (Suc j) =
     (case lt xs (Suc j) j of
        None \<Rightarrow> None
      | Some b \<Rightarrow>
          (if b then (case swap xs (Suc j) j of
                        None \<Rightarrow> None
                      | Some xs' \<Rightarrow> insertion_inner lt swap xs' j)
           else Some xs))"

fun insertion_outer :: "('a list \<Rightarrow> nat \<Rightarrow> nat \<Rightarrow> bool option) \<Rightarrow> ('a list \<Rightarrow> nat \<Rightarrow> nat \<Rightarrow> 'a list option)
  \<Rightarrow> 'a list \<Rightarrow> nat \<Rightarrow> nat \<Rightarrow> 'a list option" where
  "insertion_outer lt swap xs i 0 = Some xs"
| "insertion_outer lt swap xs i (Suc k) =
     (case insertion_inner lt swap xs i of
        None \<Rightarrow> None
      | Some xs' \<Rightarrow> insertion_outer lt swap xs' (Suc i) k)"

definition insertionSort :: "('a list \<Rightarrow> nat \<Rightarrow> nat \<Rightarrow> bool option) \<Rightarrow> ('a list \<Rightarrow> nat \<Rightarrow> nat \<Rightarrow> 'a list option)
  \<Rightarrow> 'a list \<Rightarrow> 'a list option" where
  "insertionSort lt swap xs = insertion_outer lt swap xs 1 (length xs - 1)"

lemma slice_Swap_adjacent:
  "length A = j \<Longrightarrow> slice_Swap (A @ a # v # R) (Suc j) j = Some (A @ v # a # R)"
  by (auto simp: slice_Swap_def nth_append list_update_append split: nat.split)

lemma insertion_inner_sorts:
  "length A = j \<Longrightarrow> sorted (map key A) \<Longrightarrow>
   \<exists>B. insertion_inner (slice_Less key) slice_Swap (A @ v # R) j = Some (B @ R) \<and>
       sorted (map key B) \<and> mset B = mset (v # A)"
proof (induction j arbitrary: A R)
  case 0
  then show ?case by (intro exI [of _ "[v]"]) simp
next
  case (Suc j)
  then obtain A' a where A: "A = A' @ [a]" and j: "length A' = j"
    by (metis length_Suc_conv_rev)
  have le: "slice_Less key (A @ v # R) (Suc j) j = Some (key v < key a)"
    using j by (simp add: A slice_Less_def nth_append)
  show ?case
  proof (cases "key v < key a")
    case True
    from Suc.IH [OF j, of "a # R"] Suc.prems obtain B
      where B: "insertion_inner (slice_Less key) slice_Swap (A' @ v # a # R) j = Some (B @ a # R)"
        "sorted (map key B)" "mset B = mset (v # A')"
      by (auto simp: A sorted_append)
    have "set B = insert v (set A')" using B(3) by (metis set_mset_mset list.simps(15))
    then have "sorted (map key (B @ [a]))"
      using B(2) Suc.prems(2) True by (auto simp: A sorted_append)
    with B True le j show ?thesis
      by (intro exI [of _ "B @ [a]"]) (simp add: A slice_Swap_adjacent)
  next
    case False
    have "sorted (map key (A @ [v]))"
      using Suc.prems(2) False by (auto simp: A sorted_append)
    with False le show ?thesis
      by (intro exI [of _ "A @ [v]"]) simp
  qed
qed

lemma insertion_outer_sorts:
  "length A = i \<Longrightarrow> length R = k \<Longrightarrow> sorted (map key A) \<Longrightarrow>
   \<exists>ys. insertion_outer (slice_Less key) slice_Swap (A @ R) i k = Some ys \<and>
        sorted (map key ys) \<and> mset ys = mset (A @ R)"
proof (induction k arbitrary: A R i)
  case 0
  then show ?case by simp
next
  case (Suc k)
  then obtain v R' where R: "R = v # R'" "length R' = k" by (metis length_Suc_conv)
  from insertion_inner_sorts [OF Suc.prems(1,3), of v R'] obtain B
    where B: "insertion_inner (slice_Less key) slice_Swap (A @ v # R') i = Some (B @ R')"
      "sorted (map key B)" "mset B = mset (v # A)" by blast
  have "length B = Suc i" using B(3) Suc.prems(1) by (metis length_Cons size_mset)
  from Suc.IH [OF this R(2) B(2)] B show ?case by (auto simp: R)
qed

lemma insertionSort_sorts:
  "\<exists>ys. insertionSort (slice_Less key) slice_Swap xs = Some ys \<and> sorted (map key ys) \<and> mset ys = mset xs"
proof (cases xs)
  case Nil
  then show ?thesis by (simp add: insertionSort_def)
next
  case (Cons x R)
  from insertion_outer_sorts [of "[x]" 1 R "length R" key] show ?thesis
    by (simp add: Cons insertionSort_def)
qed

section \<open>The contract of sort.Sort\<close>

text \<open>The result is a permutation and is sorted by the key that \<^verbatim>\<open>Less\<close> compares.\<close>

locale sorter =
  fixes srt :: "'a list \<Rightarrow> 'a list" and key :: "'a \<Rightarrow> int"
  assumes srt_mset: "mset (srt xs) = mset xs"
    and srt_sorted: "sorted (map key (srt xs))"
begin

lemma srt_length: "length (srt xs) = length xs"
  by (metis size_mset srt_mset)

lemma srt_set: "set (srt xs) = set xs"
  by (metis set_mset_mset srt_mset)

lemma srt_split: "mset (take n (srt xs)) + mset (drop n (srt xs)) = mset xs"
  by (metis append_take_drop_id mset_append srt_mset)

lemma srt_take_le_drop:
  assumes "x \<in> set (take n (srt xs))" and "y \<in> set (drop n (srt xs))"
  shows "key x \<le> key y"
proof -
  have "sorted (map key (take n (srt xs) @ drop n (srt xs)))"
    using srt_sorted by simp
  with assms show ?thesis by (simp only: map_append sorted_append) auto
qed

end

definition sort_PeerDistances :: "PeerDistances \<Rightarrow> PeerDistances" where
  "sort_PeerDistances pd =
     (case insertionSort PeerDistances_Less PeerDistances_Swap pd of Some pd' \<Rightarrow> pd' | None \<Rightarrow> pd)"

definition sort_SortedIDs :: "SortedID list \<Rightarrow> SortedID list" where
  "sort_SortedIDs ps =
     (case insertionSort (slice_Less sid_Distance) slice_Swap ps of Some ps' \<Rightarrow> ps' | None \<Rightarrow> ps)"

lemma PeerDistances_methods: "PeerDistances_Less = slice_Less Distance" "PeerDistances_Swap = slice_Swap"
  by (simp_all add: PeerDistances_Less_def PeerDistances_Swap_def fun_eq_iff)

interpretation pd_sorter: sorter sort_PeerDistances Distance
proof
  fix xs
  show "mset (sort_PeerDistances xs) = mset xs" "sorted (map Distance (sort_PeerDistances xs))"
    using insertionSort_sorts [of Distance xs] by (auto simp: sort_PeerDistances_def PeerDistances_methods)
qed

interpretation sid_sorter: sorter sort_SortedIDs sid_Distance
proof
  fix xs
  show "mset (sort_SortedIDs xs) = mset xs" "sorted (map sid_Distance (sort_SortedIDs xs))"
    using insertionSort_sorts [of sid_Distance xs] by (auto simp: sort_SortedIDs_def)
qed

text \<open>\<^verbatim>\<open>SortedPeers\<close> returns every identifier, the nearer ones first.\<close>

lemma SortedPeers_nearest_first:
  assumes "sorter srt sid_Distance"
  shows "mset (fst (SortedPeers srt sl)) = mset (map sid_ID (Peers sl)) \<and>
         sorted (map sid_Distance (Peers (snd (SortedPeers srt sl)))) \<and>
         fst (SortedPeers srt sl) = map sid_ID (Peers (snd (SortedPeers srt sl)))"
  using sorter.srt_mset [OF assms, of "Peers sl"] sorter.srt_sorted [OF assms, of "Peers sl"]
  by (simp add: SortedPeers_def Let_def)

end
