(* ===== verification/NetworkSharding.thy ===== *)
theory NetworkSharding
  imports Config PeerSorting
begin

text \<open>
  The sharders of \<^verbatim>\<open>p2p/libp2p/networksharding\<close>: which of the connected peers are to be evicted.
  \<^verbatim>\<open>listsSharder\<close> splits the peers into six lists, gives each list a quota, lets unused quota flow to
  the following lists and evicts the peers furthest from the own identifier; \<^verbatim>\<open>oneListSharder\<close> has one
  list; \<^verbatim>\<open>nilListSharder\<close> evicts nobody. Parameters: \<open>srt\<close> is \<^verbatim>\<open>sort.Sort\<close>, \<open>Pretty\<close> is
  \<^verbatim>\<open>core.PeerID.Pretty\<close>, \<open>ConvertPeerID\<close> is the SHA-256 based \<^verbatim>\<open>kbucket.ConvertPeerID\<close>, and the shard
  resolver and the preferred peers holder are the functions the code calls on them.
\<close>

section \<open>Distances\<close>

text \<open>\<^verbatim>\<open>bits.OnesCount8\<close>\<close>

definition OnesCount8 :: "byte \<Rightarrow> nat" where
  "OnesCount8 b = length (filter (bit b) [0..<8])"

definition leadingZerosCount :: "nat list" where
  "leadingZerosCount =
     [8, 7, 6, 6, 5, 5, 5, 5] @ replicate 8 4 @ replicate 16 3 @ replicate 32 2 @ replicate 64 1 @ replicate 128 0"

text \<open>
  The loops over the bytes of the first identifier; \<^verbatim>\<open>destBuff[i]\<close> panics when the second one is
  shorter.
\<close>

fun countBits_loop :: "bytes \<Rightarrow> bytes \<Rightarrow> nat \<Rightarrow> nat option" where
  "countBits_loop [] dest cumulatedBits = Some cumulatedBits"
| "countBits_loop (s # src) [] cumulatedBits = None"
| "countBits_loop (s # src) (d # dest) cumulatedBits =
     countBits_loop src dest (cumulatedBits + OnesCount8 (s XOR d))"

definition computeDistanceByCountingBits :: "(peerid \<Rightarrow> bytes) \<Rightarrow> peerid \<Rightarrow> peerid \<Rightarrow> int option" where
  "computeDistanceByCountingBits ConvertPeerID src dest =
     map_option int (countBits_loop (ConvertPeerID src) (ConvertPeerID dest) 0)"

fun log2_loop :: "bytes \<Rightarrow> bytes \<Rightarrow> nat \<Rightarrow> nat option" where
  "log2_loop [] dest val = Some val"
| "log2_loop (s # src) [] val = None"
| "log2_loop (s # src) (d # dest) val =
     (let result = s XOR d; val = val + leadingZerosCount ! unat result
      in if result \<noteq> 0 then Some val else log2_loop src dest val)"

definition computeDistanceLog2Based :: "(peerid \<Rightarrow> bytes) \<Rightarrow> peerid \<Rightarrow> peerid \<Rightarrow> int option" where
  "computeDistanceLog2Based ConvertPeerID src dest =
     map_option (\<lambda>val. int (length (ConvertPeerID src) * 8) - int val)
       (log2_loop (ConvertPeerID src) (ConvertPeerID dest) 0)"

section \<open>Eviction\<close>

definition evict :: "(PeerDistances \<Rightarrow> PeerDistances) \<Rightarrow> PeerDistances \<Rightarrow> int \<Rightarrow> peerid list" where
  "evict srt distances numKeep =
     (let numKeep = (if numKeep < 0 then 0 else numKeep)
      in if int (length distances) \<le> numKeep then []
         else map pd_ID (drop (nat numKeep) (srt distances)))"

fun has :: "peerid \<Rightarrow> peerid list \<Rightarrow> bool" where
  "has pid [] = False"
| "has pid (p # ps) = (if p = pid then True else has pid ps)"

definition computeUsedAndSpare :: "int \<Rightarrow> int \<Rightarrow> int \<times> int" where
  "computeUsedAndSpare existing maximum =
     (if existing < maximum then (existing, maximum - existing) else (maximum, 0))"

section \<open>The lists sharder\<close>

text \<open>
  \<^verbatim>\<open>core.P2PPeerInfo\<close>: the type of the peer and its shard. The Go type is an integer; values other
  than the three named ones fall through every \<^verbatim>\<open>switch\<close> of the code.
\<close>

datatype P2PPeerType = UnknownPeer | ValidatorPeer | ObserverPeer | OtherPeerType int

record P2PPeerInfo =
  PeerType :: P2PPeerType
  ShardID :: uint32

type_synonym PeerShardResolver = "peerid \<Rightarrow> P2PPeerInfo"

record ArgListsSharder =
  PeerResolver :: "PeerShardResolver option"
  SelfPeerId :: peerid
  als_P2pConfig :: P2PConfig
  als_PreferredPeersHolder :: "(peerid \<Rightarrow> bool) option"
  als_Logger :: "logger option"

record listsSharder =
  peerShardResolver :: PeerShardResolver
  ls_selfPeerId :: peerid
  maxPeerCount :: int
  maxIntraShardValidators :: int
  maxCrossShardValidators :: int
  maxIntraShardObservers :: int
  maxCrossShardObservers :: int
  maxSeeders :: int
  maxUnknown :: int
  seeders_list :: "string list"
  computeDistance :: "peerid \<Rightarrow> peerid \<Rightarrow> int option"
  preferredPeersHolder :: "peerid \<Rightarrow> bool"

record peersConnections =
  pc_maxPeerCount :: int
  pc_intraShardValidators :: int
  pc_crossShardValidators :: int
  pc_intraShardObservers :: int
  pc_crossShardObservers :: int
  pc_seeders :: int
  pc_unknown :: int

text \<open>
  The counts of the configuration have 32 bits, so none of the 64-bit sums wraps around.
\<close>

definition processNumConnections :: "ArgListsSharder \<Rightarrow> peersConnections res" where
  "processNumConnections arg =
     (let cfg = Sharding (als_P2pConfig arg);
          peersConn = \<lparr>pc_maxPeerCount = uint (TargetPeerCount cfg),
            pc_intraShardValidators = uint (MaxIntraShardValidators cfg),
            pc_crossShardValidators = uint (MaxCrossShardValidators cfg),
            pc_intraShardObservers = uint (MaxIntraShardObservers cfg),
            pc_crossShardObservers = uint (MaxCrossShardObservers cfg),
            pc_seeders = uint (MaxSeeders cfg), pc_unknown = 0\<rparr>;
          providedPeers = pc_intraShardValidators peersConn + pc_crossShardValidators peersConn +
            pc_intraShardObservers peersConn + pc_crossShardObservers peersConn + pc_seeders peersConn
      in if providedPeers + 1 > pc_maxPeerCount peersConn then Inl ErrInvalidValue
         else Inr (peersConn\<lparr>pc_unknown := pc_maxPeerCount peersConn - providedPeers\<rparr>))"

definition NewListsSharder :: "(peerid \<Rightarrow> bytes) \<Rightarrow> ArgListsSharder \<Rightarrow> listsSharder res" where
  "NewListsSharder ConvertPeerID arg =
     (let cfg = Sharding (als_P2pConfig arg)
      in case PeerResolver arg of
           None \<Rightarrow> Inl ErrNilPeerShardResolver
         | Some resolver \<Rightarrow>
             (if TargetPeerCount cfg < 5 then Inl ErrInvalidValue
              else if MaxIntraShardValidators cfg < 1 then Inl ErrInvalidValue
              else if MaxCrossShardValidators cfg < 1 then Inl ErrInvalidValue
              else if MaxIntraShardObservers cfg < 1 then Inl ErrInvalidValue
              else if MaxCrossShardObservers cfg < 1 then Inl ErrInvalidValue
              else case als_PreferredPeersHolder arg of
                None \<Rightarrow> Inl ErrNilPreferredPeersHolder
              | Some preferred \<Rightarrow>
                  (if als_Logger arg = None then Inl ErrNilLogger
                   else case processNumConnections arg of
                     Inl err \<Rightarrow> Inl err
                   | Inr peersConn \<Rightarrow>
                       Inr \<lparr>peerShardResolver = resolver, ls_selfPeerId = SelfPeerId arg,
                            maxPeerCount = pc_maxPeerCount peersConn,
                            maxIntraShardValidators = pc_intraShardValidators peersConn,
                            maxCrossShardValidators = pc_crossShardValidators peersConn,
                            maxIntraShardObservers = pc_intraShardObservers peersConn,
                            maxCrossShardObservers = pc_crossShardObservers peersConn,
                            maxSeeders = pc_seeders peersConn, maxUnknown = pc_unknown peersConn,
                            seeders_list = [], computeDistance = computeDistanceByCountingBits ConvertPeerID,
                            preferredPeersHolder = preferred\<rparr>)))"

fun IsSeeder_loop :: "string list \<Rightarrow> string \<Rightarrow> bool" where
  "IsSeeder_loop [] strPretty = False"
| "IsSeeder_loop (seeder # rest) strPretty =
     (if strings_Contains seeder strPretty then True else IsSeeder_loop rest strPretty)"

definition IsSeeder :: "(peerid \<Rightarrow> string) \<Rightarrow> listsSharder \<Rightarrow> peerid \<Rightarrow> bool" where
  "IsSeeder Pretty ls pid = IsSeeder_loop (seeders_list ls) (Pretty pid)"

definition SetSeeders :: "string list \<Rightarrow> listsSharder \<Rightarrow> listsSharder" where
  "SetSeeders addresses ls = ls\<lparr>seeders_list := addresses\<rparr>"

definition SetPeerShardResolver :: "PeerShardResolver option \<Rightarrow> listsSharder \<Rightarrow> p2p_error option \<times> listsSharder" where
  "SetPeerShardResolver psp ls =
     (case psp of None \<Rightarrow> (Some ErrNilPeerShardResolver, ls) | Some r \<Rightarrow> (None, ls\<lparr>peerShardResolver := r\<rparr>))"

text \<open>The keys of the Go map of lists, and the map itself.\<close>

datatype list_key =
    intraShardValidators | intraShardObservers | crossShardValidators | crossShardObservers | seeders | unknown

type_synonym peer_lists = "list_key \<Rightarrow> PeerDistances"

fun splitPeerIds_loop ::
  "(peerid \<Rightarrow> string) \<Rightarrow> listsSharder \<Rightarrow> P2PPeerInfo \<Rightarrow> peerid list \<Rightarrow> peer_lists \<Rightarrow> peer_lists option" where
  "splitPeerIds_loop Pretty ls selfPeerInfo [] m = Some m"
| "splitPeerIds_loop Pretty ls selfPeerInfo (p # peers) m =
     (case computeDistance ls p (ls_selfPeerId ls) of
        None \<Rightarrow> None
      | Some dist \<Rightarrow>
          (let pd = \<lparr>pd_ID = p, Distance = dist\<rparr>;
               add = (\<lambda>k. m(k := m k @ [pd]));
               peerInfo = peerShardResolver ls p
           in if IsSeeder Pretty ls p then splitPeerIds_loop Pretty ls selfPeerInfo peers (add seeders)
              else if preferredPeersHolder ls p then splitPeerIds_loop Pretty ls selfPeerInfo peers m
              else if PeerType peerInfo = UnknownPeer
              then splitPeerIds_loop Pretty ls selfPeerInfo peers (add unknown)
              else if ShardID peerInfo \<noteq> ShardID selfPeerInfo
              then splitPeerIds_loop Pretty ls selfPeerInfo peers
                     (case PeerType peerInfo of
                        ValidatorPeer \<Rightarrow> add crossShardValidators
                      | ObserverPeer \<Rightarrow> add crossShardObservers
                      | _ \<Rightarrow> m)
              else splitPeerIds_loop Pretty ls selfPeerInfo peers
                     (case PeerType peerInfo of
                        ValidatorPeer \<Rightarrow> add intraShardValidators
                      | ObserverPeer \<Rightarrow> add intraShardObservers
                      | _ \<Rightarrow> m)))"

definition splitPeerIds :: "(peerid \<Rightarrow> string) \<Rightarrow> listsSharder \<Rightarrow> peerid list \<Rightarrow> peer_lists option" where
  "splitPeerIds Pretty ls peers =
     splitPeerIds_loop Pretty ls (peerShardResolver ls (ls_selfPeerId ls)) peers (\<lambda>_. [])"

definition ListsSharder_ComputeEvictionList ::
  "(PeerDistances \<Rightarrow> PeerDistances) \<Rightarrow> (peerid \<Rightarrow> string) \<Rightarrow> listsSharder \<Rightarrow> peerid list \<Rightarrow> peerid list option" where
  "ListsSharder_ComputeEvictionList srt Pretty ls pidList =
     (case splitPeerIds Pretty ls pidList of
        None \<Rightarrow> None
      | Some peerDistances \<Rightarrow>
          (let existing = (\<lambda>k. int (length (peerDistances k)));
               (numIntraShardValidators, remaining) =
                 computeUsedAndSpare (existing intraShardValidators) (maxIntraShardValidators ls);
               (numCrossShardValidators, remaining) =
                 computeUsedAndSpare (existing crossShardValidators) (maxCrossShardValidators ls + remaining);
               (numIntraShardObservers, remaining) =
                 computeUsedAndSpare (existing intraShardObservers) (maxIntraShardObservers ls + remaining);
               (numCrossShardObservers, remaining) =
                 computeUsedAndSpare (existing crossShardObservers) (maxCrossShardObservers ls + remaining);
               (numSeeders, _) = computeUsedAndSpare (existing seeders) (maxSeeders ls);
               (numUnknown, _) = computeUsedAndSpare (existing unknown) (maxUnknown ls + remaining)
           in Some (evict srt (peerDistances intraShardValidators) numIntraShardValidators
                  @ evict srt (peerDistances crossShardValidators) numCrossShardValidators
                  @ evict srt (peerDistances intraShardObservers) numIntraShardObservers
                  @ evict srt (peerDistances crossShardObservers) numCrossShardObservers
                  @ evict srt (peerDistances seeders) numSeeders
                  @ evict srt (peerDistances unknown) numUnknown)))"

definition ListsSharder_Has :: "peerid \<Rightarrow> peerid list \<Rightarrow> bool" where
  "ListsSharder_Has pid list = has pid list"

section \<open>The one list sharder\<close>

record oneListSharder =
  ols_selfPeerId :: peerid
  ols_maxPeerCount :: int
  ols_computeDistance :: "peerid \<Rightarrow> peerid \<Rightarrow> int option"

definition NewOneListSharder :: "(peerid \<Rightarrow> bytes) \<Rightarrow> peerid \<Rightarrow> int \<Rightarrow> oneListSharder res" where
  "NewOneListSharder ConvertPeerID selfPeerId maxCount =
     (if maxCount < 3 then Inl ErrInvalidValue
      else Inr \<lparr>ols_selfPeerId = selfPeerId, ols_maxPeerCount = maxCount,
                ols_computeDistance = computeDistanceByCountingBits ConvertPeerID\<rparr>)"

fun convertList :: "oneListSharder \<Rightarrow> peerid list \<Rightarrow> PeerDistances \<Rightarrow> PeerDistances option" where
  "convertList ols [] list = Some list"
| "convertList ols (p # peers) list =
     (case ols_computeDistance ols p (ols_selfPeerId ols) of
        None \<Rightarrow> None
      | Some dist \<Rightarrow> convertList ols peers (list @ [\<lparr>pd_ID = p, Distance = dist\<rparr>]))"

definition OneListSharder_ComputeEvictionList ::
  "(PeerDistances \<Rightarrow> PeerDistances) \<Rightarrow> oneListSharder \<Rightarrow> peerid list \<Rightarrow> peerid list option" where
  "OneListSharder_ComputeEvictionList srt ols pidList =
     (case convertList ols pidList [] of
        None \<Rightarrow> None
      | Some list \<Rightarrow> Some (evict srt list (ols_maxPeerCount ols)))"

definition OneListSharder_Has :: "peerid \<Rightarrow> peerid list \<Rightarrow> bool" where
  "OneListSharder_Has pid list = has pid list"

text \<open>Seeders and the shard resolver play no part in the one list sharder and in the nil list sharder.\<close>

definition OneListSharder_IsSeeder :: "oneListSharder \<Rightarrow> peerid \<Rightarrow> bool" where
  [simp]: "OneListSharder_IsSeeder ols pid = False"

definition OneListSharder_SetSeeders :: "string list \<Rightarrow> oneListSharder \<Rightarrow> oneListSharder" where
  [simp]: "OneListSharder_SetSeeders addresses ols = ols"

definition OneListSharder_SetPeerShardResolver :: "PeerShardResolver option \<Rightarrow> oneListSharder \<Rightarrow> p2p_error option \<times> oneListSharder" where
  [simp]: "OneListSharder_SetPeerShardResolver psp ols = (None, ols)"

section \<open>The nil list sharder and the factory\<close>

definition NilListSharder_ComputeEvictionList :: "peerid list \<Rightarrow> peerid list option" where
  "NilListSharder_ComputeEvictionList pidList = Some []"

definition NilListSharder_Has :: "peerid \<Rightarrow> peerid list \<Rightarrow> bool" where
  "NilListSharder_Has pid list = False"

datatype Sharder = ListsSharderImpl listsSharder | OneListSharderImpl oneListSharder | NilListSharderImpl

definition NewSharder :: "(peerid \<Rightarrow> bytes) \<Rightarrow> ArgListsSharder \<Rightarrow> Sharder res" where
  "NewSharder ConvertPeerID arg =
     (if als_Logger arg = None then Inl ErrNilLogger
      else
        (let shardingType = sharding_Type (Sharding (als_P2pConfig arg))
         in if shardingType = ListsSharder then map_sum id ListsSharderImpl (NewListsSharder ConvertPeerID arg)
            else if shardingType = OneListSharder
            then map_sum id OneListSharderImpl
                   (NewOneListSharder ConvertPeerID (SelfPeerId arg) (uint (TargetPeerCount (Sharding (als_P2pConfig arg)))))
            else if shardingType = NilListSharder then Inr NilListSharderImpl
            else Inl ErrInvalidValue))"

text \<open>The methods of the interface \<^verbatim>\<open>p2p.Sharder\<close>, dispatched on the implementation.\<close>

fun Sharder_ComputeEvictionList ::
  "(PeerDistances \<Rightarrow> PeerDistances) \<Rightarrow> (peerid \<Rightarrow> string) \<Rightarrow> Sharder \<Rightarrow> peerid list \<Rightarrow> peerid list option" where
  "Sharder_ComputeEvictionList srt Pretty (ListsSharderImpl ls) pids = ListsSharder_ComputeEvictionList srt Pretty ls pids"
| "Sharder_ComputeEvictionList srt Pretty (OneListSharderImpl ols) pids = OneListSharder_ComputeEvictionList srt ols pids"
| "Sharder_ComputeEvictionList srt Pretty NilListSharderImpl pids = NilListSharder_ComputeEvictionList pids"

fun Sharder_Has :: "Sharder \<Rightarrow> peerid \<Rightarrow> peerid list \<Rightarrow> bool" where
  "Sharder_Has (ListsSharderImpl ls) pid list = ListsSharder_Has pid list"
| "Sharder_Has (OneListSharderImpl ols) pid list = OneListSharder_Has pid list"
| "Sharder_Has NilListSharderImpl pid list = NilListSharder_Has pid list"

fun Sharder_IsSeeder :: "(peerid \<Rightarrow> string) \<Rightarrow> Sharder \<Rightarrow> peerid \<Rightarrow> bool" where
  "Sharder_IsSeeder Pretty (ListsSharderImpl ls) pid = IsSeeder Pretty ls pid"
| "Sharder_IsSeeder Pretty (OneListSharderImpl ols) pid = OneListSharder_IsSeeder ols pid"
| "Sharder_IsSeeder Pretty NilListSharderImpl pid = False"

fun Sharder_SetSeeders :: "string list \<Rightarrow> Sharder \<Rightarrow> Sharder" where
  "Sharder_SetSeeders addresses (ListsSharderImpl ls) = ListsSharderImpl (SetSeeders addresses ls)"
| "Sharder_SetSeeders addresses (OneListSharderImpl ols) = OneListSharderImpl (OneListSharder_SetSeeders addresses ols)"
| "Sharder_SetSeeders addresses NilListSharderImpl = NilListSharderImpl"

fun Sharder_SetPeerShardResolver :: "PeerShardResolver option \<Rightarrow> Sharder \<Rightarrow> p2p_error option \<times> Sharder" where
  "Sharder_SetPeerShardResolver psp (ListsSharderImpl ls) = map_prod id ListsSharderImpl (SetPeerShardResolver psp ls)"
| "Sharder_SetPeerShardResolver psp (OneListSharderImpl ols) = map_prod id OneListSharderImpl (OneListSharder_SetPeerShardResolver psp ols)"
| "Sharder_SetPeerShardResolver psp NilListSharderImpl = (None, NilListSharderImpl)"

section \<open>The split and the quotas\<close>

text \<open>The list a peer belongs to; \<^const>\<open>None\<close> for a preferred peer that is not a seeder.\<close>

definition peer_class :: "(peerid \<Rightarrow> string) \<Rightarrow> listsSharder \<Rightarrow> peerid \<Rightarrow> list_key option" where
  "peer_class Pretty ls p =
     (let info = peerShardResolver ls p; self = peerShardResolver ls (ls_selfPeerId ls)
      in if IsSeeder Pretty ls p then Some seeders
         else if preferredPeersHolder ls p then None
         else case PeerType info of
                UnknownPeer \<Rightarrow> Some unknown
              | ValidatorPeer \<Rightarrow> Some (if ShardID info = ShardID self then intraShardValidators else crossShardValidators)
              | ObserverPeer \<Rightarrow> Some (if ShardID info = ShardID self then intraShardObservers else crossShardObservers)
              | OtherPeerType _ \<Rightarrow> None)"

definition self_distance :: "listsSharder \<Rightarrow> peerid \<Rightarrow> int" where
  "self_distance ls p = (case computeDistance ls p (ls_selfPeerId ls) of Some d \<Rightarrow> d | None \<Rightarrow> 0)"

definition with_distance :: "listsSharder \<Rightarrow> peerid \<Rightarrow> PeerDistance" where
  "with_distance ls p = \<lparr>pd_ID = p, Distance = self_distance ls p\<rparr>"

definition class_members :: "(peerid \<Rightarrow> string) \<Rightarrow> listsSharder \<Rightarrow> peerid list \<Rightarrow> list_key \<Rightarrow> peerid list" where
  "class_members Pretty ls pids k = filter (\<lambda>p. peer_class Pretty ls p = Some k) pids"

definition class_count :: "(peerid \<Rightarrow> string) \<Rightarrow> listsSharder \<Rightarrow> peerid list \<Rightarrow> list_key \<Rightarrow> int" where
  "class_count Pretty ls pids k = int (length (class_members Pretty ls pids k))"

lemma with_distance_simps [simp]: "pd_ID (with_distance ls p) = p" "Distance (with_distance ls p) = self_distance ls p"
  by (simp_all add: with_distance_def)

lemma splitPeerIds_loop_spec:
  assumes "\<And>p. p \<in> set pids \<Longrightarrow> computeDistance ls p (ls_selfPeerId ls) \<noteq> None"
  shows "splitPeerIds_loop Pretty ls (peerShardResolver ls (ls_selfPeerId ls)) pids m =
         Some (\<lambda>k. m k @ map (with_distance ls) (class_members Pretty ls pids k))"
  using assms
proof (induction pids arbitrary: m)
  case Nil
  show ?case by (simp add: class_members_def)
next
  case (Cons p pids)
  from Cons.prems obtain d where d: "computeDistance ls p (ls_selfPeerId ls) = Some d" by fastforce
  then have wd: "\<lparr>pd_ID = p, Distance = d\<rparr> = with_distance ls p"
    by (simp add: with_distance_def self_distance_def)
  have IH: "\<And>m. splitPeerIds_loop Pretty ls (peerShardResolver ls (ls_selfPeerId ls)) pids m =
      Some (\<lambda>k. m k @ map (with_distance ls) (class_members Pretty ls pids k))"
    using Cons by simp
  show ?case
    by (cases "PeerType (peerShardResolver ls p)")
      (auto simp: d wd IH Let_def peer_class_def class_members_def fun_eq_iff)
qed

text \<open>
  The quota of each list: the configured maximum and, but for the seeders, what the list before it
  leaves unused. \<open>n\<close> is the number of peers in each list.
\<close>

fun quota_rank :: "list_key \<Rightarrow> nat" where
  "quota_rank intraShardValidators = 0"
| "quota_rank crossShardValidators = 1"
| "quota_rank intraShardObservers = 2"
| "quota_rank crossShardObservers = 3"
| "quota_rank seeders = 0"
| "quota_rank unknown = 4"

function quota :: "listsSharder \<Rightarrow> (list_key \<Rightarrow> int) \<Rightarrow> list_key \<Rightarrow> int" where
  "quota ls n intraShardValidators = maxIntraShardValidators ls"
| "quota ls n crossShardValidators = maxCrossShardValidators ls +
     max 0 (quota ls n intraShardValidators - n intraShardValidators)"
| "quota ls n intraShardObservers = maxIntraShardObservers ls +
     max 0 (quota ls n crossShardValidators - n crossShardValidators)"
| "quota ls n crossShardObservers = maxCrossShardObservers ls +
     max 0 (quota ls n intraShardObservers - n intraShardObservers)"
| "quota ls n seeders = maxSeeders ls"
| "quota ls n unknown = maxUnknown ls + max 0 (quota ls n crossShardObservers - n crossShardObservers)"
  by pat_completeness auto
termination
  by (relation "measure (\<lambda>(ls, n, k). quota_rank k)") simp_all

definition sharder_wf :: "listsSharder \<Rightarrow> bool" where
  "sharder_wf ls \<longleftrightarrow>
     0 \<le> maxIntraShardValidators ls \<and> 0 \<le> maxCrossShardValidators ls \<and> 0 \<le> maxIntraShardObservers ls \<and>
     0 \<le> maxCrossShardObservers ls \<and> 0 \<le> maxSeeders ls \<and> 0 \<le> maxUnknown ls \<and>
     maxIntraShardValidators ls + maxCrossShardValidators ls + maxIntraShardObservers ls +
       maxCrossShardObservers ls + maxSeeders ls + maxUnknown ls = maxPeerCount ls"

lemma quota_nonneg: "sharder_wf ls \<Longrightarrow> 0 \<le> quota ls n k"
  by (cases k) (simp_all add: sharder_wf_def)

lemma computeUsedAndSpare_min: "computeUsedAndSpare e m = (min e m, max 0 (m - e))"
  by (simp add: computeUsedAndSpare_def)

definition eviction_order :: "list_key list" where
  "eviction_order = [intraShardValidators, crossShardValidators, intraShardObservers, crossShardObservers, seeders, unknown]"

text \<open>The lists are a finite type, enumerated in the order in which peers are evicted from them.\<close>

instantiation list_key :: enum
begin

definition enum_list_key_def: "enum_class.enum = eviction_order"

definition enum_all_list_key_def: "enum_class.enum_all P \<longleftrightarrow> list_all P eviction_order"

definition enum_ex_list_key_def: "enum_class.enum_ex P \<longleftrightarrow> list_ex P eviction_order"

instance
proof
  show UNIV: "UNIV = set (enum_class.enum :: list_key list)"
    unfolding enum_list_key_def eviction_order_def by (auto intro: list_key.exhaust)
  show "distinct (enum_class.enum :: list_key list)" by (simp add: enum_list_key_def eviction_order_def)
  show "enum_class.enum_all P \<longleftrightarrow> Ball UNIV P" "enum_class.enum_ex P \<longleftrightarrow> Bex UNIV P" for P :: "list_key \<Rightarrow> bool"
    unfolding UNIV enum_all_list_key_def enum_ex_list_key_def enum_list_key_def by (simp_all add: list_all_iff list_ex_iff)
qed

end

lemma eviction_order_distinct: "distinct eviction_order"
  using enum_distinct [where 'a = list_key] by (simp add: enum_list_key_def)

lemma eviction_order_all: "k \<in> set eviction_order"
  using enum_UNIV [where 'a = list_key] by (simp add: enum_list_key_def)

lemma sum_eviction_order: "(\<Sum>k\<leftarrow>eviction_order. f k) = (\<Sum>k\<in>UNIV. f k)"
proof -
  have "set eviction_order = UNIV" using eviction_order_all by blast
  then show ?thesis by (simp add: sum_list_distinct_conv_sum_set [OF eviction_order_distinct])
qed

text \<open>Under the quotas no more than the maximum number of peers is kept in all.\<close>

lemma kept_sum_le:
  assumes "sharder_wf ls"
  shows "(\<Sum>k\<leftarrow>eviction_order. min (n k) (quota ls n k)) \<le> maxPeerCount ls"
proof -
  define s where "s k = max 0 (quota ls n k - n k)" for k
  have kept: "min (n k) (quota ls n k) = quota ls n k - s k" for k
    by (simp add: min_def max_def s_def)
  have q: "quota ls n intraShardValidators = maxIntraShardValidators ls"
    "quota ls n crossShardValidators = maxCrossShardValidators ls + s intraShardValidators"
    "quota ls n intraShardObservers = maxIntraShardObservers ls + s crossShardValidators"
    "quota ls n crossShardObservers = maxCrossShardObservers ls + s intraShardObservers"
    "quota ls n seeders = maxSeeders ls"
    "quota ls n unknown = maxUnknown ls + s crossShardObservers"
    unfolding s_def by (rule quota.simps)+
  have "0 \<le> s k" for k by (simp add: s_def)
  from this [of unknown] this [of seeders] assms show ?thesis
    unfolding kept eviction_order_def sharder_wf_def by (simp del: quota.simps add: q)
qed

lemma ListsSharder_ComputeEvictionList_spec:
  assumes "\<And>p. p \<in> set pids \<Longrightarrow> computeDistance ls p (ls_selfPeerId ls) \<noteq> None"
  shows "ListsSharder_ComputeEvictionList srt Pretty ls pids =
    Some (concat (map (\<lambda>k. evict srt (map (with_distance ls) (class_members Pretty ls pids k))
       (min (class_count Pretty ls pids k) (quota ls (class_count Pretty ls pids) k))) eviction_order))"
  using splitPeerIds_loop_spec [OF assms, of pids Pretty]
  by (simp add: ListsSharder_ComputeEvictionList_def splitPeerIds_def computeUsedAndSpare_min eviction_order_def
      class_count_def Let_def)

section \<open>Evicting from one list\<close>

locale peer_sorter = sorter srt Distance for srt :: "PeerDistances \<Rightarrow> PeerDistances"
begin

lemma evict_drop: "evict srt L n = map pd_ID (drop (nat n) (srt L))"
  by (auto simp: evict_def Let_def srt_length nat_le_iff)

lemma evict_length: "int (length (evict srt L n)) = max 0 (int (length L) - max 0 n)"
  by (auto simp: evict_drop srt_length)

lemma evict_subset: "set (evict srt L n) \<subseteq> pd_ID ` set L"
  using set_drop_subset [of "nat n" "srt L"] by (auto simp: evict_drop srt_set)

lemma evict_mset: "mset (evict srt L n) \<subseteq># mset (map pd_ID L)"
proof -
  have "mset (map pd_ID (drop (nat n) (srt L))) \<subseteq># mset (map pd_ID L)"
    using srt_split [of "nat n" L] by (metis image_mset_subseteq_mono mset_map mset_subset_eq_add_right)
  then show ?thesis by (simp only: evict_drop)
qed

lemma evict_kept: "mset (map pd_ID L) - mset (evict srt L n) = mset (map pd_ID (take (nat n) (srt L)))"
proof -
  have "mset (map pd_ID L) = mset (map pd_ID (take (nat n) (srt L))) + mset (evict srt L n)"
    by (metis evict_drop image_mset_union mset_map srt_split)
  then show ?thesis by simp
qed

text \<open>Whoever is kept is at most as far as whoever is evicted.\<close>

lemma evict_nearest:
  assumes "\<And>x. x \<in> set L \<Longrightarrow> Distance x = d (pd_ID x)"
    and "p \<in># mset (map pd_ID L) - mset (evict srt L n)" and "q \<in> set (evict srt L n)"
  shows "d p \<le> d q"
proof -
  from assms(2) obtain x where x: "x \<in> set (take (nat n) (srt L))" "p = pd_ID x"
    unfolding evict_kept by auto
  from assms(3) obtain y where y: "y \<in> set (drop (nat n) (srt L))" "q = pd_ID y"
    unfolding evict_drop by auto
  have "x \<in> set L" "y \<in> set L"
    using x y in_set_takeD in_set_dropD srt_set by fast+
  then show ?thesis
    using srt_take_le_drop [OF x(1) y(1)] assms(1) x y by simp
qed

end

section \<open>Evicting from all the lists\<close>

lemma filter_concat_class:
  assumes "\<And>k p. p \<in> set (E k) \<Longrightarrow> c p = Some k" and "distinct ks" and "k \<in> set ks"
  shows "filter (\<lambda>p. c p = Some k) (concat (map E ks)) = E k"
  using assms(2,3)
proof (induction ks)
  case (Cons j ks)
  have same: "filter (\<lambda>p. c p = Some k) (E k) = E k" by (rule filter_True) (simp add: assms(1))
  have other: "filter (\<lambda>p. c p = Some k) (E i) = []" if "i \<noteq> k" for i
    by (rule filter_False) (use that assms(1) in auto)
  have "filter (\<lambda>p. c p = Some k) (concat (map E ks)) = []" if "k \<notin> set ks"
    using that other by (auto simp: filter_concat) metis
  with Cons same other [of j] show ?case by (cases "j = k") simp_all
qed simp

lemma size_by_class:
  fixes c :: "'a \<Rightarrow> ('k :: enum) option"
  shows "size (filter_mset (\<lambda>p. c p \<noteq> None) M) = (\<Sum>k\<in>UNIV. size (filter_mset (\<lambda>p. c p = Some k) M))"
proof (induction M)
  case (add x M)
  have "size (filter_mset (\<lambda>p. c p = Some k) (add_mset x M)) = size (filter_mset (\<lambda>p. c p = Some k) M) + (if c x = Some k then 1 else 0)" for k
    by simp
  with add.IH show ?case by (cases "c x") (simp_all add: sum.distrib)
qed simp

context peer_sorter
begin

definition evicted_of :: "(peerid \<Rightarrow> string) \<Rightarrow> listsSharder \<Rightarrow> peerid list \<Rightarrow> list_key \<Rightarrow> peerid list" where
  "evicted_of Pretty ls pids k =
     evict srt (map (with_distance ls) (class_members Pretty ls pids k))
       (min (class_count Pretty ls pids k) (quota ls (class_count Pretty ls pids) k))"

lemma evicted_of_class: "p \<in> set (evicted_of Pretty ls pids k) \<Longrightarrow> peer_class Pretty ls p = Some k"
  using evict_subset by (fastforce simp: evicted_of_def Let_def class_members_def)

lemma evicted_of_mset: "mset (evicted_of Pretty ls pids k) \<subseteq># mset (class_members Pretty ls pids k)"
proof -
  have "map pd_ID (map (with_distance ls) (class_members Pretty ls pids k)) = class_members Pretty ls pids k"
    by (simp add: o_def)
  then show ?thesis using evict_mset unfolding evicted_of_def Let_def by metis
qed

lemma evicted_of_length:
  assumes "sharder_wf ls"
  shows "int (length (evicted_of Pretty ls pids k)) =
         max 0 (class_count Pretty ls pids k - quota ls (class_count Pretty ls pids) k)"
  using quota_nonneg [OF assms, of "class_count Pretty ls pids" k]
  by (simp add: evicted_of_def evict_length class_count_def)

lemma eviction_concat:
  assumes "\<And>p. p \<in> set pids \<Longrightarrow> computeDistance ls p (ls_selfPeerId ls) \<noteq> None"
  shows "ListsSharder_ComputeEvictionList srt Pretty ls pids =
         Some (concat (map (evicted_of Pretty ls pids) eviction_order))"
  using ListsSharder_ComputeEvictionList_spec [OF assms, of pids srt Pretty]
  by (simp add: evicted_of_def [abs_def])

lemma eviction_by_class:
  "filter (\<lambda>p. peer_class Pretty ls p = Some k) (concat (map (evicted_of Pretty ls pids) eviction_order)) =
   evicted_of Pretty ls pids k"
  by (rule filter_concat_class) (auto simp: evicted_of_class eviction_order_distinct eviction_order_all)

lemma eviction_mset: "mset (concat (map (evicted_of Pretty ls pids) eviction_order)) \<subseteq># mset pids"
  (is "mset ?ev \<subseteq># _")
proof (rule mset_subset_eqI)
  fix p
  show "count (mset ?ev) p \<le> count (mset pids) p"
  proof (cases "peer_class Pretty ls p")
    case None
    then have "p \<notin> set ?ev" by (auto dest: evicted_of_class)
    then have "count (mset ?ev) p = 0" by (metis count_mset_0_iff)
    then show ?thesis by (simp only: le0)
  next
    case (Some k)
    have "count (mset ?ev) p = count (mset (filter (\<lambda>p. peer_class Pretty ls p = Some k) ?ev)) p"
      using Some by (simp add: mset_filter)
    also have "\<dots> = count (mset (evicted_of Pretty ls pids k)) p"
      by (simp only: eviction_by_class)
    also have "\<dots> \<le> count (mset (class_members Pretty ls pids k)) p"
      by (rule mset_subset_eq_count [OF evicted_of_mset])
    also have "\<dots> \<le> count (mset pids) p"
      by (simp add: class_members_def mset_filter)
    finally show ?thesis .
  qed
qed

lemma kept_of_class:
  "filter_mset (\<lambda>p. peer_class Pretty ls p = Some k)
     (mset pids - mset (concat (map (evicted_of Pretty ls pids) eviction_order))) =
   mset (class_members Pretty ls pids k) - mset (evicted_of Pretty ls pids k)"
  by (simp only: filter_diff_mset class_members_def eviction_by_class flip: mset_filter)

lemma kept_of_class_size:
  assumes "sharder_wf ls"
  shows "int (size (mset (class_members Pretty ls pids k) - mset (evicted_of Pretty ls pids k))) =
         min (class_count Pretty ls pids k) (quota ls (class_count Pretty ls pids) k)"
  using evicted_of_length [OF assms, of Pretty pids k] size_mset_mono [OF evicted_of_mset [of Pretty ls pids k]]
  by (simp add: size_Diff_submset [OF evicted_of_mset] class_count_def)

lemma kept_total:
  assumes "sharder_wf ls"
  shows "int (size (filter_mset (\<lambda>p. peer_class Pretty ls p \<noteq> None)
           (mset pids - mset (concat (map (evicted_of Pretty ls pids) eviction_order))))) \<le> maxPeerCount ls"
proof -
  have "int (size (filter_mset (\<lambda>p. peer_class Pretty ls p \<noteq> None)
           (mset pids - mset (concat (map (evicted_of Pretty ls pids) eviction_order))))) =
        (\<Sum>k\<leftarrow>eviction_order. min (class_count Pretty ls pids k) (quota ls (class_count Pretty ls pids) k))"
    unfolding size_by_class kept_of_class by (simp add: sum_eviction_order kept_of_class_size [OF assms])
  with kept_sum_le [OF assms] show ?thesis by metis
qed

lemma kept_nearer:
  assumes "p \<in># mset (class_members Pretty ls pids k) - mset (evicted_of Pretty ls pids k)"
    and "q \<in> set (evicted_of Pretty ls pids k)"
  shows "self_distance ls p \<le> self_distance ls q"
proof (rule evict_nearest [of "map (with_distance ls) (class_members Pretty ls pids k)" "self_distance ls"])
  show "q \<in> set (evict srt (map (with_distance ls) (class_members Pretty ls pids k))
      (min (class_count Pretty ls pids k) (quota ls (class_count Pretty ls pids) k)))"
    using assms(2) by (simp only: evicted_of_def)
  show "p \<in># mset (map pd_ID (map (with_distance ls) (class_members Pretty ls pids k))) -
      mset (evict srt (map (with_distance ls) (class_members Pretty ls pids k))
        (min (class_count Pretty ls pids k) (quota ls (class_count Pretty ls pids) k)))"
    using assms(1) by (simp add: evicted_of_def o_def)
qed auto

end

section \<open>The distances are defined\<close>

lemma countBits_loop_defined:
  "length src = length dest \<Longrightarrow> countBits_loop src dest acc = Some (acc + (\<Sum>(s, d)\<leftarrow>zip src dest. OnesCount8 (s XOR d)))"
  by (induction src dest acc rule: countBits_loop.induct) simp_all

lemma distance_defined:
  "length (ConvertPeerID p) = length (ConvertPeerID q) \<Longrightarrow> computeDistanceByCountingBits ConvertPeerID p q \<noteq> None"
  by (simp add: computeDistanceByCountingBits_def countBits_loop_defined)

lemma NewListsSharder_wf:
  assumes "NewListsSharder ConvertPeerID arg = Inr ls"
  shows "sharder_wf ls" "computeDistance ls = computeDistanceByCountingBits ConvertPeerID"
    "maxPeerCount ls = uint (TargetPeerCount (Sharding (als_P2pConfig arg)))"
    "maxSeeders ls = uint (MaxSeeders (Sharding (als_P2pConfig arg)))"
    "als_PreferredPeersHolder arg = Some (preferredPeersHolder ls)"
  using assms
  by (auto simp: NewListsSharder_def processNumConnections_def Let_def sharder_wf_def
      split: option.splits if_splits sum.splits)

text \<open>The calls that change a sharder keep the quotas, the distance and the preferred peers.\<close>

inductive sharder_reach :: "listsSharder \<Rightarrow> listsSharder \<Rightarrow> bool" for ls0 where
  new: "sharder_reach ls0 ls0"
| set_seeders: "sharder_reach ls0 ls \<Longrightarrow> sharder_reach ls0 (SetSeeders addrs ls)"
| set_resolver: "sharder_reach ls0 ls \<Longrightarrow> sharder_reach ls0 (snd (SetPeerShardResolver psp ls))"

lemma sharder_wf_SetSeeders [wf_intros]: "sharder_wf (SetSeeders addrs ls) = sharder_wf ls"
  by (simp add: SetSeeders_def sharder_wf_def)

lemma sharder_wf_SetPeerShardResolver [wf_intros]: "sharder_wf (snd (SetPeerShardResolver psp ls)) = sharder_wf ls"
  by (simp add: SetPeerShardResolver_def sharder_wf_def split: option.split)

lemma sharder_reach_keeps:
  assumes "sharder_reach ls0 ls"
  shows "sharder_wf ls = sharder_wf ls0 \<and> computeDistance ls = computeDistance ls0 \<and>
         maxPeerCount ls = maxPeerCount ls0 \<and> maxSeeders ls = maxSeeders ls0 \<and>
         preferredPeersHolder ls = preferredPeersHolder ls0 \<and> ls_selfPeerId ls = ls_selfPeerId ls0"
  using assms
  by (induction rule: sharder_reach.induct)
    (simp_all add: sharder_wf_SetSeeders sharder_wf_SetPeerShardResolver,
     simp_all add: SetSeeders_def SetPeerShardResolver_def split: option.split)

lemma lists_distance_defined:
  assumes "NewListsSharder ConvertPeerID arg = Inr ls0" and "sharder_reach ls0 ls"
    and "\<And>p. length (ConvertPeerID p) = 32"
  shows "computeDistance ls p (ls_selfPeerId ls) \<noteq> None"
  using NewListsSharder_wf(2) [OF assms(1)] sharder_reach_keeps [OF assms(2)] assms(3)
  by (simp add: distance_defined)

lemma reach_wf: "NewListsSharder ConvertPeerID arg = Inr ls0 \<Longrightarrow> sharder_reach ls0 ls \<Longrightarrow> sharder_wf ls"
  using NewListsSharder_wf(1) sharder_reach_keeps by blast

section \<open>The interface of the sharders\<close>

text \<open>What the users of a sharder rely on: only peers of the given list are proposed for eviction.\<close>

locale sharder =
  fixes evl :: "peerid list \<Rightarrow> peerid list option" and hasp :: "peerid \<Rightarrow> peerid list \<Rightarrow> bool"
  assumes evl_subset: "evl pids = Some ev \<Longrightarrow> mset ev \<subseteq># mset pids"
    and hasp_in: "hasp p ev \<Longrightarrow> p \<in> set ev"
begin

lemma evl_length: "evl pids = Some ev \<Longrightarrow> length ev \<le> length pids"
  using evl_subset by (metis size_mset size_mset_mono)

lemma evl_in: "evl pids = Some ev \<Longrightarrow> p \<in> set ev \<Longrightarrow> p \<in> set pids"
  using evl_subset by (metis mset_subset_eqD set_mset_mset)

lemma rejected_was_listed: "evl pids = Some ev \<Longrightarrow> hasp p ev \<Longrightarrow> p \<in> set pids"
  using evl_in hasp_in by blast

end

lemma has_iff [simp]: "has pid list \<longleftrightarrow> pid \<in> set list"
  by (induction list) auto

lemma convertList_Some:
  "convertList ols pids acc = Some L \<Longrightarrow> \<exists>L'. L = acc @ L' \<and> map pd_ID L' = pids \<and>
     (\<forall>x \<in> set L'. ols_computeDistance ols (pd_ID x) (ols_selfPeerId ols) = Some (Distance x))"
  by (induction pids arbitrary: acc) (fastforce split: option.splits)+

lemma convertList_defined:
  "(\<And>p. ols_computeDistance ols p (ols_selfPeerId ols) \<noteq> None) \<Longrightarrow> convertList ols pids acc \<noteq> None"
  by (induction pids arbitrary: acc) (auto split: option.split)

lemma splitPeerIds_loop_None:
  "p \<in> set pids \<Longrightarrow> computeDistance ls p (ls_selfPeerId ls) = None \<Longrightarrow> splitPeerIds_loop Pretty ls info pids m = None"
  by (induction pids arbitrary: m) (auto split: option.split P2PPeerType.split simp: Let_def)


context peer_sorter
begin

lemma one_list_evicted:
  assumes "OneListSharder_ComputeEvictionList srt ols pids = Some ev"
  obtains L where "ev = evict srt L (ols_maxPeerCount ols)" "map pd_ID L = pids"
    "\<And>x. x \<in> set L \<Longrightarrow> ols_computeDistance ols (pd_ID x) (ols_selfPeerId ols) = Some (Distance x)"
  using assms convertList_Some [of ols pids "[]"]
  by (auto simp: OneListSharder_ComputeEvictionList_def split: option.splits)

lemma lists_evicted:
  assumes "ListsSharder_ComputeEvictionList srt Pretty ls pids = Some ev"
  shows "ev = concat (map (evicted_of Pretty ls pids) eviction_order)"
proof -
  have "computeDistance ls p (ls_selfPeerId ls) \<noteq> None" if "p \<in> set pids" for p
  proof
    assume "computeDistance ls p (ls_selfPeerId ls) = None"
    with that have "splitPeerIds Pretty ls pids = None"
      by (simp add: splitPeerIds_def splitPeerIds_loop_None)
    with assms show False by (simp add: ListsSharder_ComputeEvictionList_def)
  qed
  from eviction_concat [OF this, of pids Pretty] assms show ?thesis by simp
qed

lemma one_list_subset: "OneListSharder_ComputeEvictionList srt ols pids = Some ev \<Longrightarrow> mset ev \<subseteq># mset pids"
  using evict_mset by (metis one_list_evicted)

end

sublocale peer_sorter \<subseteq> lists: sharder "ListsSharder_ComputeEvictionList srt Pretty ls" ListsSharder_Has for Pretty ls
proof
  show "ListsSharder_ComputeEvictionList srt Pretty ls pids = Some ev \<Longrightarrow> mset ev \<subseteq># mset pids" for pids ev
    using lists_evicted eviction_mset by metis
qed (simp add: ListsSharder_Has_def)

sublocale peer_sorter \<subseteq> one: sharder "OneListSharder_ComputeEvictionList srt ols" OneListSharder_Has for ols
proof
  show "OneListSharder_ComputeEvictionList srt ols pids = Some ev \<Longrightarrow> mset ev \<subseteq># mset pids" for pids ev
    by (rule one_list_subset)
qed (simp add: OneListSharder_Has_def)

sublocale peer_sorter \<subseteq> any: sharder "Sharder_ComputeEvictionList srt Pretty sh" "Sharder_Has sh" for Pretty sh
proof
  show "Sharder_ComputeEvictionList srt Pretty sh pids = Some ev \<Longrightarrow> mset ev \<subseteq># mset pids" for pids ev
    using lists.evl_subset one.evl_subset
    by (cases sh) (auto simp: NilListSharder_ComputeEvictionList_def)
  show "Sharder_Has sh p ev \<Longrightarrow> p \<in> set ev" for p ev
    using lists.hasp_in one.hasp_in by (cases sh) (auto simp: NilListSharder_Has_def)
qed

interpretation go_sort: peer_sorter sort_PeerDistances ..

interpretation nil_sharder: sharder NilListSharder_ComputeEvictionList NilListSharder_Has
  by unfold_locales (simp_all add: NilListSharder_ComputeEvictionList_def NilListSharder_Has_def)

section \<open>The distances as metrics\<close>

lemma OnesCount8_card: "OnesCount8 b = card {i. i < 8 \<and> bit b i}"
proof -
  have "{i. i < 8 \<and> bit b i} = set (filter (bit b) [0..<8])" by auto
  then show ?thesis by (metis OnesCount8_def distinct_card distinct_filter distinct_upt)
qed

lemma OnesCount8_le: "OnesCount8 b \<le> 8"
  unfolding OnesCount8_def using length_filter_le [of "bit b" "[0..<8]"] by simp

lemma OnesCount8_0_iff: "OnesCount8 b = 0 \<longleftrightarrow> b = 0"
proof -
  have "(\<forall>i < 8. \<not> bit b i) \<longleftrightarrow> b = 0"
    by (metis bit_0_eq bit_imp_le_length bit_word_eqI bot_apply bot_bool_def
        len_num1 len_bit0 mult_2 not_le numeral_Bit0 one_add_one nat_1_add_1 bit_word.rep_eq)
  then show ?thesis by (auto simp: OnesCount8_card)
qed

lemma OnesCount8_triangle: "OnesCount8 (a XOR c) \<le> OnesCount8 (a XOR b) + OnesCount8 (b XOR c)"
proof -
  have "{i. i < 8 \<and> bit (a XOR c) i} \<subseteq> {i. i < 8 \<and> bit (a XOR b) i} \<union> {i. i < 8 \<and> bit (b XOR c) i}"
    by (auto simp: bit_xor_iff)
  then have "card {i. i < 8 \<and> bit (a XOR c) i} \<le> card ({i. i < 8 \<and> bit (a XOR b) i} \<union> {i. i < 8 \<and> bit (b XOR c) i})"
    by (intro card_mono) auto
  also have "\<dots> \<le> OnesCount8 (a XOR b) + OnesCount8 (b XOR c)"
    unfolding OnesCount8_card by (rule card_Un_le)
  finally show ?thesis by (simp add: OnesCount8_card)
qed

definition hamming :: "bytes \<Rightarrow> bytes \<Rightarrow> nat" where
  "hamming xs ys = (\<Sum>(x, y)\<leftarrow>zip xs ys. OnesCount8 (x XOR y))"

lemma hamming_simps [simp]: "hamming [] ys = 0" "hamming (x # xs) (y # ys) = OnesCount8 (x XOR y) + hamming xs ys"
  by (simp_all add: hamming_def)

lemma distance_hamming:
  "length (ConvertPeerID p) = length (ConvertPeerID q) \<Longrightarrow>
   computeDistanceByCountingBits ConvertPeerID p q = Some (int (hamming (ConvertPeerID p) (ConvertPeerID q)))"
  by (simp add: computeDistanceByCountingBits_def countBits_loop_defined hamming_def)

lemma hamming_sym: "length xs = length ys \<Longrightarrow> hamming xs ys = hamming ys xs"
  by (induction xs ys rule: list_induct2) (simp_all add: xor.commute)

lemma word_xor_0_iff: "(x :: 'a :: len word) XOR y = 0 \<longleftrightarrow> x = y"
  by (metis xor.assoc xor_self_eq xor.right_neutral xor.left_neutral)

lemma hamming_0_iff: "length xs = length ys \<Longrightarrow> hamming xs ys = 0 \<longleftrightarrow> xs = ys"
  by (induction xs ys rule: list_induct2) (simp_all add: OnesCount8_0_iff word_xor_0_iff)

lemma hamming_le: "length xs = length ys \<Longrightarrow> hamming xs ys \<le> 8 * length xs"
proof (induction xs ys rule: list_induct2)
  case (Cons x xs y ys)
  then show ?case using OnesCount8_le [of "x XOR y"] by simp
qed simp

lemma hamming_triangle:
  "length xs = length ys \<Longrightarrow> length ys = length zs \<Longrightarrow> hamming xs zs \<le> hamming xs ys + hamming ys zs"
proof (induction xs ys zs rule: list_induct3)
  case (Cons x xs y ys z zs)
  then show ?case using OnesCount8_triangle [of x z y] by simp
qed simp

text \<open>
  The logarithmic distance is the bit length of the number that the XOR of the two identifiers is in
  big-endian order: the number of leading zero bits is looked up byte by byte.
\<close>

fun big_endian :: "bytes \<Rightarrow> nat" where
  "big_endian [] = 0"
| "big_endian (b # bs) = unat b * 256 ^ length bs + big_endian bs"

definition xor_bytes :: "bytes \<Rightarrow> bytes \<Rightarrow> bytes" where
  "xor_bytes xs ys = map2 (XOR) xs ys"

lemma big_endian_less: "big_endian bs < 256 ^ length bs"
proof (induction bs)
  case (Cons b bs)
  have "unat b < 256" by (rule unat_byte_less)
  then have "unat b * 256 ^ length bs \<le> 255 * (256 ^ length bs :: nat)" by simp
  with Cons show ?case by (simp only: big_endian.simps list.size add_Suc_right add_0_right power_Suc)
qed simp

lemma leadingZerosCount_table:
  "\<forall>v \<in> set [1..<256]. leadingZerosCount ! v \<le> 7 \<and> 2 ^ (7 - leadingZerosCount ! v) \<le> v \<and> v < 2 ^ (8 - leadingZerosCount ! v)"
  by code_simp

lemma leadingZerosCount_byte:
  fixes b :: byte
  assumes "b \<noteq> 0"
  shows "leadingZerosCount ! unat b \<le> 7" "2 ^ (7 - leadingZerosCount ! unat b) \<le> unat b"
    "unat b < 2 ^ (8 - leadingZerosCount ! unat b)"
proof -
  have "unat b \<in> set [1..<256]"
    using assms unat_byte_less [of b] by (simp add: unat_gt_0 Suc_le_eq)
  with leadingZerosCount_table show "leadingZerosCount ! unat b \<le> 7" "2 ^ (7 - leadingZerosCount ! unat b) \<le> unat b"
    "unat b < 2 ^ (8 - leadingZerosCount ! unat b)"
    by blast+
qed

lemma leading_byte_bounds:
  fixes v :: nat
  assumes "z \<le> 7" "2 ^ (7 - z) \<le> v" "v < 2 ^ (8 - z)" "r < 256 ^ n"
  shows "2 ^ (8 * Suc n - z - 1) \<le> v * 256 ^ n + r \<and> v * 256 ^ n + r < 2 ^ (8 * Suc n - z)"
proof -
  have p: "(256 :: nat) ^ n = 2 ^ (8 * n)" by (simp add: power_mult)
  have e: "8 * Suc n - z - 1 = (7 - z) + 8 * n" "8 * Suc n - z = (8 - z) + 8 * n"
    using assms(1) by simp_all
  have e1: "(2 :: nat) ^ (8 * Suc n - z - 1) = 2 ^ (7 - z) * 256 ^ n"
    unfolding p by (simp only: e(1) power_add)
  have e2: "(2 :: nat) ^ (8 * Suc n - z) = 2 ^ (8 - z) * 256 ^ n"
    unfolding p by (simp only: e(2) power_add)
  have "2 ^ (7 - z) * 256 ^ n \<le> v * 256 ^ n" using assms(2) by simp
  moreover have "v * 256 ^ n + 256 ^ n \<le> 2 ^ (8 - z) * 256 ^ n"
    using mult_le_mono1 [of "Suc v" "2 ^ (8 - z)" "256 ^ n"] assms(3) by simp
  ultimately show ?thesis
    using assms(4) unfolding e1 e2 by linarith
qed

lemma log2_loop_bit_length:
  "length src = length dest \<Longrightarrow>
   \<exists>z \<le> 8 * length src. log2_loop src dest acc = Some (acc + z) \<and>
     big_endian (xor_bytes src dest) < 2 ^ (8 * length src - z) \<and>
     (z < 8 * length src \<longrightarrow> 2 ^ (8 * length src - z - 1) \<le> big_endian (xor_bytes src dest))"
proof (induction src dest arbitrary: acc rule: list_induct2)
  case Nil
  show ?case by (simp add: xor_bytes_def)
next
  case (Cons s src d dest)
  show ?case
  proof (cases "s XOR d = 0")
    case True
    have 8: "leadingZerosCount ! 0 = 8" by (simp add: leadingZerosCount_def)
    from Cons.IH [of "acc + 8"] obtain z where
      "z \<le> 8 * length src" "log2_loop src dest (acc + 8) = Some (acc + 8 + z)"
      "big_endian (xor_bytes src dest) < 2 ^ (8 * length src - z)"
      "z < 8 * length src \<longrightarrow> 2 ^ (8 * length src - z - 1) \<le> big_endian (xor_bytes src dest)" by blast
    with True 8 show ?thesis
      by (intro exI [of _ "8 + z"]) (simp add: Let_def xor_bytes_def)
  next
    case False
    let ?z = "leadingZerosCount ! unat (s XOR d)"
    have len: "length (xor_bytes src dest) = length src" using Cons.hyps by (simp add: xor_bytes_def)
    have be: "big_endian (xor_bytes (s # src) (d # dest)) =
        unat (s XOR d) * 256 ^ length src + big_endian (xor_bytes src dest)"
      using len by (simp add: xor_bytes_def)
    show ?thesis
      using leading_byte_bounds [OF leadingZerosCount_byte [OF False]] big_endian_less [of "xor_bytes src dest"]
        leadingZerosCount_byte(1) [OF False] False len
      by (intro exI [of _ ?z]) (simp add: Let_def be)
  qed
qed

lemma peer_class_counted:
  "peer_class Pretty ls p \<noteq> None \<longleftrightarrow> IsSeeder Pretty ls p \<or>
     (\<not> preferredPeersHolder ls p \<and> PeerType (peerShardResolver ls p) \<in> {UnknownPeer, ValidatorPeer, ObserverPeer})"
  by (cases "PeerType (peerShardResolver ls p)") (auto simp: peer_class_def Let_def)

lemma lists_sharder_limits:
  assumes "NewListsSharder ConvertPeerID arg = Inr ls0" and "sharder_reach ls0 ls"
    and "\<forall>p. length (ConvertPeerID p) = 32" and "sorter srt Distance"
  shows "\<exists>ev. ListsSharder_ComputeEvictionList srt Pretty ls pids = Some ev \<and> mset ev \<subseteq># mset pids \<and>
           (\<forall>p \<in> set ev. peer_class Pretty ls p \<noteq> None) \<and>
           int (size (filter_mset (\<lambda>p. peer_class Pretty ls p \<noteq> None) (mset pids - mset ev)))
             \<le> uint (TargetPeerCount (Sharding (als_P2pConfig arg))) \<and>
           int (size (filter_mset (IsSeeder Pretty ls) (mset pids - mset ev)))
             \<le> uint (MaxSeeders (Sharding (als_P2pConfig arg)))"
proof -
  have srt: "peer_sorter srt" using assms(4) by (simp add: peer_sorter_def)
  have wf: "sharder_wf ls" by (rule reach_wf [OF assms(1,2)])
  let ?ev = "concat (map (peer_sorter.evicted_of srt Pretty ls pids) eviction_order)"
  have ev: "ListsSharder_ComputeEvictionList srt Pretty ls pids = Some ?ev"
    by (rule peer_sorter.eviction_concat [OF srt]) (use lists_distance_defined [OF assms(1,2)] assms(3) in blast)
  have "peer_class Pretty ls p \<noteq> None" if "p \<in> set ?ev" for p
    using that peer_sorter.evicted_of_class [OF srt] by fastforce
  moreover have "IsSeeder Pretty ls = (\<lambda>p. peer_class Pretty ls p = Some seeders)"
    by (auto simp: peer_class_def Let_def fun_eq_iff split: if_splits P2PPeerType.splits)
  then have "int (size (filter_mset (IsSeeder Pretty ls) (mset pids - mset ?ev))) \<le> maxSeeders ls"
    using peer_sorter.kept_of_class_size [OF srt wf, of Pretty pids seeders]
    by (simp add: peer_sorter.kept_of_class [OF srt] del: mset_concat filter_diff_mset)
  ultimately show ?thesis
    using ev peer_sorter.eviction_mset [OF srt, of Pretty ls pids] peer_sorter.kept_total [OF srt wf, of Pretty pids]
      NewListsSharder_wf [OF assms(1)] sharder_reach_keeps [OF assms(2)]
    by (intro exI [of _ ?ev]) (simp del: mset_concat set_concat)
qed

section \<open>Properties\<close>

definition example_sharding :: ArgListsSharder where
  "example_sharding = \<lparr>PeerResolver = Some (\<lambda>p. \<lparr>PeerType = UnknownPeer, ShardID = 0\<rparr>), SelfPeerId = [0],
     als_P2pConfig = zero_P2PConfig\<lparr>Sharding := \<lparr>TargetPeerCount = 6, MaxIntraShardValidators = 1,
       MaxCrossShardValidators = 1, MaxIntraShardObservers = 1, MaxCrossShardObservers = 1, MaxSeeders = 1,
       sharding_Type = ListsSharder\<rparr>\<rparr>,
     als_PreferredPeersHolder = Some (\<lambda>p. p = [9]), als_Logger = Some \<lparr>isLevelTrace = False\<rparr>\<rparr>"

definition example_convert :: "peerid \<Rightarrow> bytes" where
  "example_convert p = take 32 (p @ replicate 32 0)"

definition example_lists :: listsSharder where
  "example_lists = \<lparr>peerShardResolver = (\<lambda>p. \<lparr>PeerType = UnknownPeer, ShardID = 0\<rparr>), ls_selfPeerId = [0],
     maxPeerCount = 6, maxIntraShardValidators = 1, maxCrossShardValidators = 1, maxIntraShardObservers = 1,
     maxCrossShardObservers = 1, maxSeeders = 1, maxUnknown = 1, seeders_list = [],
     computeDistance = computeDistanceByCountingBits example_convert, preferredPeersHolder = (\<lambda>p. p = [9])\<rparr>"

lemma example_lists_new: "NewListsSharder example_convert example_sharding = Inr example_lists"
  by (simp add: NewListsSharder_def processNumConnections_def example_sharding_def example_lists_def Let_def)

lemma example_convert_32: "\<forall>p. length (example_convert p) = 32"
  by (simp add: example_convert_def min_def)

text \<open>
  C8. A lists sharder that was created from a configuration, whatever seeders and resolvers are set
  later, never panics and proposes only peers of the given list. The peers it counts are the seeders and the peers that
  are not preferred and have a known type; the others (preferred peers that are no seeders, and peers of another type)
  are exempt: they are never proposed, and there is no limit on their number. With the proposed peers gone, the counted
  ones stay within the target peer count and the seeders within their own limit.
\<close>

theorem eviction_within_limits:
  fixes Pretty :: "peerid \<Rightarrow> string"
  assumes "NewListsSharder ConvertPeerID arg = Inr ls0" and "sharder_reach ls0 ls"
    and "\<forall>p. length (ConvertPeerID p) = 32" and "sorter srt Distance"
  defines "counted \<equiv> \<lambda>p. IsSeeder Pretty ls p \<or>
    (\<not> preferredPeersHolder ls p \<and> PeerType (peerShardResolver ls p) \<in> {UnknownPeer, ValidatorPeer, ObserverPeer})"
  shows "\<exists>ev. ListsSharder_ComputeEvictionList srt Pretty ls pids = Some ev \<and> mset ev \<subseteq># mset pids \<and>
           (\<forall>p \<in> set ev. counted p) \<and>
           int (size (filter_mset counted (mset pids - mset ev))) \<le> uint (TargetPeerCount (Sharding (als_P2pConfig arg))) \<and>
           int (size (filter_mset (IsSeeder Pretty ls) (mset pids - mset ev)))
             \<le> uint (MaxSeeders (Sharding (als_P2pConfig arg)))"
  using lists_sharder_limits [OF assms(1-4)] unfolding counted_def peer_class_counted .

theorem eviction_within_limits_witness:
  "\<exists>ev. ListsSharder_ComputeEvictionList sort_PeerDistances (\<lambda>p. ''x'') example_lists
          [[1], [3], [7], [9], [15], [2], [4], [31]] = Some ev \<and> [9] \<notin> set ev"
proof -
  from eviction_within_limits [OF example_lists_new sharder_reach.new example_convert_32 pd_sorter.sorter_axioms,
      of "\<lambda>p. ''x''" "[[1], [3], [7], [9], [15], [2], [4], [31]]"]
  show ?thesis by (fastforce simp: example_lists_def IsSeeder_def)
qed

text \<open>
  C9. Of each of the six lists exactly the surplus over its quota is evicted, where the quota is the
  configured maximum plus what the lists before it leave unused (the seeders excepted), and every
  kept peer of a list is at most as far from the own identifier as every evicted one.
\<close>

theorem eviction_is_furthest_surplus:
  assumes "NewListsSharder ConvertPeerID arg = Inr ls0" and "sharder_reach ls0 ls" and "sorter srt Distance"
    and "ListsSharder_ComputeEvictionList srt Pretty ls pids = Some ev"
  shows "int (length (filter (\<lambda>p. peer_class Pretty ls p = Some k) ev)) =
           max 0 (class_count Pretty ls pids k - quota ls (class_count Pretty ls pids) k) \<and>
         (\<forall>p q. p \<in># mset pids - mset ev \<longrightarrow> q \<in> set ev \<longrightarrow>
            peer_class Pretty ls p = Some k \<longrightarrow> peer_class Pretty ls q = Some k \<longrightarrow>
            self_distance ls p \<le> self_distance ls q)"
proof -
  have srt: "peer_sorter srt" using assms(3) by (simp add: peer_sorter_def)
  have wf: "sharder_wf ls" by (rule reach_wf [OF assms(1,2)])
  note ev = peer_sorter.lists_evicted [OF srt assms(4)]
  have by_class: "filter (\<lambda>p. peer_class Pretty ls p = Some k) ev = peer_sorter.evicted_of srt Pretty ls pids k"
    unfolding ev by (rule peer_sorter.eviction_by_class [OF srt])
  have "self_distance ls p \<le> self_distance ls q"
    if "p \<in># mset pids - mset ev" "q \<in> set ev" "peer_class Pretty ls p = Some k" "peer_class Pretty ls q = Some k" for p q
  proof (rule peer_sorter.kept_nearer [OF srt])
    show "p \<in># mset (class_members Pretty ls pids k) - mset (peer_sorter.evicted_of srt Pretty ls pids k)"
      using that(1,3) peer_sorter.kept_of_class [OF srt, of Pretty ls k pids] unfolding ev
      by (metis (mono_tags, lifting) set_mset_filter mem_Collect_eq)
    have "q \<in> set (filter (\<lambda>p. peer_class Pretty ls p = Some k) ev)" using that by simp
    then show "q \<in> set (peer_sorter.evicted_of srt Pretty ls pids k)" by (simp only: by_class)
  qed
  with by_class peer_sorter.evicted_of_length [OF srt wf] show ?thesis by simp
qed

theorem eviction_is_furthest_surplus_witness:
  "\<exists>ev. ListsSharder_ComputeEvictionList sort_PeerDistances (\<lambda>p. ''x'') example_lists
          [[1], [3], [7], [15], [31], [63]] = Some ev \<and>
        int (length (filter (\<lambda>p. peer_class (\<lambda>p. ''x'') example_lists p = Some unknown) ev)) = 1"
proof -
  let ?pids = "[[1], [3], [7], [15], [31], [63]] :: peerid list"
  have cls: "peer_class (\<lambda>p. ''x'') example_lists p = Some unknown" if "p \<noteq> [9]" for p
    using that by (simp add: peer_class_def example_lists_def IsSeeder_def)
  have count: "class_count (\<lambda>p. ''x'') example_lists ?pids k = (if k = unknown then 6 else 0)" for k
    by (simp add: class_count_def class_members_def cls)
  have "quota example_lists (class_count (\<lambda>p. ''x'') example_lists ?pids) unknown = 5"
    by (simp add: count) (simp add: example_lists_def)
  moreover obtain ev where ev: "ListsSharder_ComputeEvictionList sort_PeerDistances (\<lambda>p. ''x'') example_lists ?pids = Some ev"
    using go_sort.eviction_concat [of ?pids example_lists]
      lists_distance_defined [OF example_lists_new sharder_reach.new] example_convert_32 by metis
  ultimately show ?thesis
    using eviction_is_furthest_surplus [OF example_lists_new sharder_reach.new pd_sorter.sorter_axioms ev, of unknown]
    by (simp add: count)
qed

text \<open>
  C10. The one list sharder keeps as many peers as it is configured for: it evicts exactly the
  surplus, and no evicted peer is nearer than a kept one.
\<close>

theorem one_list_sharder_keeps_nearest:
  assumes "NewOneListSharder ConvertPeerID self maxCount = Inr ols"
    and "\<forall>p. length (ConvertPeerID p) = 32" and "sorter srt Distance"
  shows "\<exists>ev. OneListSharder_ComputeEvictionList srt ols pids = Some ev \<and> mset ev \<subseteq># mset pids \<and>
           int (length ev) = max 0 (int (length pids) - maxCount) \<and>
           (\<forall>p q. p \<in># mset pids - mset ev \<longrightarrow> q \<in> set ev \<longrightarrow>
              hamming (ConvertPeerID p) (ConvertPeerID self) \<le> hamming (ConvertPeerID q) (ConvertPeerID self))"
proof -
  have srt: "peer_sorter srt" using assms(3) by (simp add: peer_sorter_def)
  have ols: "ols = \<lparr>ols_selfPeerId = self, ols_maxPeerCount = maxCount,
      ols_computeDistance = computeDistanceByCountingBits ConvertPeerID\<rparr>" and n: "3 \<le> maxCount"
    using assms(1) by (auto simp: NewOneListSharder_def split: if_splits)
  have dist: "ols_computeDistance ols p (ols_selfPeerId ols) = Some (int (hamming (ConvertPeerID p) (ConvertPeerID self)))" for p
    using assms(2) by (simp add: ols distance_hamming)
  then obtain ev where ev: "OneListSharder_ComputeEvictionList srt ols pids = Some ev"
    using convertList_defined [of ols pids "[]"] by (auto simp: OneListSharder_ComputeEvictionList_def)
  from peer_sorter.one_list_evicted [OF srt ev] obtain L where L: "ev = evict srt L (ols_maxPeerCount ols)" "map pd_ID L = pids"
    "\<And>x. x \<in> set L \<Longrightarrow> ols_computeDistance ols (pd_ID x) (ols_selfPeerId ols) = Some (Distance x)" by blast
  have "length L = length pids" using L(2) by auto
  then have len: "int (length ev) = max 0 (int (length pids) - maxCount)"
    using n by (simp add: L(1) peer_sorter.evict_length [OF srt] ols)
  have "int (hamming (ConvertPeerID p) (ConvertPeerID self)) \<le> int (hamming (ConvertPeerID q) (ConvertPeerID self))"
    if "p \<in># mset pids - mset ev" "q \<in> set ev" for p q
  proof (rule peer_sorter.evict_nearest [OF srt, of L "\<lambda>p. int (hamming (ConvertPeerID p) (ConvertPeerID self))"])
    show "Distance x = int (hamming (ConvertPeerID (pd_ID x)) (ConvertPeerID self))" if "x \<in> set L" for x
      using L(3) [OF that] dist [of "pd_ID x"] by simp
    show "p \<in># mset (map pd_ID L) - mset (evict srt L (ols_maxPeerCount ols))"
      "q \<in> set (evict srt L (ols_maxPeerCount ols))"
      using that by (simp_all only: L(1,2))
  qed
  with ev len peer_sorter.one_list_subset [OF srt ev] show ?thesis by auto
qed

theorem one_list_sharder_keeps_nearest_witness:
  "\<exists>ols ev. NewOneListSharder example_convert [0] 3 = Inr ols \<and>
     OneListSharder_ComputeEvictionList sort_PeerDistances ols [[1], [3], [7], [15], [31]] = Some ev \<and> length ev = 2"
proof -
  let ?ols = "\<lparr>ols_selfPeerId = [0], ols_maxPeerCount = 3, ols_computeDistance = computeDistanceByCountingBits example_convert\<rparr>"
  have new: "NewOneListSharder example_convert [0] 3 = Inr ?ols" by (simp add: NewOneListSharder_def)
  from one_list_sharder_keeps_nearest [OF new example_convert_32 pd_sorter.sorter_axioms, of "[[1], [3], [7], [15], [31]]"] new
  show ?thesis by auto
qed

text \<open>
  C11. The distance by counting bits is a metric on the converted identifiers: it never panics, is
  symmetric, is zero exactly on equal identifiers, obeys the triangle inequality and is at most 256.
\<close>

theorem distance_by_counting_bits_metric:
  assumes "\<forall>p. length (ConvertPeerID p) = 32"
  shows "\<exists>a b c. computeDistanceByCountingBits ConvertPeerID p q = Some a \<and>
           computeDistanceByCountingBits ConvertPeerID q p = Some a \<and>
           computeDistanceByCountingBits ConvertPeerID q r = Some b \<and>
           computeDistanceByCountingBits ConvertPeerID p r = Some c \<and>
           c \<le> a + b \<and> 0 \<le> a \<and> a \<le> 256 \<and> (a = 0 \<longleftrightarrow> ConvertPeerID p = ConvertPeerID q)"
  using assms hamming_sym [of "ConvertPeerID p" "ConvertPeerID q"] hamming_0_iff [of "ConvertPeerID p" "ConvertPeerID q"]
    hamming_le [of "ConvertPeerID p" "ConvertPeerID q"]
    hamming_triangle [of "ConvertPeerID p" "ConvertPeerID q" "ConvertPeerID r"]
  by (simp add: distance_hamming flip: of_nat_add)

theorem distance_by_counting_bits_metric_witness:
  "\<exists>a. computeDistanceByCountingBits example_convert [1] [3] = Some a \<and> 0 < a \<and> a \<le> 256"
proof -
  have "example_convert [1] \<noteq> example_convert [3]" by (simp add: example_convert_def)
  with distance_by_counting_bits_metric [OF example_convert_32, of "[1]" "[3]" "[3]"] show ?thesis
    by (metis order_le_less)
qed

text \<open>
  C12. The logarithmic distance, computed with the table of leading zeros, is the bit length of the
  XOR of the two identifiers read as a big-endian number.
\<close>

theorem log2_distance_is_bit_length:
  assumes "\<forall>p. length (ConvertPeerID p) = 32"
  shows "\<exists>d. computeDistanceLog2Based ConvertPeerID p q = Some (int d) \<and> d \<le> 256 \<and>
           big_endian (xor_bytes (ConvertPeerID p) (ConvertPeerID q)) < 2 ^ d \<and>
           (0 < d \<longrightarrow> 2 ^ (d - 1) \<le> big_endian (xor_bytes (ConvertPeerID p) (ConvertPeerID q)))"
proof -
  have len: "length (ConvertPeerID p) = 32" "length (ConvertPeerID p) = length (ConvertPeerID q)" using assms by simp_all
  from log2_loop_bit_length [OF len(2), of 0] obtain z where "z \<le> 256"
    "log2_loop (ConvertPeerID p) (ConvertPeerID q) 0 = Some z"
    "big_endian (xor_bytes (ConvertPeerID p) (ConvertPeerID q)) < 2 ^ (256 - z)"
    "z < 256 \<longrightarrow> 2 ^ (256 - z - 1) \<le> big_endian (xor_bytes (ConvertPeerID p) (ConvertPeerID q))"
    unfolding len(1) by auto
  then show ?thesis
    by (intro exI [of _ "256 - z"]) (simp add: computeDistanceLog2Based_def len(1))
qed

theorem log2_distance_is_bit_length_witness:
  "\<exists>d. computeDistanceLog2Based example_convert [1] [3] = Some (int d) \<and> d \<le> 256"
  using log2_distance_is_bit_length [OF example_convert_32, of "[1]" "[3]"] by blast

end
