(* ===== verification/NetIP.thy ===== *)
theory NetIP
  imports Prelude
begin

text \<open>
  The part of Go's standard library that the connection string validator uses: whether
  \<^verbatim>\<open>net.ParseIP\<close> accepts a string. It is \<^verbatim>\<open>netip.ParseAddr\<close> without a zone: the first of the
  characters \<^verbatim>\<open>.\<close>, \<^verbatim>\<open>:\<close> and \<^verbatim>\<open>%\<close> selects the IPv4 or the IPv6 parser.
\<close>

section \<open>IPv4\<close>

text \<open>
  The loop over the characters. \<open>start\<close> says that the position is the first one or follows a
  dot; \<open>pos\<close> counts the fields already closed, \<open>val\<close> and \<open>digLen\<close> are the field being read.
\<close>

fun parseIPv4_loop :: "string \<Rightarrow> bool \<Rightarrow> nat \<Rightarrow> nat \<Rightarrow> nat \<Rightarrow> bool" where
  "parseIPv4_loop [] start pos val digLen = (3 \<le> pos)"
| "parseIPv4_loop (c # s) start pos val digLen =
     (if is_digit c then
        (if digLen = 1 \<and> val = 0 then False
         else let val = val * 10 + (of_char c - 48)
              in if 255 < val then False else parseIPv4_loop s False pos val (Suc digLen))
      else if c = CHR ''.'' then
        (if start \<or> s = [] then False
         else if pos = 3 then False
         else parseIPv4_loop s True (Suc pos) 0 0)
      else False)"

definition parseIPv4 :: "string \<Rightarrow> bool" where
  "parseIPv4 s = parseIPv4_loop s True 0 0 0"

section \<open>IPv6\<close>

definition hex_value :: "char \<Rightarrow> nat option" where
  "hex_value c =
     (let n = of_char c :: nat
      in if 48 \<le> n \<and> n \<le> 57 then Some (n - 48)
         else if 97 \<le> n \<and> n \<le> 102 then Some (n - 97 + 10)
         else if 65 \<le> n \<and> n \<le> 70 then Some (n - 65 + 10)
         else None)"

text \<open>One group: the number of hexadecimal digits read and the rest; more than four fail.\<close>

fun hex_group :: "string \<Rightarrow> nat \<Rightarrow> nat \<Rightarrow> (nat \<times> string) option" where
  "hex_group [] off acc = Some (off, [])"
| "hex_group (c # s) off acc =
     (case hex_value c of
        None \<Rightarrow> Some (off, c # s)
      | Some d \<Rightarrow>
          (if 3 < off then None
           else if 65535 < acc * 16 + d then None
           else hex_group s (Suc off) (acc * 16 + d)))"

definition parseIPv6_finish :: "string \<Rightarrow> nat \<Rightarrow> nat option \<Rightarrow> bool" where
  "parseIPv6_finish s i ellipsis \<longleftrightarrow> s = [] \<and> (if i < 16 then ellipsis \<noteq> None else ellipsis = None)"

function parseIPv6_loop :: "string \<Rightarrow> nat \<Rightarrow> nat option \<Rightarrow> bool" where
  "parseIPv6_loop s i ellipsis =
     (if 16 \<le> i then parseIPv6_finish s i ellipsis
      else case hex_group s 0 0 of
        None \<Rightarrow> False
      | Some (off, rest) \<Rightarrow>
          (if off = 0 then False
           else case rest of
             [] \<Rightarrow> parseIPv6_finish [] (i + 2) ellipsis
           | c # s' \<Rightarrow>
               (if c = CHR ''.'' then
                  (if ellipsis = None \<and> i \<noteq> 12 then False
                   else if 16 < i + 4 then False
                   else if \<not> parseIPv4 s then False
                   else parseIPv6_finish [] (i + 4) ellipsis)
                else if c \<noteq> CHR '':'' then False
                else case s' of
                  [] \<Rightarrow> False
                | c' # s'' \<Rightarrow>
                    (if c' = CHR '':'' then
                       (if ellipsis \<noteq> None then False
                        else if s'' = [] then parseIPv6_finish [] (i + 2) (Some (i + 2))
                        else parseIPv6_loop s'' (i + 2) (Some (i + 2)))
                     else parseIPv6_loop s' (i + 2) ellipsis))))"
  by pat_completeness auto
termination
  by (relation "measure (\<lambda>(s, i, e). 16 - i)") auto

declare parseIPv6_loop.simps [simp del]

definition parseIPv6 :: "string \<Rightarrow> bool" where
  "parseIPv6 s =
     (if take 2 s = ''::'' then
        (if drop 2 s = [] then True else parseIPv6_loop (drop 2 s) 0 (Some 0))
      else parseIPv6_loop s 0 None)"

section \<open>The selection\<close>

fun ParseAddr_select :: "string \<Rightarrow> string \<Rightarrow> bool" where
  "ParseAddr_select s [] = False"
| "ParseAddr_select s (c # rest) =
     (if c = CHR ''.'' then parseIPv4 s
      else if c = CHR '':'' then parseIPv6 s
      else if c = CHR ''%'' then False
      else ParseAddr_select s rest)"

definition ParseIP :: "string \<Rightarrow> bool" where
  "ParseIP s \<longleftrightarrow> CHR ''%'' \<notin> set s \<and> ParseAddr_select s s"

lemmas ParseIP_defs = ParseIP_def parseIPv4_def parseIPv6_def parseIPv6_loop.simps
  parseIPv6_finish_def hex_value_def is_digit_def

lemma ParseIP_examples:
  "ParseIP ''127.0.0.1''" "ParseIP ''::1''" "ParseIP ''2001:db8::42:8329''" "ParseIP ''::ffff:192.0.2.1''"
  "\<not> ParseIP ''127.0.0.256''" "\<not> ParseIP ''127.0.0.01''" "\<not> ParseIP ''1.2.3''"
  "\<not> ParseIP ''fe80::1%eth0''" "\<not> ParseIP ''1::2::3''" "\<not> ParseIP []" "\<not> ParseIP ''12345::''"
  by (simp_all add: ParseIP_defs)

section \<open>Every dotted quad is accepted\<close>

text \<open>
  Reading the digits of a number that fits a byte: no digit follows a leading zero and the running
  value never exceeds 255, so the field is read to its end.
\<close>

lemma decimal_digits_small: "n < 10 \<Longrightarrow> decimal_digits n = [char_of (48 + n)]"
  by (subst decimal_digits.simps) simp

lemma decimal_digits_step: "10 \<le> n \<Longrightarrow> decimal_digits n = decimal_digits (n div 10) @ [char_of (48 + n mod 10)]"
  by (subst decimal_digits.simps) simp

lemma is_digit_char_of: "d < 10 \<Longrightarrow> is_digit (char_of (48 + d :: nat))"
  by (simp add: is_digit_def)

lemma parseIPv4_loop_field:
  "n \<le> 255 \<Longrightarrow> parseIPv4_loop (decimal_digits n @ s) True pos 0 0 =
     (\<exists>k. k = length (decimal_digits n) \<and> parseIPv4_loop s False pos n k)"
proof (induction n arbitrary: s rule: decimal_digits.induct)
  case (1 n)
  show ?case
  proof (cases "n < 10")
    case True
    then show ?thesis
      by (simp add: decimal_digits_small is_digit_char_of Let_def)
  next
    case False
    then have d: "decimal_digits n = decimal_digits (n div 10) @ [char_of (48 + n mod 10)]"
      by (simp add: decimal_digits_step)
    have "n div 10 \<noteq> 0" using False by simp
    have "parseIPv4_loop (decimal_digits n @ s) True pos 0 0 =
          parseIPv4_loop (char_of (48 + n mod 10) # s) False pos (n div 10) (length (decimal_digits (n div 10)))"
      using "1.IH" [of "char_of (48 + n mod 10) # s"] "1.prems" False by (simp add: d)
    also have "\<dots> = parseIPv4_loop s False pos n (length (decimal_digits n))"
    proof -
      have "n div 10 * 10 + ((of_char (char_of (48 + n mod 10) :: char) :: nat) - 48) = n" by simp
      with \<open>n div 10 \<noteq> 0\<close> show ?thesis
        using "1.prems" by (simp only: parseIPv4_loop.simps is_digit_char_of Let_def d) simp
    qed
    finally show ?thesis by simp
  qed
qed

lemma parseIPv4_loop_dot:
  "s \<noteq> [] \<Longrightarrow> pos \<noteq> 3 \<Longrightarrow> parseIPv4_loop (CHR ''.'' # s) False pos val k = parseIPv4_loop s True (Suc pos) 0 0"
  by (simp add: is_digit_def)

lemma ParseAddr_select_digits:
  "\<forall>c \<in> set ds. is_digit c \<Longrightarrow> ParseAddr_select s (ds @ CHR ''.'' # rest) = parseIPv4 s"
  by (induction ds) (auto simp: is_digit_def)

definition dotted_quad :: "nat \<Rightarrow> nat \<Rightarrow> nat \<Rightarrow> nat \<Rightarrow> string" where
  "dotted_quad a b c d =
     decimal_digits a @ ''.'' @ decimal_digits b @ ''.'' @ decimal_digits c @ ''.'' @ decimal_digits d"

lemma dotted_quad_ParseIP:
  assumes "a \<le> 255" "b \<le> 255" "c \<le> 255" "d \<le> 255"
  shows "ParseIP (dotted_quad a b c d)"
proof -
  have last: "parseIPv4_loop (decimal_digits d) True 3 0 0"
    using parseIPv4_loop_field [OF assms(4), of "[]" 3] by simp
  have "parseIPv4 (dotted_quad a b c d)"
    unfolding dotted_quad_def parseIPv4_def append_Cons append_Nil
    using last by (simp add: numeral_3_eq_3 parseIPv4_loop_field assms parseIPv4_loop_dot decimal_digits_not_Nil
        del: parseIPv4_loop.simps)
  moreover have "CHR ''%'' \<notin> set (dotted_quad a b c d)"
    using decimal_digits_are_digits [of "CHR ''%''"] by (auto simp: dotted_quad_def is_digit_def)
  ultimately show ?thesis
    by (simp add: ParseIP_def dotted_quad_def ParseAddr_select_digits decimal_digits_are_digits)
qed

end
