(* ===== verification/PeersHolder.thy ===== *)
theory PeersHolder
  imports NetIP
begin

text \<open>
  The preferred peers holder (\<^verbatim>\<open>p2p/peersHolder/peersHolder.go\<close>) and the connection string validator
  (\<^verbatim>\<open>p2p/peersHolder/connectionStringValidator\<close>). A peer first shows up with a connection address,
  is kept as waiting until its shard is known, and is then listed under its shard; its record keeps
  the position in that list. Go maps are HOL maps; a nil slice is the empty list, as the code
  stores nil exactly when a slice becomes empty. A method that panics has the result \<^const>\<open>None\<close>.
\<close>

section \<open>The connection string validator\<close>

text \<open>
  \<^const>\<open>ParseIP\<close> tells whether \<^verbatim>\<open>net.ParseIP\<close> gave a non-nil address. \<^verbatim>\<open>core.NewPeerID\<close> decodes a
  libp2p identifier and is not part of the repository: the parameter \<open>NewPeerID\<close> tells whether it
  gave no error.
\<close>

definition isValidIP :: "string \<Rightarrow> bool" where
  "isValidIP connStr = ParseIP connStr"

definition isValidPeerID :: "(string \<Rightarrow> bool) \<Rightarrow> string \<Rightarrow> bool" where
  "isValidPeerID NewPeerID connStr = NewPeerID connStr"

definition IsValid :: "(string \<Rightarrow> bool) \<Rightarrow> string \<Rightarrow> bool" where
  "IsValid NewPeerID connStr \<longleftrightarrow> isValidIP connStr \<or> isValidPeerID NewPeerID connStr"

section \<open>The holder\<close>

record peerInfo =
  pid :: peerid
  pi_shardID :: uint32

record peerIDData =
  connectionAddress :: string
  shardID :: uint32
  index :: nat

record peersHolder =
  preferredConnAddresses :: "string list"
  connAddrToPeersInfo :: "string \<rightharpoonup> peerInfo list"
  tempPeerIDsWaitingForShard :: "peerid \<rightharpoonup> string"
  peerIDsPerShard :: "uint32 \<rightharpoonup> peerid list"
  peerIDs :: "peerid \<rightharpoonup> peerIDData"

text \<open>The value of a Go map at a key, the zero value (a nil slice) where the key is missing.\<close>

definition slice_at :: "('k \<rightharpoonup> 'a list) \<Rightarrow> 'k \<Rightarrow> 'a list" where
  "slice_at m k = (case m k of Some xs \<Rightarrow> xs | None \<Rightarrow> [])"

fun NewPeersHolder_loop ::
  "(string \<Rightarrow> bool) \<Rightarrow> string list \<Rightarrow> string list \<Rightarrow> (string \<rightharpoonup> peerInfo list)
   \<Rightarrow> (string list \<times> (string \<rightharpoonup> peerInfo list)) res" where
  "NewPeersHolder_loop valid [] conns m = Inr (conns, m)"
| "NewPeersHolder_loop valid (connAddr # rest) conns m =
     (if \<not> valid connAddr then Inl ErrInvalidValue
      else NewPeersHolder_loop valid rest (conns @ [connAddr]) (m(connAddr \<mapsto> [])))"

definition NewPeersHolder ::
  "(string \<Rightarrow> bool) \<Rightarrow> string list \<Rightarrow> peersHolder res" where
  "NewPeersHolder NewPeerID preferredConnectionAddresses =
     (case NewPeersHolder_loop (IsValid NewPeerID) preferredConnectionAddresses [] Map.empty of
        Inl err \<Rightarrow> Inl err
      | Inr (conns, m) \<Rightarrow>
          Inr \<lparr>preferredConnAddresses = conns, connAddrToPeersInfo = m,
               tempPeerIDsWaitingForShard = Map.empty, peerIDsPerShard = Map.empty, peerIDs = Map.empty\<rparr>)"

fun getKnownConnection_loop :: "string list \<Rightarrow> string \<Rightarrow> string" where
  "getKnownConnection_loop [] connectionAddressStr = []"
| "getKnownConnection_loop (a # as) connectionAddressStr =
     (if strings_Contains connectionAddressStr a then a else getKnownConnection_loop as connectionAddressStr)"

definition getKnownConnection :: "peersHolder \<Rightarrow> string \<Rightarrow> string" where
  "getKnownConnection ph connectionAddressStr =
     getKnownConnection_loop (preferredConnAddresses ph) connectionAddressStr"

fun getPeerInfoForPeerID :: "peerid \<Rightarrow> peerInfo list \<Rightarrow> peerInfo option" where
  "getPeerInfoForPeerID peerID [] = None"
| "getPeerInfoForPeerID peerID (pInfo # rest) =
     (if peerID = pid pInfo then Some pInfo else getPeerInfoForPeerID peerID rest)"

text \<open>\<open>AllShardId\<close> is \<^verbatim>\<open>core.AllShardId\<close>, the shard of a peer whose shard is not known yet.\<close>

definition addNewPeerInfoToMaps :: "uint32 \<Rightarrow> peerid \<Rightarrow> string \<Rightarrow> peersHolder \<Rightarrow> peersHolder" where
  "addNewPeerInfoToMaps AllShardId peerID knownConnection ph =
     (let ph = ph\<lparr>tempPeerIDsWaitingForShard := (tempPeerIDsWaitingForShard ph)(peerID \<mapsto> knownConnection)\<rparr>;
          newPeerInfo = \<lparr>pid = peerID, pi_shardID = AllShardId\<rparr>
      in ph\<lparr>connAddrToPeersInfo := (connAddrToPeersInfo ph)
             (knownConnection \<mapsto> slice_at (connAddrToPeersInfo ph) knownConnection @ [newPeerInfo])\<rparr>)"

definition PutConnectionAddress :: "uint32 \<Rightarrow> peerid \<Rightarrow> string \<Rightarrow> peersHolder \<Rightarrow> peersHolder" where
  "PutConnectionAddress AllShardId peerID connAddress ph =
     (let knownConnection = getKnownConnection ph connAddress
      in if knownConnection = [] then ph
         else
           (let peersInfo = slice_at (connAddrToPeersInfo ph) knownConnection
            in if peersInfo = [] then addNewPeerInfoToMaps AllShardId peerID knownConnection ph
               else if getPeerInfoForPeerID peerID peersInfo = None
               then addNewPeerInfoToMaps AllShardId peerID knownConnection ph
               else ph))"

text \<open>The write \<^verbatim>\<open>pInfo.shardID = shardID\<close> through the pointer found by \<open>getPeerInfoForPeerID\<close>.\<close>

fun setShardInPeersInfo :: "peerid \<Rightarrow> uint32 \<Rightarrow> peerInfo list \<Rightarrow> peerInfo list" where
  "setShardInPeersInfo peerID s [] = []"
| "setShardInPeersInfo peerID s (pInfo # rest) =
     (if peerID = pid pInfo then pInfo\<lparr>pi_shardID := s\<rparr> # rest else pInfo # setShardInPeersInfo peerID s rest)"

definition PutShardID :: "peerid \<Rightarrow> uint32 \<Rightarrow> peersHolder \<Rightarrow> peersHolder" where
  "PutShardID peerID s ph =
     (case tempPeerIDsWaitingForShard ph peerID of
        None \<Rightarrow> ph
      | Some knownConnection \<Rightarrow>
          (case connAddrToPeersInfo ph knownConnection of
             None \<Rightarrow> ph
           | Some peersInfo \<Rightarrow>
               (if peersInfo = [] then ph
                else case getPeerInfoForPeerID peerID peersInfo of
                  None \<Rightarrow> ph
                | Some pInfo \<Rightarrow>
                    (let list = slice_at (peerIDsPerShard ph) s @ [peerID]
                     in ph\<lparr>connAddrToPeersInfo := (connAddrToPeersInfo ph)
                             (knownConnection \<mapsto> setShardInPeersInfo peerID s peersInfo),
                           peerIDsPerShard := (peerIDsPerShard ph)(s \<mapsto> list),
                           peerIDs := (peerIDs ph)(peerID \<mapsto>
                             \<lparr>connectionAddress = knownConnection, shardID = s, index = length list - 1\<rparr>),
                           tempPeerIDsWaitingForShard := (tempPeerIDsWaitingForShard ph)(peerID := None)\<rparr>))))"

definition GetPreferred :: "peersHolder \<Rightarrow> (uint32 \<rightharpoonup> peerid list)" where
  "GetPreferred ph = peerIDsPerShard ph"

definition Contains :: "peerid \<Rightarrow> peersHolder \<Rightarrow> bool" where
  "Contains peerID ph \<longleftrightarrow> peerIDs ph peerID \<noteq> None"

definition getShardAndIndexForPeer :: "peerid \<Rightarrow> peersHolder \<Rightarrow> uint32 \<times> nat \<times> bool" where
  "getShardAndIndexForPeer peerID ph =
     (case peerIDs ph peerID of None \<Rightarrow> (0, 0, False) | Some d \<Rightarrow> (shardID d, index d, True))"

definition removePeerFromMapAtIndex :: "uint32 \<Rightarrow> nat \<Rightarrow> peersHolder \<Rightarrow> peersHolder option" where
  "removePeerFromMapAtIndex s i ph =
     (case slice_remove (slice_at (peerIDsPerShard ph) s) i of
        None \<Rightarrow> None
      | Some list \<Rightarrow>
          Some (ph\<lparr>peerIDsPerShard :=
                     (if list = [] then (peerIDsPerShard ph)(s := None) else (peerIDsPerShard ph)(s \<mapsto> list))\<rparr>))"

text \<open>
  \<open>removePeerInfoAtConnectionAddress\<close>: the loop finds the first entry of the peer, which is cut
  out of the slice of the address; the key stays, with a nil slice when it was the only entry.
\<close>

fun indexOfPeerInfo :: "peerid \<Rightarrow> peerInfo list \<Rightarrow> nat option" where
  "indexOfPeerInfo peerID [] = None"
| "indexOfPeerInfo peerID (pInfo # rest) =
     (if peerID = pid pInfo then Some 0 else map_option Suc (indexOfPeerInfo peerID rest))"

definition removePeerFromPeersInfoAtIndex :: "peerInfo list \<Rightarrow> nat \<Rightarrow> string \<Rightarrow> peersHolder \<Rightarrow> peersHolder option" where
  "removePeerFromPeersInfoAtIndex peersInfo i connAddr ph =
     (case slice_remove peersInfo i of
        None \<Rightarrow> None
      | Some peersInfo \<Rightarrow> Some (ph\<lparr>connAddrToPeersInfo := (connAddrToPeersInfo ph)(connAddr \<mapsto> peersInfo)\<rparr>))"

definition removePeerInfoAtConnectionAddress :: "peerid \<Rightarrow> string \<Rightarrow> peersHolder \<Rightarrow> peersHolder option" where
  "removePeerInfoAtConnectionAddress peerID connAddr ph =
     (let peersInfo = slice_at (connAddrToPeersInfo ph) connAddr
      in if peersInfo = [] then Some ph
         else case indexOfPeerInfo peerID peersInfo of
                None \<Rightarrow> Some ph
              | Some i \<Rightarrow> removePeerFromPeersInfoAtIndex peersInfo i connAddr ph)"

definition RemovePeer :: "peerid \<Rightarrow> peersHolder \<Rightarrow> peersHolder option" where
  "RemovePeer peerID ph =
     (case peerIDs ph peerID of
        None \<Rightarrow> Some ph
      | Some pidData \<Rightarrow>
          (let (shard, idx, _) = getShardAndIndexForPeer peerID ph
           in case removePeerFromMapAtIndex shard idx ph of
                None \<Rightarrow> None
              | Some ph \<Rightarrow>
                  (let connAddress = connectionAddress pidData;
                       ph = ph\<lparr>peerIDs := (peerIDs ph)(peerID := None)\<rparr>
                   in case removePeerInfoAtConnectionAddress peerID connAddress ph of
                        None \<Rightarrow> None
                      | Some ph \<Rightarrow>
                          (if tempPeerIDsWaitingForShard ph peerID \<noteq> None
                           then Some (ph\<lparr>tempPeerIDsWaitingForShard :=
                                           (tempPeerIDsWaitingForShard ph)(peerID := None)\<rparr>)
                           else Some ph))))"

definition Clear :: "peersHolder \<Rightarrow> peersHolder" where
  "Clear ph = ph\<lparr>tempPeerIDsWaitingForShard := Map.empty, peerIDsPerShard := Map.empty,
                 peerIDs := Map.empty, connAddrToPeersInfo := Map.empty\<rparr>"

section \<open>Generic facts\<close>

lemma slice_at_upd [simp]: "slice_at (m(k \<mapsto> xs)) k' = (if k' = k then xs else slice_at m k')"
  by (simp add: slice_at_def)

lemma slice_at_del [simp]: "slice_at (m(k := None)) k' = (if k' = k then [] else slice_at m k')"
  by (simp add: slice_at_def)

lemma slice_at_empty [simp]: "slice_at Map.empty k = []"
  by (simp add: slice_at_def)

lemma getPeerInfoForPeerID_None: "getPeerInfoForPeerID p l = None \<longleftrightarrow> p \<notin> pid ` set l"
  by (induction l) auto

lemma getPeerInfoForPeerID_Some: "getPeerInfoForPeerID p l = Some i \<Longrightarrow> i \<in> set l \<and> pid i = p"
  by (induction l) (auto split: if_splits)

lemma map_pid_setShard [simp]: "map pid (setShardInPeersInfo p s l) = map pid l"
  by (induction l) auto

lemma pid_setShard [simp]: "pid ` set (setShardInPeersInfo p s l) = pid ` set l"
  by (metis list.set_map map_pid_setShard)

lemma indexOfPeerInfo_less: "indexOfPeerInfo p l = Some i \<Longrightarrow> i < length l \<and> pid (l ! i) = p"
  by (induction l arbitrary: i) (auto split: if_splits)

lemma getKnownConnection_loop_in:
  "getKnownConnection_loop as c \<noteq> [] \<Longrightarrow>
     getKnownConnection_loop as c \<in> set as \<and> strings_Contains c (getKnownConnection_loop as c)"
  by (induction as) (auto split: if_splits)

lemma removePeerInfo_total:
  "\<exists>m. removePeerInfoAtConnectionAddress p c ph = Some (ph\<lparr>connAddrToPeersInfo := m\<rparr>) \<and>
       (\<forall>k. pid ` set (slice_at m k) \<subseteq> pid ` set (slice_at (connAddrToPeersInfo ph) k)) \<and>
       (\<forall>k q. q \<noteq> p \<longrightarrow> q \<in> pid ` set (slice_at (connAddrToPeersInfo ph) k) \<longrightarrow> q \<in> pid ` set (slice_at m k)) \<and>
       (\<forall>k. distinct (map pid (slice_at (connAddrToPeersInfo ph) k)) \<longrightarrow> distinct (map pid (slice_at m k)))"
proof (cases "indexOfPeerInfo p (slice_at (connAddrToPeersInfo ph) c)")
  case None
  then show ?thesis
    by (intro exI [of _ "connAddrToPeersInfo ph"]) (simp add: removePeerInfoAtConnectionAddress_def Let_def)
next
  case (Some i)
  let ?l = "slice_at (connAddrToPeersInfo ph) c" and ?l' = "take i (slice_at (connAddrToPeersInfo ph) c) @ drop (Suc i) (slice_at (connAddrToPeersInfo ph) c)"
  from indexOfPeerInfo_less [OF Some] have i: "i < length ?l" and at: "pid (?l ! i) = p" by simp_all
  have ne: "?l \<noteq> []" using i by auto
  have split: "?l = take i ?l @ ?l ! i # drop (Suc i) ?l" using i by (rule id_take_nth_drop)
  have set: "set ?l = insert (?l ! i) (set ?l')"
    by (subst split) simp
  have dist: "distinct (map pid ?l) \<Longrightarrow> distinct (map pid ?l')"
    by (subst (asm) split) auto
  show ?thesis
    using i ne Some set at dist
    by (intro exI [of _ "(connAddrToPeersInfo ph)(c \<mapsto> ?l')"])
      (auto simp: removePeerInfoAtConnectionAddress_def removePeerFromPeersInfoAtIndex_def Let_def go_simps)
qed

section \<open>Invariants\<close>

text \<open>
  What every method keeps: no shard has an empty list, a peer is at most once under an address, and
  a peer that waits for its shard is under the address it waits with.
\<close>

definition holder_wf :: "peersHolder \<Rightarrow> bool" where
  "holder_wf ph \<longleftrightarrow>
     (\<forall>s. peerIDsPerShard ph s \<noteq> Some []) \<and>
     (\<forall>c. distinct (map pid (slice_at (connAddrToPeersInfo ph) c))) \<and>
     (\<forall>p c. tempPeerIDsWaitingForShard ph p = Some c \<longrightarrow> p \<in> pid ` set (slice_at (connAddrToPeersInfo ph) c))"

text \<open>The stored position of every preferred peer is where the peer is in the list of its shard.\<close>

definition index_ok :: "peersHolder \<Rightarrow> bool" where
  "index_ok ph \<longleftrightarrow>
     (\<forall>p d. peerIDs ph p = Some d \<longrightarrow>
        index d < length (slice_at (peerIDsPerShard ph) (shardID d)) \<and>
        slice_at (peerIDsPerShard ph) (shardID d) ! index d = p)"

lemma holder_wf_NewPeersHolder:
  assumes "NewPeersHolder NewPeerID addrs = Inr ph"
  shows "holder_wf ph \<and> index_ok ph \<and> preferredConnAddresses ph = addrs \<and> (\<forall>p. \<not> Contains p ph)"
proof -
  have loop: "NewPeersHolder_loop v as conns m = Inr (conns', m') \<Longrightarrow>
          conns' = conns @ as \<and> ((\<forall>k. slice_at m k = []) \<longrightarrow> (\<forall>k. slice_at m' k = []))"
    for v as conns conns' m m'
    by (induction as arbitrary: conns m) (fastforce split: if_splits)+
  from assms obtain conns m
    where l: "NewPeersHolder_loop (IsValid NewPeerID) addrs [] Map.empty = Inr (conns, m)"
      and ph: "ph = \<lparr>preferredConnAddresses = conns, connAddrToPeersInfo = m,
        tempPeerIDsWaitingForShard = Map.empty, peerIDsPerShard = Map.empty, peerIDs = Map.empty\<rparr>"
    by (auto simp: NewPeersHolder_def split: sum.splits)
  from loop [OF l] show ?thesis
    by (simp add: ph holder_wf_def index_ok_def Contains_def)
qed

lemma holder_wf_PutConnectionAddress [wf_intros]:
  "holder_wf ph \<Longrightarrow> holder_wf (PutConnectionAddress all p c ph)"
  by (fastforce simp: PutConnectionAddress_def addNewPeerInfoToMaps_def holder_wf_def Let_def
      getPeerInfoForPeerID_None)

lemma index_ok_PutConnectionAddress [wf_intros]:
  "index_ok ph \<Longrightarrow> index_ok (PutConnectionAddress all p c ph)"
  by (simp add: PutConnectionAddress_def addNewPeerInfoToMaps_def index_ok_def Let_def)

lemma PutShardID_waiting:
  assumes wf: "holder_wf ph" and wait: "tempPeerIDsWaitingForShard ph p = Some c"
  shows "PutShardID p s ph =
     (let list = slice_at (peerIDsPerShard ph) s @ [p]
      in ph\<lparr>connAddrToPeersInfo := (connAddrToPeersInfo ph)
              (c \<mapsto> setShardInPeersInfo p s (slice_at (connAddrToPeersInfo ph) c)),
            peerIDsPerShard := (peerIDsPerShard ph)(s \<mapsto> list),
            peerIDs := (peerIDs ph)(p \<mapsto> \<lparr>connectionAddress = c, shardID = s, index = length list - 1\<rparr>),
            tempPeerIDsWaitingForShard := (tempPeerIDsWaitingForShard ph)(p := None)\<rparr>)"
proof -
  from wf wait have "p \<in> pid ` set (slice_at (connAddrToPeersInfo ph) c)"
    by (simp add: holder_wf_def)
  then obtain l where "connAddrToPeersInfo ph c = Some l" "l \<noteq> []" "getPeerInfoForPeerID p l \<noteq> None"
    by (cases "connAddrToPeersInfo ph c") (fastforce simp: slice_at_def getPeerInfoForPeerID_None)+
  with wait show ?thesis
    by (auto simp: PutShardID_def slice_at_def Let_def)
qed

lemma PutShardID_not_waiting: "tempPeerIDsWaitingForShard ph p = None \<Longrightarrow> PutShardID p s ph = ph"
  by (simp add: PutShardID_def)

lemma holder_wf_PutShardID [wf_intros]: "holder_wf ph \<Longrightarrow> holder_wf (PutShardID p s ph)"
  by (cases "tempPeerIDsWaitingForShard ph p")
    (auto simp: PutShardID_not_waiting PutShardID_waiting Let_def holder_wf_def)

lemma index_ok_PutShardID [wf_intros]:
  "holder_wf ph \<Longrightarrow> index_ok ph \<Longrightarrow> index_ok (PutShardID p s ph)"
  by (cases "tempPeerIDsWaitingForShard ph p")
    (auto simp: PutShardID_not_waiting PutShardID_waiting Let_def index_ok_def nth_append less_Suc_eq)

lemma holder_wf_Clear [wf_intros]: "holder_wf (Clear ph)" and index_ok_Clear [wf_intros]: "index_ok (Clear ph)"
  by (simp_all add: Clear_def holder_wf_def index_ok_def)

text \<open>A removal that does not panic: what it leaves of the shard list and of the records.\<close>

lemma RemovePeer_Some:
  assumes "peerIDs ph p = Some d"
    and "index d < length (slice_at (peerIDsPerShard ph) (shardID d))"
  defines "l \<equiv> slice_at (peerIDsPerShard ph) (shardID d)"
  shows "\<exists>ph'. RemovePeer p ph = Some ph' \<and>
           (\<forall>s. slice_at (peerIDsPerShard ph') s =
              (if s = shardID d then take (index d) l @ drop (Suc (index d)) l else slice_at (peerIDsPerShard ph) s)) \<and>
           peerIDs ph' = (peerIDs ph)(p := None) \<and>
           tempPeerIDsWaitingForShard ph' = (tempPeerIDsWaitingForShard ph)(p := None) \<and>
           preferredConnAddresses ph' = preferredConnAddresses ph \<and>
           (holder_wf ph \<longrightarrow> holder_wf ph')"
proof -
  let ?l' = "take (index d) l @ drop (Suc (index d)) l"
  let ?m = "if ?l' = [] then (peerIDsPerShard ph)(shardID d := None) else (peerIDsPerShard ph)(shardID d \<mapsto> ?l')"
  let ?ph1 = "ph\<lparr>peerIDsPerShard := ?m, peerIDs := (peerIDs ph)(p := None)\<rparr>"
  have rm: "removePeerFromMapAtIndex (shardID d) (index d) ph = Some (ph\<lparr>peerIDsPerShard := ?m\<rparr>)"
    using assms(2) by (simp add: removePeerFromMapAtIndex_def go_simps l_def)
  obtain c where c: "removePeerInfoAtConnectionAddress p (connectionAddress d) ?ph1 = Some (?ph1\<lparr>connAddrToPeersInfo := c\<rparr>)"
    and others: "\<And>k q. q \<noteq> p \<Longrightarrow> q \<in> pid ` set (slice_at (connAddrToPeersInfo ph) k) \<Longrightarrow> q \<in> pid ` set (slice_at c k)"
    and dist: "\<And>k. distinct (map pid (slice_at (connAddrToPeersInfo ph) k)) \<Longrightarrow> distinct (map pid (slice_at c k))"
    using removePeerInfo_total [of p "connectionAddress d" ?ph1] by auto
  let ?ph2 = "?ph1\<lparr>connAddrToPeersInfo := c, tempPeerIDsWaitingForShard := (tempPeerIDsWaitingForShard ph)(p := None)\<rparr>"
  have "RemovePeer p ph = Some ?ph2"
    using assms(1) rm c
    by (auto simp: RemovePeer_def getShardAndIndexForPeer_def Let_def fun_upd_idem intro: peersHolder.equality)
  moreover have "holder_wf ph \<Longrightarrow> holder_wf ?ph2"
    using others dist by (auto simp: holder_wf_def)
  ultimately show ?thesis
    by (intro exI [of _ ?ph2]) auto
qed

lemma RemovePeer_None:
  assumes "peerIDs ph p = Some d"
    and "length (slice_at (peerIDsPerShard ph) (shardID d)) \<le> index d"
  shows "RemovePeer p ph = None"
  using assms by (simp add: RemovePeer_def getShardAndIndexForPeer_def removePeerFromMapAtIndex_def slice_remove_def)

lemma RemovePeer_absent: "peerIDs ph p = None \<Longrightarrow> RemovePeer p ph = Some ph"
  by (simp add: RemovePeer_def)

text \<open>The exported methods that change the holder, as one step that may panic.\<close>

datatype holder_op = OpPutConnectionAddress peerid string | OpPutShardID peerid uint32 | OpRemove peerid | OpClear

fun holder_step :: "uint32 \<Rightarrow> holder_op \<Rightarrow> peersHolder \<Rightarrow> peersHolder option" where
  "holder_step all (OpPutConnectionAddress p c) ph = Some (PutConnectionAddress all p c ph)"
| "holder_step all (OpPutShardID p s) ph = Some (PutShardID p s ph)"
| "holder_step all (OpRemove p) ph = RemovePeer p ph"
| "holder_step all OpClear ph = Some (Clear ph)"

fun_cases holder_stepE: "holder_step all op ph = Some ph'"

inductive holder_reach :: "uint32 \<Rightarrow> peersHolder \<Rightarrow> holder_op list \<Rightarrow> peersHolder \<Rightarrow> bool" for all ph0 where
  init: "holder_reach all ph0 [] ph0"
| step: "holder_reach all ph0 ops ph \<Longrightarrow> holder_step all op ph = Some ph' \<Longrightarrow> holder_reach all ph0 (ops @ [op]) ph'"

fun holder_run :: "uint32 \<Rightarrow> holder_op list \<Rightarrow> peersHolder \<Rightarrow> peersHolder option" where
  "holder_run all [] ph = Some ph"
| "holder_run all (op # ops) ph = (case holder_step all op ph of None \<Rightarrow> None | Some ph' \<Rightarrow> holder_run all ops ph')"

lemma RemovePeer_keeps:
  assumes "RemovePeer p ph = Some ph'"
  shows "(holder_wf ph \<longrightarrow> holder_wf ph') \<and> preferredConnAddresses ph' = preferredConnAddresses ph"
proof (cases "peerIDs ph p")
  case None
  with assms show ?thesis by (simp add: RemovePeer_absent)
next
  case (Some d)
  then have "index d < length (slice_at (peerIDsPerShard ph) (shardID d))"
    using assms RemovePeer_None [OF Some] by fastforce
  from RemovePeer_Some [OF Some this] assms show ?thesis by auto
qed

lemma preferred_Put:
  "preferredConnAddresses (PutConnectionAddress all p c ph) = preferredConnAddresses ph"
  "preferredConnAddresses (PutShardID p s ph) = preferredConnAddresses ph"
  "preferredConnAddresses (Clear ph) = preferredConnAddresses ph"
  by (auto simp: PutConnectionAddress_def addNewPeerInfoToMaps_def PutShardID_def Clear_def Let_def split: option.split)

lemma holder_wf_step: "holder_wf ph \<Longrightarrow> holder_step all op ph = Some ph' \<Longrightarrow> holder_wf ph'"
  by (elim holder_stepE) (auto intro: wf_intros dest: RemovePeer_keeps [OF sym])

lemma preferred_step: "holder_step all op ph = Some ph' \<Longrightarrow> preferredConnAddresses ph' = preferredConnAddresses ph"
  by (elim holder_stepE) (auto simp: preferred_Put dest: RemovePeer_keeps [OF sym])

lemma holder_wf_reach: "holder_reach all ph0 ops ph \<Longrightarrow> holder_wf ph0 \<Longrightarrow> holder_wf ph"
  by (induction rule: holder_reach.induct) (auto intro: holder_wf_step)

lemma index_ok_reach:
  "holder_reach all ph0 ops ph \<Longrightarrow> holder_wf ph0 \<Longrightarrow> index_ok ph0 \<Longrightarrow> (\<forall>p. OpRemove p \<notin> set ops) \<Longrightarrow> index_ok ph"
proof (induction rule: holder_reach.induct)
  case (step ops ph op ph')
  then have "index_ok ph" and "holder_wf ph" by (auto dest: holder_wf_reach)
  with step.hyps(2) step.prems(3) show ?case
    by (elim holder_stepE) (auto intro: wf_intros)
qed simp

lemma preferred_reach:
  "holder_reach all ph0 ops ph \<Longrightarrow> preferredConnAddresses ph = preferredConnAddresses ph0"
  by (induction rule: holder_reach.induct) (simp_all add: preferred_step)

text \<open>A holder with one preferred address, and the same after two peers of shard 0 showed up from it.\<close>

definition example_holder :: peersHolder where
  "example_holder = \<lparr>preferredConnAddresses = [''127.0.0.1''], connAddrToPeersInfo = [''127.0.0.1'' \<mapsto> []],
     tempPeerIDsWaitingForShard = Map.empty, peerIDsPerShard = Map.empty, peerIDs = Map.empty\<rparr>"

definition example_ops :: "holder_op list" where
  "example_ops = [OpPutConnectionAddress [1] ''127.0.0.1:10'', OpPutShardID [1] 0,
                  OpPutConnectionAddress [2] ''127.0.0.1:11'', OpPutShardID [2] 0]"

definition two_peers_holder :: peersHolder where
  "two_peers_holder = \<lparr>preferredConnAddresses = [''127.0.0.1''],
     connAddrToPeersInfo = [''127.0.0.1'' \<mapsto> [\<lparr>pid = [1], pi_shardID = 0\<rparr>, \<lparr>pid = [2], pi_shardID = 0\<rparr>]],
     tempPeerIDsWaitingForShard = Map.empty, peerIDsPerShard = [0 \<mapsto> [[1], [2]]],
     peerIDs = [[1] \<mapsto> \<lparr>connectionAddress = ''127.0.0.1'', shardID = 0, index = 0\<rparr>,
                [2] \<mapsto> \<lparr>connectionAddress = ''127.0.0.1'', shardID = 0, index = 1\<rparr>]\<rparr>"

lemma example_holder_new: "NewPeersHolder (\<lambda>_. False) [''127.0.0.1''] = Inr example_holder"
  by (simp add: NewPeersHolder_def IsValid_def isValidIP_def isValidPeerID_def ParseIP_examples example_holder_def)

lemma holder_run_reach: "holder_run all ops ph = Some ph' \<Longrightarrow> holder_reach all ph0 pre ph \<Longrightarrow> holder_reach all ph0 (pre @ ops) ph'"
proof (induction ops arbitrary: ph pre)
  case (Cons op ops)
  then show ?case
    using holder_reach.step [of all ph0 pre ph op] by (fastforce split: option.splits)
qed simp

lemma two_peers_reach: "holder_reach 255 example_holder example_ops two_peers_holder"
proof -
  have "holder_run 255 example_ops example_holder = Some two_peers_holder"
    by (simp add: example_ops_def example_holder_def two_peers_holder_def PutConnectionAddress_def
        addNewPeerInfoToMaps_def PutShardID_def getKnownConnection_def Let_def slice_at_def fun_eq_iff)
  then show ?thesis
    using holder_run_reach [OF _ holder_reach.init, of 255 example_ops example_holder two_peers_holder] by simp
qed

lemma two_peers_no_remove: "\<forall>q. OpRemove q \<notin> set example_ops"
  by (simp add: example_ops_def)

section \<open>Properties\<close>

text \<open>
  C5. In every state reached by any sequence of calls, a peer connects from an address which contains a preferred
  address, and its shard is then put. When it was not seen under that preferred address yet, or still waits for its
  shard, it is afterwards contained in the holder, is listed under that shard, and no longer waits for its shard. When
  it was seen under the address and does not wait, both calls change nothing: a peer is never moved to another shard.
\<close>

theorem preferred_peer_is_contained:
  fixes p :: peerid and s :: uint32
  assumes "NewPeersHolder NewPeerID addrs = Inr ph0"
    and "holder_reach all ph0 ops ph"
    and "getKnownConnection ph connStr = known" and "known \<noteq> []"
  defines "ph' \<equiv> PutShardID p s (PutConnectionAddress all p connStr ph)"
  shows "known \<in> set addrs \<and> strings_Contains connStr known \<and>
         (if getPeerInfoForPeerID p (slice_at (connAddrToPeersInfo ph) known) = None \<or> tempPeerIDsWaitingForShard ph p \<noteq> None
          then Contains p ph' \<and> p \<in> set (slice_at (GetPreferred ph') s) \<and> tempPeerIDsWaitingForShard ph' p = None
          else ph' = ph)"
proof -
  have wf0: "holder_wf ph0" and pref: "preferredConnAddresses ph = addrs"
    using holder_wf_NewPeersHolder [OF assms(1)] preferred_reach [OF assms(2)] by auto
  let ?ph1 = "PutConnectionAddress all p connStr ph"
  have wf: "holder_wf ?ph1"
    using holder_wf_reach [OF assms(2) wf0] by (rule holder_wf_PutConnectionAddress)
  have put: "?ph1 = (if getPeerInfoForPeerID p (slice_at (connAddrToPeersInfo ph) known) = None
      then addNewPeerInfoToMaps all p known ph else ph)"
    using assms(3,4) by (auto simp: PutConnectionAddress_def Let_def)
  have "known \<in> set addrs \<and> strings_Contains connStr known"
    using assms(3,4) getKnownConnection_loop_in [of addrs connStr] by (auto simp: getKnownConnection_def pref)
  moreover have "Contains p ph' \<and> p \<in> set (slice_at (GetPreferred ph') s) \<and> tempPeerIDsWaitingForShard ph' p = None"
    if wait: "tempPeerIDsWaitingForShard ?ph1 p = Some c" for c
    unfolding ph'_def by (simp add: PutShardID_waiting [OF wf wait] Let_def Contains_def GetPreferred_def)
  moreover have "ph' = ?ph1" if "tempPeerIDsWaitingForShard ?ph1 p = None"
    unfolding ph'_def using that by (rule PutShardID_not_waiting)
  moreover have "tempPeerIDsWaitingForShard ?ph1 p = (if getPeerInfoForPeerID p (slice_at (connAddrToPeersInfo ph) known) = None
      then Some known else tempPeerIDsWaitingForShard ph p)"
    by (simp add: put addNewPeerInfoToMaps_def Let_def)
  ultimately show ?thesis using put by (auto split: if_splits)
qed

theorem preferred_peer_is_contained_witness:
  "Contains [3] (PutShardID [3] 1 (PutConnectionAddress 255 [3] ''127.0.0.1:12'' two_peers_holder)) \<and>
   PutShardID [2] 1 (PutConnectionAddress 255 [2] ''127.0.0.1:12'' two_peers_holder) = two_peers_holder"
proof -
  have known: "getKnownConnection two_peers_holder ''127.0.0.1:12'' = ''127.0.0.1''"
    by (simp add: two_peers_holder_def getKnownConnection_def)
  have new: "getPeerInfoForPeerID [3] (slice_at (connAddrToPeersInfo two_peers_holder) ''127.0.0.1'') = None"
    and old: "getPeerInfoForPeerID [2] (slice_at (connAddrToPeersInfo two_peers_holder) ''127.0.0.1'') \<noteq> None"
      "tempPeerIDsWaitingForShard two_peers_holder [2] = None"
    by (simp_all add: two_peers_holder_def slice_at_def)
  note c = preferred_peer_is_contained [OF example_holder_new two_peers_reach known]
  from c [of "[3]" 1] c [of "[2]" 1] new old show ?thesis by simp
qed

text \<open>
  C7. Remove is right once. Before any removal, the position stored with every preferred peer is its place in the list of
  its shard, so Remove does not panic: the peer is no longer contained and exactly its entry is cut out of the list of its
  shard, every other record and every other shard's list being kept. But Remove does not update the positions of the peers
  behind: removing next the peer at the end of the same list panics with an index out of range.
\<close>

theorem remove_is_exact_once:
  assumes "NewPeersHolder NewPeerID addrs = Inr ph0"
    and "holder_reach all ph0 ops ph" and "\<forall>q. OpRemove q \<notin> set ops"
    and "peerIDs ph p = Some d"
  shows "\<exists>ph'. RemovePeer p ph = Some ph' \<and> \<not> Contains p ph' \<and>
           peerIDs ph' = (peerIDs ph)(p := None) \<and>
           mset (slice_at (peerIDsPerShard ph') (shardID d)) =
             mset (slice_at (peerIDsPerShard ph) (shardID d)) - {#p#} \<and>
           (\<forall>s. s \<noteq> shardID d \<longrightarrow> slice_at (peerIDsPerShard ph') s = slice_at (peerIDsPerShard ph) s) \<and>
           (\<forall>q e. peerIDs ph q = Some e \<and> q \<noteq> p \<and> shardID e = shardID d \<and>
              Suc (index e) = length (slice_at (peerIDsPerShard ph) (shardID d)) \<longrightarrow> Contains q ph' \<and> RemovePeer q ph' = None)"
proof -
  have "index_ok ph"
    using index_ok_reach [OF assms(2)] holder_wf_NewPeersHolder [OF assms(1)] assms(3) by blast
  with assms(4) have i: "index d < length (slice_at (peerIDsPerShard ph) (shardID d))"
    and at: "slice_at (peerIDsPerShard ph) (shardID d) ! index d = p"
    by (auto simp: index_ok_def)
  from RemovePeer_Some [OF assms(4) i] obtain ph' where r: "RemovePeer p ph = Some ph'" "peerIDs ph' = (peerIDs ph)(p := None)"
      "mset (slice_at (peerIDsPerShard ph') (shardID d)) = mset (slice_at (peerIDsPerShard ph) (shardID d)) - {#p#}"
      "\<forall>s. s \<noteq> shardID d \<longrightarrow> slice_at (peerIDsPerShard ph') s = slice_at (peerIDsPerShard ph) s"
    and l: "Suc (length (slice_at (peerIDsPerShard ph') (shardID d))) = length (slice_at (peerIDsPerShard ph) (shardID d))"
    using mset_slice_remove [OF i] at i by auto
  have "Contains q ph' \<and> RemovePeer q ph' = None"
    if "peerIDs ph q = Some e" "q \<noteq> p" "shardID e = shardID d" "Suc (index e) = length (slice_at (peerIDsPerShard ph) (shardID d))" for q e
  proof -
    have q: "peerIDs ph' q = Some e" using that(1,2) r(2) by simp
    then show ?thesis using RemovePeer_None [OF q] l that(3,4) by (simp add: Contains_def)
  qed
  with r show ?thesis by (intro exI [of _ ph']) (simp add: Contains_def)
qed

theorem remove_is_exact_once_witness:
  "\<exists>ph'. RemovePeer [1] two_peers_holder = Some ph' \<and> \<not> Contains [1] ph' \<and> mset (slice_at (peerIDsPerShard ph') 0) = {#[2]#} \<and>
     Contains [2] ph' \<and> RemovePeer [2] ph' = None"
proof -
  have "peerIDs two_peers_holder [1] = Some \<lparr>connectionAddress = ''127.0.0.1'', shardID = 0, index = 0\<rparr>"
    by (simp add: two_peers_holder_def)
  from remove_is_exact_once [OF example_holder_new two_peers_reach two_peers_no_remove this] obtain ph' where
    r: "RemovePeer [1] two_peers_holder = Some ph'" "\<not> Contains [1] ph'" "mset (slice_at (peerIDsPerShard ph') 0) = {#[2]#}"
    and q: "\<forall>q e. peerIDs two_peers_holder q = Some e \<and> q \<noteq> [1] \<and> shardID e = 0 \<and> Suc (index e) = 2 \<longrightarrow> Contains q ph' \<and> RemovePeer q ph' = None"
    by (auto simp: two_peers_holder_def slice_at_def)
  have "peerIDs two_peers_holder [2] = Some \<lparr>connectionAddress = ''127.0.0.1'', shardID = 0, index = 1\<rparr>"
    by (simp add: two_peers_holder_def)
  with q [rule_format, of "[2]"] have "Contains [2] ph' \<and> RemovePeer [2] ph' = None" by simp
  with r show ?thesis by blast
qed

end
