(* ===== verification/P2PMessage.thy ===== *)
theory P2PMessage
  imports WireMessages
begin

text \<open>
  The message of the p2p layer (\<^verbatim>\<open>p2p/message/message.go\<close>), how it is made from a pubsub message
  (\<^verbatim>\<open>p2p/libp2p/message.go\<close>) and how batches of messages are verified and serialised
  (\<^verbatim>\<open>p2p/messageCheck/messageVerifier.go\<close>). The protobuf type of \<^verbatim>\<open>go-libp2p-pubsub\<close> and its codec, the
  conversion of peer identifiers, the marshaller and the signer are parameters.
\<close>

section \<open>External types\<close>

text \<open>
  The message of \<^verbatim>\<open>go-libp2p-pubsub\<close>: the topic is a pointer, and the code asks whether the key is nil;
  of the other byte slices only the contents matter.
\<close>

record pb_Message =
  pb_From :: bytes
  pb_Data :: bytes
  pb_Seqno :: bytes
  pb_Topic :: "string option"
  pb_Signature :: bytes
  pb_Key :: "bytes option"

record pubsub_ops =
  pb_Marshal :: "pb_Message \<Rightarrow> bytes res"
  pb_Unmarshal :: "bytes \<Rightarrow> pb_Message res"
  SignPrefix :: bytes
  peer_IDFromBytes :: "bytes \<Rightarrow> peerid res"

text \<open>The marshaller, for the two types it is used with: \<^verbatim>\<open>data.TopicMessage\<close> and \<^verbatim>\<open>batch.Batch\<close>.\<close>

record p2p_Marshaller =
  tm_Marshal :: "TopicMessage \<Rightarrow> bytes res"
  tm_Unmarshal :: "bytes \<Rightarrow> TopicMessage res"
  batch_Marshal :: "bytes list \<Rightarrow> bytes res"
  batch_Unmarshal :: "bytes \<Rightarrow> bytes list res"

section \<open>Messages\<close>

datatype BroadcastMethod = Direct | Broadcast

record Message =
  FromField :: bytes
  DataField :: bytes
  PayloadField :: bytes
  SeqNoField :: bytes
  TopicField :: string
  SignatureField :: bytes
  KeyField :: "bytes option"
  PeerField :: peerid
  TimestampField :: int64
  BroadcastMethodField :: BroadcastMethod

definition currentTopicMessageVersion :: uint32 where
  "currentTopicMessageVersion = 1"

definition NewMessage ::
  "pubsub_ops \<Rightarrow> p2p_Marshaller option \<Rightarrow> pb_Message option \<Rightarrow> BroadcastMethod \<Rightarrow> Message res" where
  "NewMessage ps marshaller msg broadcastMethod =
     (case marshaller of
        None \<Rightarrow> Inl ErrNilMarshaller
      | Some mars \<Rightarrow>
     (case msg of
        None \<Rightarrow> Inl ErrNilMessage
      | Some msg \<Rightarrow>
     (case pb_Topic msg of
        None \<Rightarrow> Inl ErrNilTopic
      | Some topic \<Rightarrow>
     (case tm_Unmarshal mars (pb_Data msg) of
        Inl err \<Rightarrow> Inl ErrMessageUnmarshalError
      | Inr topicMessage \<Rightarrow>
          (if tm_Version topicMessage \<noteq> currentTopicMessageVersion then Inl ErrUnsupportedMessageVersion
           else if length (tm_SignatureOnPid topicMessage) + length (tm_Pk topicMessage) > 0 then Inl ErrUnsupportedFields
           else
             (case peer_IDFromBytes ps (pb_From msg) of
                Inl err \<Rightarrow> Inl err
              | Inr pid \<Rightarrow>
                  Inr \<lparr>FromField = pb_From msg, DataField = tm_Payload topicMessage, PayloadField = pb_Data msg,
                       SeqNoField = pb_Seqno msg, TopicField = topic, SignatureField = pb_Signature msg,
                       KeyField = pb_Key msg, PeerField = pid, TimestampField = tm_Timestamp topicMessage,
                       BroadcastMethodField = broadcastMethod\<rparr>))))))"

text \<open>\<^verbatim>\<open>withSignPrefix\<close>, which the direct sender and the verifier define alike.\<close>

definition withSignPrefix :: "pubsub_ops \<Rightarrow> bytes \<Rightarrow> bytes" where
  "withSignPrefix ps b = SignPrefix ps @ b"

section \<open>The message verifier\<close>

record messageVerifier =
  mv_marshaller :: p2p_Marshaller
  mv_p2pSigner :: "bytes \<Rightarrow> peerid \<Rightarrow> bytes \<Rightarrow> p2p_error option"

record ArgsMessageVerifier =
  mva_Marshaller :: "p2p_Marshaller option"
  mva_P2PSigner :: "(bytes \<Rightarrow> peerid \<Rightarrow> bytes \<Rightarrow> p2p_error option) option"
  mva_Logger :: "logger option"

definition NewMessageVerifier :: "ArgsMessageVerifier \<Rightarrow> messageVerifier res" where
  "NewMessageVerifier args =
     (case mva_Marshaller args of
        None \<Rightarrow> Inl ErrNilMarshaller
      | Some mars \<Rightarrow>
     (case mva_P2PSigner args of
        None \<Rightarrow> Inl ErrNilP2PSigner
      | Some signer \<Rightarrow>
     (case mva_Logger args of
        None \<Rightarrow> Inl ErrNilLogger
      | Some log \<Rightarrow> Inr \<lparr>mv_marshaller = mars, mv_p2pSigner = signer\<rparr>)))"

definition convertP2PMessagetoPubSubMessage :: "Message option \<Rightarrow> pb_Message res" where
  "convertP2PMessagetoPubSubMessage msg =
     (case msg of
        None \<Rightarrow> Inl ErrNilMessage
      | Some msg \<Rightarrow>
          Inr \<lparr>pb_From = FromField msg, pb_Data = PayloadField msg, pb_Seqno = SeqNoField msg,
               pb_Topic = Some (TopicField msg), pb_Signature = SignatureField msg, pb_Key = KeyField msg\<rparr>)"

definition convertPubSubMessagestoP2PMessage ::
  "pubsub_ops \<Rightarrow> pb_Message option \<Rightarrow> p2p_Marshaller \<Rightarrow> Message res" where
  "convertPubSubMessagestoP2PMessage ps msg mars =
     (case msg of
        None \<Rightarrow> Inl ErrNilMessage
      | Some msg \<Rightarrow> NewMessage ps (Some mars) (Some msg) Broadcast)"

definition preparePubSubMessagePayload :: "pubsub_ops \<Rightarrow> Message option \<Rightarrow> bytes res" where
  "preparePubSubMessagePayload ps msg =
     andThen (convertP2PMessagetoPubSubMessage msg) (\<lambda>pubsubMsg.
     (let xm = pubsubMsg\<lparr>pb_Signature := [], pb_Key := None\<rparr>
      in andThen (pb_Marshal ps xm) (\<lambda>pubsubMsgBytes. Inr (withSignPrefix ps pubsubMsgBytes))))"

definition VerifyMessage :: "pubsub_ops \<Rightarrow> messageVerifier \<Rightarrow> Message option \<Rightarrow> p2p_error option" where
  "VerifyMessage ps m msg =
     (case msg of
        None \<Rightarrow> Some ErrNilMessage
      | Some msg' \<Rightarrow>
          (case preparePubSubMessagePayload ps msg of
             Inl err \<Rightarrow> Some err
           | Inr payload \<Rightarrow> mv_p2pSigner m payload (PeerField msg') (SignatureField msg')))"

fun Serialize_loop :: "pubsub_ops \<Rightarrow> Message option list \<Rightarrow> bytes list \<Rightarrow> bytes list res" where
  "Serialize_loop ps [] pubsubMessages = Inr pubsubMessages"
| "Serialize_loop ps (msg # messages) pubsubMessages =
     (case convertP2PMessagetoPubSubMessage msg of
        Inl err \<Rightarrow> Serialize_loop ps messages pubsubMessages
      | Inr pubsubMsg \<Rightarrow>
          (case pb_Marshal ps pubsubMsg of
             Inl err \<Rightarrow> Inl err
           | Inr pubsubMsgBytes \<Rightarrow> Serialize_loop ps messages (pubsubMessages @ [pubsubMsgBytes])))"

definition Serialize :: "pubsub_ops \<Rightarrow> messageVerifier \<Rightarrow> Message option list \<Rightarrow> bytes res" where
  "Serialize ps m messages =
     (case Serialize_loop ps messages [] of
        Inl err \<Rightarrow> Inl err
      | Inr pubsubMessages \<Rightarrow>
          (if pubsubMessages = [] then Inr [] else batch_Marshal (mv_marshaller m) pubsubMessages))"

fun Deserialize_loop :: "pubsub_ops \<Rightarrow> p2p_Marshaller \<Rightarrow> bytes list \<Rightarrow> Message list \<Rightarrow> Message list res" where
  "Deserialize_loop ps mars [] p2pMessages = Inr p2pMessages"
| "Deserialize_loop ps mars (pubsubMessageBytes # rest) p2pMessages =
     (case pb_Unmarshal ps pubsubMessageBytes of
        Inl err \<Rightarrow> Inl err
      | Inr pubsubMsg \<Rightarrow>
          (case convertPubSubMessagestoP2PMessage ps (Some pubsubMsg) mars of
             Inl errConvert \<Rightarrow> Deserialize_loop ps mars rest p2pMessages
           | Inr p2pMsg \<Rightarrow> Deserialize_loop ps mars rest (p2pMessages @ [p2pMsg])))"

definition Deserialize :: "pubsub_ops \<Rightarrow> messageVerifier \<Rightarrow> bytes \<Rightarrow> Message list res" where
  "Deserialize ps m messagesBytes =
     (case batch_Unmarshal (mv_marshaller m) messagesBytes of
        Inl err \<Rightarrow> Inl err
      | Inr pubsubMessagesBytes \<Rightarrow> Deserialize_loop ps (mv_marshaller m) pubsubMessagesBytes [])"

section \<open>Lemmas\<close>

text \<open>
  What the code relies on of the codecs: what is marshalled is unmarshalled unchanged. A batch
  without elements is not marshalled by the code.
\<close>

definition codec_laws :: "pubsub_ops \<Rightarrow> p2p_Marshaller \<Rightarrow> bool" where
  "codec_laws ps mars \<longleftrightarrow>
     (\<forall>m b. pb_Marshal ps m = Inr b \<longrightarrow> pb_Unmarshal ps b = Inr m) \<and>
     (\<forall>d b. batch_Marshal mars d = Inr b \<longrightarrow> d \<noteq> [] \<longrightarrow> batch_Unmarshal mars b = Inr d) \<and>
     (\<forall>m b. tm_Marshal mars m = Inr b \<longrightarrow> tm_Unmarshal mars b = Inr m)"

lemma NewMessage_cases:
  assumes "NewMessage ps marshaller msg bm = Inr m"
  obtains mars pm tm where "marshaller = Some mars" "msg = Some pm" "pb_Topic pm = Some (TopicField m)"
    "tm_Unmarshal mars (pb_Data pm) = Inr tm" "tm_Version tm = currentTopicMessageVersion"
    "tm_SignatureOnPid tm = []" "tm_Pk tm = []" "peer_IDFromBytes ps (pb_From pm) = Inr (PeerField m)"
    "FromField m = pb_From pm" "DataField m = tm_Payload tm" "PayloadField m = pb_Data pm" "SeqNoField m = pb_Seqno pm"
    "SignatureField m = pb_Signature pm" "KeyField m = pb_Key pm" "TimestampField m = tm_Timestamp tm"
    "BroadcastMethodField m = bm"
  using assms
  by (auto simp: NewMessage_def split: option.splits sum.splits if_splits)

text \<open>The broadcast method is only stored with the message.\<close>

lemma NewMessage_method:
  assumes "NewMessage ps marshaller msg bm = Inr m"
  shows "NewMessage ps marshaller msg bm' = Inr (m\<lparr>BroadcastMethodField := bm'\<rparr>)"
  using assms by (auto simp: NewMessage_def split: option.splits sum.splits if_splits)

text \<open>A received message keeps everything of the pubsub message it was made from.\<close>

lemma convert_NewMessage:
  assumes "NewMessage ps marshaller (Some pm) bm = Inr m"
  shows "convertP2PMessagetoPubSubMessage (Some m) = Inr pm"
  using assms by (auto simp: convertP2PMessagetoPubSubMessage_def elim!: NewMessage_cases)

lemma Serialize_loop_eq:
  "Serialize_loop ps messages acc = Inr bs \<Longrightarrow>
     \<exists>bs'. bs = acc @ bs' \<and>
       list_all2 (\<lambda>m b. \<exists>pm. convertP2PMessagetoPubSubMessage (Some m) = Inr pm \<and> pb_Marshal ps pm = Inr b)
         (List.map_filter id messages) bs'"
proof (induction messages arbitrary: acc)
  case (Cons m ms)
  show ?case
  proof (cases m)
    case None
    with Cons show ?thesis by (simp add: convertP2PMessagetoPubSubMessage_def map_filter_simps)
  next
    case (Some m')
    with Cons.prems obtain b pm where pm: "convertP2PMessagetoPubSubMessage (Some m') = Inr pm" "pb_Marshal ps pm = Inr b"
      "Serialize_loop ps ms (acc @ [b]) = Inr bs"
      by (auto split: sum.splits simp: convertP2PMessagetoPubSubMessage_def)
    with Cons.IH [OF this(3)] Some show ?thesis by (auto simp: map_filter_simps)
  qed
qed (simp add: map_filter_simps)

lemma Deserialize_loop_eq:
  assumes "list_all2 (\<lambda>m b. \<exists>pm. pb_Unmarshal ps b = Inr pm \<and> NewMessage ps (Some mars) (Some pm) Broadcast = Inr m) ms bs"
  shows "Deserialize_loop ps mars bs acc = Inr (acc @ ms)"
  using assms
  by (induction arbitrary: acc rule: list_all2_induct) (auto simp: convertPubSubMessagestoP2PMessage_def)

section \<open>An instance of the codecs\<close>

text \<open>
  A codec that prefixes each part with its length in unary, for pubsub messages and batches; topic
  messages use the generated code.
\<close>

definition unary :: "bytes \<Rightarrow> bytes" where
  "unary b = replicate (length b) 1 @ 0 # b"

fun unary_count :: "bytes \<Rightarrow> nat \<times> bytes" where
  "unary_count [] = (0, [])"
| "unary_count (b # bs) = (if b = 0 then (0, bs) else (let (n, r) = unary_count bs in (Suc n, r)))"

definition read_unary :: "bytes \<Rightarrow> bytes \<times> bytes" where
  "read_unary bs = (let (n, r) = unary_count bs in (take n r, drop n r))"

lemma unary_count_replicate: "unary_count (replicate n 1 @ 0 # r) = (n, r)"
  by (induction n) simp_all

lemma read_unary_unary [simp]: "read_unary (unary b @ r) = (b, r)"
  using unary_count_replicate [of "length b" "b @ r"] by (simp add: read_unary_def unary_def)

definition string_of_bytes :: "bytes \<Rightarrow> string" where
  "string_of_bytes bs = map (\<lambda>b. char_of (unat b)) bs"

lemma string_of_bytes_of_string [simp]: "string_of_bytes (bytes_of_string s) = s"
proof (induction s)
  case (Cons c s)
  have "unat (word_of_nat (of_char c) :: byte) = of_char c"
    by (simp add: unat_of_nat)
  with Cons show ?case by (simp add: string_of_bytes_def bytes_of_string_def)
qed (simp add: string_of_bytes_def bytes_of_string_def)

definition plain_pubsub :: pubsub_ops where
  "plain_pubsub = \<lparr>
     pb_Marshal = (\<lambda>m. Inr (unary (pb_From m) @ unary (pb_Data m) @ unary (pb_Seqno m) @
       unary (case pb_Topic m of None \<Rightarrow> [] | Some t \<Rightarrow> 1 # bytes_of_string t) @ unary (pb_Signature m) @
       unary (case pb_Key m of None \<Rightarrow> [] | Some k \<Rightarrow> 1 # k))),
     pb_Unmarshal = (\<lambda>b.
       (let (f, b) = read_unary b; (d, b) = read_unary b; (s, b) = read_unary b; (t, b) = read_unary b;
            (g, b) = read_unary b; (k, b) = read_unary b
        in Inr \<lparr>pb_From = f, pb_Data = d, pb_Seqno = s,
                pb_Topic = (case t of [] \<Rightarrow> None | x # t \<Rightarrow> Some (string_of_bytes t)), pb_Signature = g,
                pb_Key = (case k of [] \<Rightarrow> None | x # k \<Rightarrow> Some k)\<rparr>)),
     SignPrefix = [42], peer_IDFromBytes = Inr\<rparr>"

fun read_batch :: "nat \<Rightarrow> bytes \<Rightarrow> bytes list" where
  "read_batch 0 b = []"
| "read_batch (Suc n) b = (if b = [] then [] else (let (x, r) = read_unary b in x # read_batch n r))"

lemma read_batch_unary: "length (concat (map unary d)) \<le> n \<Longrightarrow> read_batch n (concat (map unary d)) = d"
proof (induction d arbitrary: n)
  case Nil
  show ?case by (cases n) simp_all
next
  case (Cons x d)
  then obtain n' where n: "n = Suc n'" by (cases n) (auto simp: unary_def)
  moreover have "length (concat (map unary d)) \<le> n'"
  proof -
    have "Suc 0 \<le> length (unary x)" by (simp add: unary_def)
    with Cons.prems n show ?thesis by (simp only: list.map concat.simps length_append)
  qed
  moreover have "unary x @ concat (map unary d) \<noteq> []" by (simp add: unary_def)
  ultimately show ?case using Cons.IH [of n'] by simp
qed

definition plain_marshaller :: p2p_Marshaller where
  "plain_marshaller = \<lparr>
     tm_Marshal = (\<lambda>m. if TopicMessage_Size m < 2 ^ 63
                       then (case TopicMessage_Marshal m of Some b \<Rightarrow> Inr b | None \<Rightarrow> Inl (ErrExternal ''panic''))
                       else Inl (ErrExternal ''size'')),
     tm_Unmarshal = (\<lambda>b. case TopicMessage_Unmarshal TopicMessage_zero b of Inl e \<Rightarrow> Inl (ErrExternal ''proto'') | Inr m \<Rightarrow> Inr m),
     batch_Marshal = (\<lambda>d. Inr (concat (map unary d))), batch_Unmarshal = (\<lambda>b. Inr (read_batch (length b) b))\<rparr>"

lemma plain_codec_laws: "codec_laws plain_pubsub plain_marshaller"
proof -
  have "pb_Unmarshal plain_pubsub b = Inr m" if "pb_Marshal plain_pubsub m = Inr b" for m b
  proof -
    have "pb_Key m = (case (case pb_Key m of None \<Rightarrow> [] | Some k \<Rightarrow> 1 # k) of [] \<Rightarrow> None | x # k \<Rightarrow> Some k)"
      "pb_Topic m = (case (case pb_Topic m of None \<Rightarrow> [] | Some t \<Rightarrow> 1 # bytes_of_string t) of [] \<Rightarrow> None
         | x # t \<Rightarrow> Some (string_of_bytes t))"
      by (auto split: option.split)
    moreover have "read_unary (unary x) = (x, [])" for x
      using read_unary_unary [of x "[]"] by simp
    ultimately show ?thesis using that by (auto simp: plain_pubsub_def)
  qed
  moreover have "batch_Unmarshal plain_marshaller b = Inr d" if "batch_Marshal plain_marshaller d = Inr b" for d b
    using that read_batch_unary [of d] by (auto simp: plain_marshaller_def)
  moreover have "tm_Unmarshal plain_marshaller b = Inr m" if "tm_Marshal plain_marshaller m = Inr b" for m b
    using that topic_codec.dec_enc [simplified] by (auto simp: plain_marshaller_def split: if_splits option.splits)
  ultimately show ?thesis by (simp add: codec_laws_def)
qed

section \<open>Properties\<close>

text \<open>
  C24. Messages that were received, on a topic or directly, serialised by one node and deserialised by another, come out
  in their order and unchanged but for the broadcast method, which is Broadcast for all of them afterwards; nil messages
  are left out. When all messages are nil, what Serialize gives is empty.
\<close>

theorem serialize_round_trip:
  assumes "codec_laws ps (mv_marshaller v)"
    and "\<And>m. Some m \<in> set ms \<Longrightarrow> \<exists>pm bm. NewMessage ps (Some (mv_marshaller v)) (Some pm) bm = Inr m"
    and "Serialize ps v ms = Inr b"
  shows "if List.map_filter id ms = [] then b = []
         else Deserialize ps v b = Inr (map (\<lambda>m. m\<lparr>BroadcastMethodField := Broadcast\<rparr>) (List.map_filter id ms))"
proof -
  let ?ms = "List.map_filter id ms" and ?out = "\<lambda>m. m\<lparr>BroadcastMethodField := Broadcast\<rparr>"
  obtain bs where bs: "Serialize_loop ps ms [] = Inr bs"
    "(if bs = [] then Inr [] else batch_Marshal (mv_marshaller v) bs) = Inr b"
    using assms(3) by (auto simp: Serialize_def split: sum.splits)
  from Serialize_loop_eq [OF bs(1)]
  have enc: "list_all2 (\<lambda>m b. \<exists>pm. convertP2PMessagetoPubSubMessage (Some m) = Inr pm \<and> pb_Marshal ps pm = Inr b) ?ms bs"
    by simp
  then have empty: "?ms = [] \<longleftrightarrow> bs = []" by auto
  with bs(2) assms(1) have batch: "?ms \<noteq> [] \<Longrightarrow> batch_Unmarshal (mv_marshaller v) b = Inr bs" by (simp add: codec_laws_def)
  have "list_all2 (\<lambda>m b. \<exists>pm. pb_Unmarshal ps b = Inr pm \<and>
      NewMessage ps (Some (mv_marshaller v)) (Some pm) Broadcast = Inr (?out m)) ?ms bs"
    using enc
  proof (rule list.rel_mono_strong)
    fix m x
    assume "m \<in> set ?ms" and c: "\<exists>pm. convertP2PMessagetoPubSubMessage (Some m) = Inr pm \<and> pb_Marshal ps pm = Inr x"
    then obtain pm bm where pm: "NewMessage ps (Some (mv_marshaller v)) (Some pm) bm = Inr m"
      using assms(2) [of m] by (auto simp: map_filter_def)
    with c convert_NewMessage [OF pm] NewMessage_method [OF pm] assms(1)
    show "\<exists>pm. pb_Unmarshal ps x = Inr pm \<and> NewMessage ps (Some (mv_marshaller v)) (Some pm) Broadcast = Inr (?out m)"
      by (auto simp: codec_laws_def)
  qed
  then have "list_all2 (\<lambda>m b. \<exists>pm. pb_Unmarshal ps b = Inr pm \<and>
      NewMessage ps (Some (mv_marshaller v)) (Some pm) Broadcast = Inr m) (map ?out ?ms) bs"
    by (simp add: list_all2_map1)
  then show ?thesis using batch bs(2) empty by (auto simp: Deserialize_def Deserialize_loop_eq)
qed

definition example_topic_bytes :: bytes where
  "example_topic_bytes = TopicMessage_bytes \<lparr>tm_Version = 1, tm_Payload = [5, 6], tm_Timestamp = 100, tm_Pk = [], tm_SignatureOnPid = []\<rparr>"

definition example_pb :: pb_Message where
  "example_pb = \<lparr>pb_From = [9], pb_Data = example_topic_bytes, pb_Seqno = [1], pb_Topic = Some ''t'', pb_Signature = [3],
     pb_Key = None\<rparr>"

definition example_message :: Message where
  "example_message = \<lparr>FromField = [9], DataField = [5, 6], PayloadField = example_topic_bytes, SeqNoField = [1],
     TopicField = ''t'', SignatureField = [3], KeyField = None, PeerField = [9], TimestampField = 100,
     BroadcastMethodField = Broadcast\<rparr>"

definition example_verifier :: messageVerifier where
  "example_verifier = \<lparr>mv_marshaller = plain_marshaller, mv_p2pSigner = (\<lambda>p pid sig. None)\<rparr>"

lemma plain_tm_Unmarshal:
  assumes "TopicMessage_Size tm < 2 ^ 63"
  shows "tm_Marshal plain_marshaller tm = Inr (TopicMessage_bytes tm)"
    and "tm_Unmarshal plain_marshaller (TopicMessage_bytes tm) = Inr tm"
proof -
  show "tm_Marshal plain_marshaller tm = Inr (TopicMessage_bytes tm)"
    using assms by (simp add: plain_marshaller_def TopicMessage_Marshal_bytes)
  with plain_codec_laws show "tm_Unmarshal plain_marshaller (TopicMessage_bytes tm) = Inr tm"
    by (simp add: codec_laws_def)
qed

lemma example_NewMessage: "NewMessage plain_pubsub (Some plain_marshaller) (Some example_pb) Broadcast = Inr example_message"
proof -
  let ?tm = "\<lparr>tm_Version = 1, tm_Payload = [5, 6], tm_Timestamp = 100, tm_Pk = [], tm_SignatureOnPid = []\<rparr>"
  have "TopicMessage_Size ?tm < 2 ^ 63" using TopicMessage_Size_le [of ?tm] by simp
  from plain_tm_Unmarshal(2) [OF this] show ?thesis
    by (simp add: NewMessage_def example_pb_def example_message_def example_topic_bytes_def currentTopicMessageVersion_def
        plain_pubsub_def)
qed

theorem serialize_round_trip_witness:
  "\<exists>b. Serialize plain_pubsub example_verifier [Some example_message, None, Some (example_message\<lparr>BroadcastMethodField := Direct\<rparr>)] = Inr b \<and>
       Deserialize plain_pubsub example_verifier b = Inr [example_message, example_message]"
proof -
  let ?ms = "[Some example_message, None, Some (example_message\<lparr>BroadcastMethodField := Direct\<rparr>)]"
  obtain b where b: "Serialize plain_pubsub example_verifier ?ms = Inr b"
    by (simp add: Serialize_def convertP2PMessagetoPubSubMessage_def plain_pubsub_def example_verifier_def plain_marshaller_def)
  have "codec_laws plain_pubsub (mv_marshaller example_verifier)"
    by (simp add: example_verifier_def plain_codec_laws)
  moreover have "\<exists>pm bm. NewMessage plain_pubsub (Some (mv_marshaller example_verifier)) (Some pm) bm = Inr m"
    if "Some m \<in> set ?ms" for m
    using that example_NewMessage NewMessage_method [OF example_NewMessage, of Direct] by (auto simp: example_verifier_def)
  moreover have "map (\<lambda>m. m\<lparr>BroadcastMethodField := Broadcast\<rparr>) (List.map_filter id ?ms) = [example_message, example_message]"
    "List.map_filter id ?ms \<noteq> []"
    by (simp_all add: map_filter_def example_message_def)
  ultimately show ?thesis using serialize_round_trip [of plain_pubsub example_verifier ?ms b] b by auto
qed

end
