(* ===== verification/TopicPeers.thy ===== *)
theory TopicPeers
  imports P2PMessage "HOL-Library.AList"
begin

text \<open>
  The processors of a topic (\<^verbatim>\<open>p2p/libp2p/topicProcessors.go\<close>) and the peers known on a topic
  (\<^verbatim>\<open>p2p/libp2p/peersOnChannel.go\<close>).
\<close>

section \<open>Processors of a topic\<close>

text \<open>
  The map from identifiers to processors is an association list with distinct keys. Go iterates over
  a map in any order: \<open>iter\<close> is a parameter that permutes the entries.
\<close>

type_synonym 'p topicProcessors = "(string \<times> 'p) list"

definition newTopicProcessors :: "'p topicProcessors" where
  "newTopicProcessors = []"

definition AddTopicProcessor :: "string \<Rightarrow> 'p \<Rightarrow> 'p topicProcessors \<Rightarrow> p2p_error option \<times> 'p topicProcessors" where
  "AddTopicProcessor identifier processor tp =
     (if map_of tp identifier \<noteq> None then (Some ErrMessageProcessorAlreadyDefined, tp)
      else (None, tp @ [(identifier, processor)]))"

definition RemoveTopicProcessor :: "string \<Rightarrow> 'p topicProcessors \<Rightarrow> p2p_error option \<times> 'p topicProcessors" where
  "RemoveTopicProcessor identifier tp =
     (if map_of tp identifier = None then (Some ErrMessageProcessorDoesNotExists, tp)
      else (None, filter (\<lambda>(k, p). k \<noteq> identifier) tp))"

definition GetList :: "((string \<times> 'p) list \<Rightarrow> (string \<times> 'p) list) \<Rightarrow> 'p topicProcessors \<Rightarrow> string list \<times> 'p list" where
  "GetList iter tp = (map fst (iter tp), map snd (iter tp))"

definition iterates :: "('a list \<Rightarrow> 'a list) \<Rightarrow> bool" where
  "iterates iter \<longleftrightarrow> (\<forall>xs. mset (iter xs) = mset xs)"

lemma iterates_id: "iterates (\<lambda>xs. xs)" "iterates rev"
  by (simp_all add: iterates_def)

lemma iterates_set: "iterates iter \<Longrightarrow> set (iter xs) = set xs"
  unfolding iterates_def by (metis set_mset_mset)

lemma iterates_Nil: "iterates iter \<Longrightarrow> iter xs = [] \<longleftrightarrow> xs = []"
  unfolding iterates_def by (metis mset_zero_iff)

lemma AddTopicProcessor_map:
  "AddTopicProcessor i p tp = (r, tp') \<Longrightarrow>
     r = (if map_of tp i = None then None else Some ErrMessageProcessorAlreadyDefined) \<and>
     map_of tp' = (if map_of tp i = None then (map_of tp)(i \<mapsto> p) else map_of tp)"
  by (auto simp: AddTopicProcessor_def map_add_def fun_eq_iff split: if_splits option.split)

lemma map_of_filter_key: "map_of (filter (\<lambda>(k, p). k \<noteq> i) tp) = (map_of tp)(i := None)"
  by (induction tp) (auto simp: fun_eq_iff)

lemma RemoveTopicProcessor_map:
  "RemoveTopicProcessor i tp = (r, tp') \<Longrightarrow>
     r = (if map_of tp i = None then Some ErrMessageProcessorDoesNotExists else None) \<and>
     map_of tp' = (if map_of tp i = None then map_of tp else (map_of tp)(i := None))"
  by (auto simp: RemoveTopicProcessor_def map_of_filter_key split: if_splits)

lemma distinct_processors_Add [wf_intros]:
  "distinct (map fst tp) \<Longrightarrow> AddTopicProcessor i p tp = (r, tp') \<Longrightarrow> distinct (map fst tp')"
  by (auto simp: AddTopicProcessor_def map_of_eq_None_iff split: if_splits)

lemma distinct_processors_Remove [wf_intros]:
  "distinct (map fst tp) \<Longrightarrow> RemoveTopicProcessor i tp = (r, tp') \<Longrightarrow> distinct (map fst tp')"
  by (auto simp: RemoveTopicProcessor_def distinct_map_filter split: if_splits)

section \<open>Peers on a topic\<close>

text \<open>
  Times are in nanoseconds. \<open>fetch\<close> is the handler that fetches the peers of a topic from pubsub;
  the map of the last updates is an association list, iterated in its order.
\<close>

record peersOnChannel =
  poc_peers :: "string \<rightharpoonup> peerid list"
  poc_lastUpdated :: "(string \<times> int) list"
  poc_refreshInterval :: int
  poc_ttlInterval :: int
  poc_fetchPeersHandler :: "string \<Rightarrow> peerid list"
  poc_cancelled :: bool

definition newPeersOnChannel ::
  "(string \<Rightarrow> peerid list) option \<Rightarrow> int \<Rightarrow> int \<Rightarrow> logger option \<Rightarrow> peersOnChannel res" where
  "newPeersOnChannel fetchPeersHandler refreshInterval ttlInterval log =
     (case fetchPeersHandler of
        None \<Rightarrow> Inl ErrNilFetchPeersOnTopicHandler
      | Some fetch \<Rightarrow>
          (if refreshInterval = 0 then Inl ErrInvalidDurationProvided
           else if ttlInterval = 0 then Inl ErrInvalidDurationProvided
           else if log = None then Inl ErrNilLogger
           else Inr \<lparr>poc_peers = Map.empty, poc_lastUpdated = [], poc_refreshInterval = refreshInterval,
                     poc_ttlInterval = ttlInterval, poc_fetchPeersHandler = fetch, poc_cancelled = False\<rparr>))"

definition updateConnectedPeersOnTopic :: "int \<Rightarrow> string \<Rightarrow> peerid list \<Rightarrow> peersOnChannel \<Rightarrow> peersOnChannel" where
  "updateConnectedPeersOnTopic now topic connectedPeers poc =
     poc\<lparr>poc_peers := (poc_peers poc)(topic \<mapsto> connectedPeers),
         poc_lastUpdated := AList.update topic now (poc_lastUpdated poc)\<rparr>"

definition refreshPeersOnTopic :: "int \<Rightarrow> string \<Rightarrow> peersOnChannel \<Rightarrow> peerid list \<times> peersOnChannel" where
  "refreshPeersOnTopic now topic poc =
     (let connectedPeers = poc_fetchPeersHandler poc topic
      in (connectedPeers, updateConnectedPeersOnTopic now topic connectedPeers poc))"

definition ConnectedPeersOnChannel :: "int \<Rightarrow> string \<Rightarrow> peersOnChannel \<Rightarrow> peerid list \<times> peersOnChannel" where
  "ConnectedPeersOnChannel now topic poc =
     (case poc_peers poc topic of
        Some peers \<Rightarrow> (peers, poc)
      | None \<Rightarrow> refreshPeersOnTopic now topic poc)"

text \<open>One turn of \<^verbatim>\<open>refreshPeersOnAllKnownTopics\<close>.\<close>

definition refreshPeersOnAllKnownTopics :: "int \<Rightarrow> peersOnChannel \<Rightarrow> peersOnChannel" where
  "refreshPeersOnAllKnownTopics now poc =
     (let listTopicsToBeRefreshed = map fst (filter (\<lambda>(topic, lastRefreshed). now - lastRefreshed > poc_ttlInterval poc) (poc_lastUpdated poc))
      in fold (\<lambda>topic poc. snd (refreshPeersOnTopic now topic poc)) listTopicsToBeRefreshed poc)"

definition poc_Close :: "peersOnChannel \<Rightarrow> p2p_error option \<times> peersOnChannel" where
  "poc_Close poc = (None, poc\<lparr>poc_cancelled := True\<rparr>)"

section \<open>Freshness\<close>

lemma refresh_fields:
  "poc_fetchPeersHandler (snd (refreshPeersOnTopic now topic poc)) = poc_fetchPeersHandler poc"
  "poc_ttlInterval (snd (refreshPeersOnTopic now topic poc)) = poc_ttlInterval poc"
  "poc_peers (snd (refreshPeersOnTopic now topic poc)) = (poc_peers poc)(topic \<mapsto> poc_fetchPeersHandler poc topic)"
  "map_of (poc_lastUpdated (snd (refreshPeersOnTopic now topic poc))) = (map_of (poc_lastUpdated poc))(topic \<mapsto> now)"
  by (simp_all add: refreshPeersOnTopic_def updateConnectedPeersOnTopic_def Let_def update_conv')

lemma refresh_fold:
  "map_of (poc_lastUpdated (fold (\<lambda>t poc. snd (refreshPeersOnTopic now t poc)) ts poc)) =
     (\<lambda>t. if t \<in> set ts then Some now else map_of (poc_lastUpdated poc) t)"
  "poc_peers (fold (\<lambda>t poc. snd (refreshPeersOnTopic now t poc)) ts poc) =
     (\<lambda>t. if t \<in> set ts then Some (poc_fetchPeersHandler poc t) else poc_peers poc t)"
  by (induction ts arbitrary: poc) (auto simp: refresh_fields fun_eq_iff)

section \<open>Property\<close>

text \<open>
  After a turn of the refresher no list of peers is older than the time to live: each known
  topic was either fetched within it and is left alone, or is fetched anew in this turn.
\<close>

lemma peers_on_topics_are_fresh:
  assumes "distinct (map fst (poc_lastUpdated poc))" and "0 \<le> poc_ttlInterval poc"
    and "map_of (poc_lastUpdated poc) topic = Some t0"
  shows "\<exists>t1. map_of (poc_lastUpdated (refreshPeersOnAllKnownTopics now poc)) topic = Some t1 \<and>
           now - t1 \<le> poc_ttlInterval poc \<and>
           poc_peers (refreshPeersOnAllKnownTopics now poc) topic =
             (if now - t0 > poc_ttlInterval poc then Some (poc_fetchPeersHandler poc topic) else poc_peers poc topic)"
proof -
  let ?ts = "map fst (filter (\<lambda>(topic, lastRefreshed). now - lastRefreshed > poc_ttlInterval poc) (poc_lastUpdated poc))"
  have "topic \<in> set ?ts \<longleftrightarrow> now - t0 > poc_ttlInterval poc"
  proof -
    have "(topic, x) \<in> set (poc_lastUpdated poc) \<longleftrightarrow> x = t0" for x
      using map_of_eq_Some_iff [OF assms(1), of topic x] assms(3) by auto
    then show ?thesis by (auto simp: image_iff case_prod_beta')
  qed
  then show ?thesis
    using assms(2,3) by (simp add: refreshPeersOnAllKnownTopics_def Let_def refresh_fold)
qed

end
