(* ===== verification/Connections.thy ===== *)
theory Connections
  imports NetworkSharding PeersHolder TopicPeers "HOL-Library.AList"
begin

text \<open>
  The connections of a node: the metrics and the watcher of connections (\<^verbatim>\<open>p2p/libp2p/metrics/\<close>), the
  host that asks the sharder before it connects (\<^verbatim>\<open>discovery/hostWithConnectionManagement.go\<close>,
  \<^verbatim>\<open>connectableHost.go\<close>), the connection monitor (\<^verbatim>\<open>connectionMonitor/libp2pConnectionMonitorSimple.go\<close>)
  and the connections handler (\<^verbatim>\<open>connectionsHandler.go\<close>). The network and the host of \<^verbatim>\<open>go-libp2p\<close> are a
  record of operations over the state \<open>'n\<close> of the network.
\<close>

section \<open>The network\<close>

record network_conn =
  nc_RemotePeer :: peerid
  nc_RemoteMultiaddr :: string
  nc_ID :: bytes

record AddrInfo =
  ai_ID :: peerid
  ai_Addrs :: "string list"

record 'n network_ops =
  nw_Peers :: "'n \<Rightarrow> peerid list"
  nw_Conns :: "'n \<Rightarrow> network_conn list"
  nw_ConnsToPeer :: "peerid \<Rightarrow> 'n \<Rightarrow> network_conn list"
  nw_Connected :: "peerid \<Rightarrow> 'n \<Rightarrow> bool"
  nw_ClosePeer :: "peerid \<Rightarrow> 'n \<Rightarrow> p2p_error option \<times> 'n"
  nw_CloseConn :: "network_conn \<Rightarrow> 'n \<Rightarrow> p2p_error option \<times> 'n"
  nw_Connect :: "AddrInfo \<Rightarrow> 'n \<Rightarrow> p2p_error option \<times> 'n"
  nw_NewMultiaddr :: "string \<Rightarrow> string res"
  nw_AddrInfoFromP2pAddr :: "string \<Rightarrow> AddrInfo res"
  nw_StorePeers :: "'n \<Rightarrow> peerid list"
  nw_StoreAddrs :: "peerid \<Rightarrow> 'n \<Rightarrow> string list"
  nw_GetProtocols :: "peerid \<Rightarrow> 'n \<Rightarrow> string list res"
  nw_Addrs :: "'n \<Rightarrow> string list"
  nw_Pretty :: "peerid \<Rightarrow> string"

text \<open>\<^verbatim>\<open>connectableHost\<close>: the parsing of an address is that of \<^verbatim>\<open>go-multiaddr\<close>; a parsed address is kept as it is printed.\<close>

definition AddressToPeerInfo :: "'n network_ops \<Rightarrow> string \<Rightarrow> AddrInfo res" where
  "AddressToPeerInfo nw address = andThen (nw_NewMultiaddr nw address) (\<lambda>multiAddr. nw_AddrInfoFromP2pAddr nw multiAddr)"

definition ConnectToPeer :: "'n network_ops \<Rightarrow> string \<Rightarrow> 'n \<Rightarrow> p2p_error option \<times> 'n" where
  "ConnectToPeer nw address n =
     (case AddressToPeerInfo nw address of
        Inl err \<Rightarrow> (Some err, n)
      | Inr pInfo \<Rightarrow> nw_Connect nw pInfo n)"

section \<open>Metrics and watchers\<close>

record connectionsMetric =
  numConnections :: uint32
  numDisconnections :: uint32

definition NewConnectionsMetric :: connectionsMetric where
  "NewConnectionsMetric = \<lparr>numConnections = 0, numDisconnections = 0\<rparr>"

definition metric_Connected :: "connectionsMetric \<Rightarrow> connectionsMetric" where
  "metric_Connected cm = cm\<lparr>numConnections := numConnections cm + 1\<rparr>"

definition metric_Disconnected :: "connectionsMetric \<Rightarrow> connectionsMetric" where
  "metric_Disconnected cm = cm\<lparr>numDisconnections := numDisconnections cm + 1\<rparr>"

definition ResetNumConnections :: "connectionsMetric \<Rightarrow> uint32 \<times> connectionsMetric" where
  "ResetNumConnections cm = (numConnections cm, cm\<lparr>numConnections := 0\<rparr>)"

definition ResetNumDisconnections :: "connectionsMetric \<Rightarrow> uint32 \<times> connectionsMetric" where
  "ResetNumDisconnections cm = (numDisconnections cm, cm\<lparr>numDisconnections := 0\<rparr>)"

text \<open>
  The watcher that prints: the time cache of \<^verbatim>\<open>mx-chain-storage-go\<close> is a parameter, the prints are
  recorded. \<^verbatim>\<open>strings.Trim(s, " ")\<close> cuts the spaces at both ends.
\<close>

record 'k watcher_cache =
  wc_Has :: "string \<Rightarrow> 'k \<Rightarrow> bool"
  wc_Upsert :: "string \<Rightarrow> int \<Rightarrow> 'k \<Rightarrow> p2p_error option \<times> 'k"
  wc_Sweep :: "'k \<Rightarrow> 'k"

record 'k printConnectionsWatcher =
  pcw_timeCacher :: 'k
  pcw_timeToLive :: int
  pcw_printed :: "(peerid \<times> string) list"
  pcw_cancelled :: bool

definition minTimeToLive :: int where "minTimeToLive = 1000000000"

definition trimSpaces :: "string \<Rightarrow> string" where
  "trimSpaces s = rev (dropWhile (\<lambda>c. c = CHR '' '') (rev (dropWhile (\<lambda>c. c = CHR '' '') s)))"

definition NewPrintConnectionsWatcher :: "'k \<Rightarrow> int \<Rightarrow> logger option \<Rightarrow> 'k printConnectionsWatcher res" where
  "NewPrintConnectionsWatcher newTimeCache timeToLive log =
     (if timeToLive < minTimeToLive then Inl (ErrExternal ''invalid value for the time-to-live parameter'')
      else if log = None then Inl ErrNilLogger
      else Inr \<lparr>pcw_timeCacher = newTimeCache, pcw_timeToLive = timeToLive, pcw_printed = [], pcw_cancelled = False\<rparr>)"

definition doSweep_turn :: "'k watcher_cache \<Rightarrow> 'k printConnectionsWatcher \<Rightarrow> 'k printConnectionsWatcher" where
  "doSweep_turn tc pcw = pcw\<lparr>pcw_timeCacher := wc_Sweep tc (pcw_timeCacher pcw)\<rparr>"

definition NewKnownConnection :: "'k watcher_cache \<Rightarrow> (peerid \<Rightarrow> string) \<Rightarrow> peerid \<Rightarrow> string \<Rightarrow> 'k printConnectionsWatcher
  \<Rightarrow> 'k printConnectionsWatcher" where
  "NewKnownConnection tc Pretty p connection pcw =
     (let conn = trimSpaces connection
      in if length conn = 0 then pcw
         else
           (let has = wc_Has tc (Pretty p) (pcw_timeCacher pcw);
                (err, cache) = wc_Upsert tc (Pretty p) (pcw_timeToLive pcw) (pcw_timeCacher pcw);
                pcw = pcw\<lparr>pcw_timeCacher := cache\<rparr>
            in if err \<noteq> None then pcw
               else if has then pcw
               else pcw\<lparr>pcw_printed := pcw_printed pcw @ [(p, conn)]\<rparr>))"

definition watcher_Close :: "'k printConnectionsWatcher \<Rightarrow> p2p_error option \<times> 'k printConnectionsWatcher" where
  "watcher_Close pcw = (None, pcw\<lparr>pcw_cancelled := True\<rparr>)"

datatype 'k ConnectionsWatcher = PrintWatcher "'k printConnectionsWatcher" | DisabledWatcher

definition NewConnectionsWatcher :: "'k \<Rightarrow> string \<Rightarrow> int \<Rightarrow> logger option \<Rightarrow> 'k ConnectionsWatcher res" where
  "NewConnectionsWatcher newTimeCache connectionsWatcherType timeToLive log =
     (if connectionsWatcherType = ConnectionWatcherTypePrint
      then map_sum id PrintWatcher (NewPrintConnectionsWatcher newTimeCache timeToLive log)
      else if connectionsWatcherType = ConnectionWatcherTypeDisabled \<or> connectionsWatcherType = ConnectionWatcherTypeEmpty
      then Inr DisabledWatcher
      else Inl (ErrExternal ''unknown connection type''))"

fun Watcher_NewKnownConnection :: "'k watcher_cache \<Rightarrow> (peerid \<Rightarrow> string) \<Rightarrow> peerid \<Rightarrow> string \<Rightarrow> 'k ConnectionsWatcher
  \<Rightarrow> 'k ConnectionsWatcher" where
  "Watcher_NewKnownConnection tc Pretty p connection (PrintWatcher pcw) = PrintWatcher (NewKnownConnection tc Pretty p connection pcw)"
| "Watcher_NewKnownConnection tc Pretty p connection DisabledWatcher = DisabledWatcher"

section \<open>The connection monitor\<close>

text \<open>
  The monitor: \<open>srt\<close> and \<open>Pretty\<close> are the parameters of the sharder, \<open>all\<close> is the identifier for all
  shards that the preferred peers holder uses. The channel \<^verbatim>\<open>chDoReconnect\<close> is not buffered: a request
  is taken only while the loop waits. The messenger gives one preferred peers holder to the monitor and to
  its sharder; \<open>with_holder\<close> lets the sharder read the holder as it is at the call.
\<close>

fun with_holder :: "peersHolder \<Rightarrow> Sharder \<Rightarrow> Sharder" where
  "with_holder ph (ListsSharderImpl ls) = ListsSharderImpl (ls\<lparr>preferredPeersHolder := (\<lambda>p. Contains p ph)\<rparr>)"
| "with_holder ph (OneListSharderImpl ols) = OneListSharderImpl ols"
| "with_holder ph NilListSharderImpl = NilListSharderImpl"

record 'k connectionMonitor =
  cmo_threshold :: int
  cmo_sharder :: Sharder
  cmo_preferred :: peersHolder
  cmo_watcher :: "'k ConnectionsWatcher"
  cmo_IsDenied :: "peerid \<Rightarrow> bool"
  cmo_canReconnect :: bool
  cmo_closed :: bool

record 'k ArgsConnectionMonitorSimple =
  acm_nilReconnecters :: "bool list"
  acm_ThresholdMinConnectedPeers :: uint32
  acm_Sharder :: "Sharder option"
  acm_PreferredPeersHolder :: "peersHolder option"
  acm_ConnectionsWatcher :: "'k ConnectionsWatcher option"
  acm_nilNetwork :: bool
  acm_Logger :: "logger option"

definition NewLibp2pConnectionMonitorSimple :: "'k ArgsConnectionMonitorSimple \<Rightarrow> 'k connectionMonitor res" where
  "NewLibp2pConnectionMonitorSimple args =
     (if True \<in> set (acm_nilReconnecters args) then Inl ErrNilReconnecter
      else
     (case acm_Sharder args of
        None \<Rightarrow> Inl ErrNilSharder
      | Some sh \<Rightarrow>
     (case acm_PreferredPeersHolder args of
        None \<Rightarrow> Inl ErrNilPreferredPeersHolder
      | Some preferred \<Rightarrow>
     (case acm_ConnectionsWatcher args of
        None \<Rightarrow> Inl ErrNilConnectionsWatcher
      | Some watcher \<Rightarrow>
          (if acm_nilNetwork args then Inl ErrNilNetwork
           else if acm_Logger args = None then Inl ErrNilLogger
           else Inr \<lparr>cmo_threshold = uint (acm_ThresholdMinConnectedPeers args), cmo_sharder = sh, cmo_preferred = preferred,
                     cmo_watcher = watcher, cmo_IsDenied = (\<lambda>_. False), cmo_canReconnect = True,
                     cmo_closed = False\<rparr>)))))"

definition closePeers :: "'n network_ops \<Rightarrow> peerid list \<Rightarrow> 'n \<Rightarrow> 'n" where
  "closePeers nw pids n = fold (\<lambda>p n. snd (nw_ClosePeer nw p n)) pids n"

text \<open>\<^const>\<open>None\<close> is a panic of the sharder.\<close>

definition Connected :: "'n network_ops \<Rightarrow> 'k watcher_cache \<Rightarrow> (PeerDistances \<Rightarrow> PeerDistances) \<Rightarrow> uint32 \<Rightarrow> network_conn
  \<Rightarrow> 'k connectionMonitor \<Rightarrow> 'n \<Rightarrow> ('k connectionMonitor \<times> 'n) option" where
  "Connected nw tc srt all conn lcms n =
     (let peerId = nc_RemotePeer conn
      in if cmo_IsDenied lcms peerId then Some (lcms, snd (nw_CloseConn nw conn n))
         else
           (let allPeers = nw_Peers nw n;
                connectionStr = nc_RemoteMultiaddr conn;
                lcms = lcms\<lparr>cmo_watcher := Watcher_NewKnownConnection tc (nw_Pretty nw) peerId connectionStr (cmo_watcher lcms),
                            cmo_preferred := PutConnectionAddress all peerId connectionStr (cmo_preferred lcms)\<rparr>
            in case Sharder_ComputeEvictionList srt (nw_Pretty nw) (with_holder (cmo_preferred lcms) (cmo_sharder lcms)) allPeers of
                 None \<Rightarrow> None
               | Some evictedList \<Rightarrow> Some (lcms, closePeers nw evictedList n)))"

definition monitor_IsConnectedToTheNetwork :: "'n network_ops \<Rightarrow> 'k connectionMonitor \<Rightarrow> 'n \<Rightarrow> bool" where
  "monitor_IsConnectedToTheNetwork nw lcms n \<longleftrightarrow> int (length (nw_Peers nw n)) \<ge> cmo_threshold lcms"

definition monitor_ThresholdMinConnectedPeers :: "'k connectionMonitor \<Rightarrow> int" where
  "monitor_ThresholdMinConnectedPeers lcms = cmo_threshold lcms"

definition monitor_PeerDenialEvaluator :: "'k connectionMonitor \<Rightarrow> peerid \<Rightarrow> bool" where
  "monitor_PeerDenialEvaluator lcms = cmo_IsDenied lcms"

text \<open>The result is whether a reconnection is requested.\<close>

definition doReconnectionIfNeeded :: "'n network_ops \<Rightarrow> 'k connectionMonitor \<Rightarrow> 'n \<Rightarrow> bool" where
  "doReconnectionIfNeeded nw lcms n = (\<not> monitor_IsConnectedToTheNetwork nw lcms n)"

text \<open>\<^verbatim>\<open>Disconnected\<close> removes the identifier of the connection, \<^verbatim>\<open>conn.ID()\<close>, from the preferred peers.\<close>

definition Disconnected :: "'n network_ops \<Rightarrow> network_conn option \<Rightarrow> 'k connectionMonitor \<Rightarrow> 'n \<Rightarrow> (bool \<times> 'k connectionMonitor) option" where
  "Disconnected nw conn lcms n =
     (let r = (case conn of
                 None \<Rightarrow> Some lcms
               | Some c \<Rightarrow> map_option (\<lambda>ph. lcms\<lparr>cmo_preferred := ph\<rparr>) (RemovePeer (nc_ID c) (cmo_preferred lcms)))
      in map_option (\<lambda>lcms. (doReconnectionIfNeeded nw lcms n, lcms)) r)"

definition monitor_SetThresholdMinConnectedPeers :: "'n network_ops \<Rightarrow> int \<Rightarrow> 'n option \<Rightarrow> 'k connectionMonitor \<Rightarrow> bool \<times> 'k connectionMonitor" where
  "monitor_SetThresholdMinConnectedPeers nw threshold netw lcms =
     (case netw of
        None \<Rightarrow> (False, lcms)
      | Some n \<Rightarrow> (let lcms = lcms\<lparr>cmo_threshold := threshold\<rparr> in (doReconnectionIfNeeded nw lcms n, lcms)))"

definition monitor_SetPeerDenialEvaluator :: "(peerid \<Rightarrow> bool) option \<Rightarrow> 'k connectionMonitor \<Rightarrow> p2p_error option \<times> 'k connectionMonitor" where
  "monitor_SetPeerDenialEvaluator handler lcms =
     (case handler of None \<Rightarrow> (Some ErrNilPeerDenialEvaluator, lcms) | Some d \<Rightarrow> (None, lcms\<lparr>cmo_IsDenied := d\<rparr>))"

definition checkConnectionsBlocking :: "'n network_ops \<Rightarrow> 'k connectionMonitor \<Rightarrow> 'n \<Rightarrow> 'n" where
  "checkConnectionsBlocking nw lcms n = closePeers nw (filter (cmo_IsDenied lcms) (nw_Peers nw n)) n"

text \<open>
  One case of the \<^verbatim>\<open>select\<close> of \<^verbatim>\<open>processLoop\<close>; \<open>recs\<close> are the reconnecters, each with what its
  \<^verbatim>\<open>ReconnectToNetwork\<close> does to the network.
\<close>

datatype monitor_event = TimerCheckConnections | ChDoReconnect | TimerBetweenReconnectAttempts | CtxDone

text \<open>\<^verbatim>\<open>doReconn\<close>: the request reaches the loop as an event only while the loop waits in its \<^verbatim>\<open>select\<close>, else it is dropped.\<close>

definition doReconn :: "bool \<Rightarrow> monitor_event option" where
  "doReconn waiting = (if waiting then Some ChDoReconnect else None)"

definition reconnectToNetwork :: "('n \<Rightarrow> 'n) list \<Rightarrow> 'n \<Rightarrow> 'n" where
  "reconnectToNetwork recs n = fold (\<lambda>reconnecter n. reconnecter n) recs n"

fun processLoop_turn :: "'n network_ops \<Rightarrow> ('n \<Rightarrow> 'n) list \<Rightarrow> monitor_event \<Rightarrow> 'k connectionMonitor \<Rightarrow> 'n \<Rightarrow> 'k connectionMonitor \<times> 'n" where
  "processLoop_turn nw recs TimerCheckConnections lcms n = (lcms, checkConnectionsBlocking nw lcms n)"
| "processLoop_turn nw recs ChDoReconnect lcms n =
     (if \<not> cmo_canReconnect lcms then (lcms, n)
      else (lcms\<lparr>cmo_canReconnect := False\<rparr>, reconnectToNetwork recs n))"
| "processLoop_turn nw recs TimerBetweenReconnectAttempts lcms n = (lcms\<lparr>cmo_canReconnect := True\<rparr>, n)"
| "processLoop_turn nw recs CtxDone lcms n = (lcms\<lparr>cmo_closed := True\<rparr>, n)"

definition monitor_Close :: "'k connectionMonitor \<Rightarrow> p2p_error option \<times> 'k connectionMonitor" where
  "monitor_Close lcms = (None, lcms\<lparr>cmo_closed := True\<rparr>)"

section \<open>The host with connection management\<close>

text \<open>The sharder is an object that the messenger shares; \<open>hw_sharder\<close> is its value at the call.\<close>

record 'k hostWithConnectionManagement =
  hw_sharder :: Sharder
  hw_watcher :: "'k ConnectionsWatcher"

definition NewHostWithConnectionManagement :: "bool \<Rightarrow> Sharder option \<Rightarrow> 'k ConnectionsWatcher option \<Rightarrow> 'k hostWithConnectionManagement res" where
  "NewHostWithConnectionManagement nilHost sh watcher =
     (if nilHost then Inl ErrNilHost
      else
     (case sh of
        None \<Rightarrow> Inl ErrNilSharder
      | Some s \<Rightarrow>
     (case watcher of
        None \<Rightarrow> Inl ErrNilConnectionsWatcher
      | Some w \<Rightarrow> Inr \<lparr>hw_sharder = s, hw_watcher = w\<rparr>)))"

definition concatenateAddresses :: "string list \<Rightarrow> string" where
  "concatenateAddresses addresses = concat (map (\<lambda>ma. ma @ '' '') addresses)"

definition canConnectToPeer :: "'n network_ops \<Rightarrow> (PeerDistances \<Rightarrow> PeerDistances) \<Rightarrow> peerid \<Rightarrow> 'k hostWithConnectionManagement \<Rightarrow> 'n
  \<Rightarrow> p2p_error option option" where
  "canConnectToPeer nw srt p hwcm n =
     (let allPeers = nw_Peers nw n;
          allPeers = (if \<not> Sharder_Has (hw_sharder hwcm) p allPeers then allPeers @ [p] else allPeers)
      in case Sharder_ComputeEvictionList srt (nw_Pretty nw) (hw_sharder hwcm) allPeers of
           None \<Rightarrow> None
         | Some evicted \<Rightarrow> (if Sharder_Has (hw_sharder hwcm) p evicted then Some (Some ErrUnwantedPeer) else Some None))"

definition hwcm_Connect :: "'n network_ops \<Rightarrow> 'k watcher_cache \<Rightarrow> (PeerDistances \<Rightarrow> PeerDistances) \<Rightarrow> AddrInfo
  \<Rightarrow> 'k hostWithConnectionManagement \<Rightarrow> 'n \<Rightarrow> (p2p_error option \<times> 'k hostWithConnectionManagement \<times> 'n) option" where
  "hwcm_Connect nw tc srt pi hwcm n =
     (let addresses = concatenateAddresses (ai_Addrs pi);
          hwcm = hwcm\<lparr>hw_watcher := Watcher_NewKnownConnection tc (nw_Pretty nw) (ai_ID pi) addresses (hw_watcher hwcm)\<rparr>
      in case canConnectToPeer nw srt (ai_ID pi) hwcm n of
           None \<Rightarrow> None
         | Some (Some err) \<Rightarrow> Some (Some err, hwcm, n)
         | Some None \<Rightarrow> (let (err, n) = nw_Connect nw pi n in Some (err, hwcm, n)))"

definition hwcm_IsConnected :: "'n network_ops \<Rightarrow> AddrInfo \<Rightarrow> 'n \<Rightarrow> bool" where
  "hwcm_IsConnected nw pi n = nw_Connected nw (ai_ID pi) n"

section \<open>The connections handler\<close>

text \<open>
  The Go maps from shards to counts and to addresses are association lists; a missing key reads as zero
  or as the empty slice. The sharder and the preferred peers holder of the handler are those of its
  connection monitor, as the messenger builds both.
\<close>

record ConnectedPeersInfo =
  SelfShardID :: uint32
  UnknownPeers :: "string list"
  Seeders :: "string list"
  IntraShardValidators :: "(uint32 \<times> string list) list"
  IntraShardObservers :: "(uint32 \<times> string list) list"
  CrossShardValidators :: "(uint32 \<times> string list) list"
  CrossShardObservers :: "(uint32 \<times> string list) list"
  NumObserversOnShard :: "(uint32 \<times> int) list"
  NumValidatorsOnShard :: "(uint32 \<times> int) list"
  NumPreferredPeersOnShard :: "(uint32 \<times> int) list"
  NumIntraShardValidators :: int
  NumIntraShardObservers :: int
  NumCrossShardValidators :: int
  NumCrossShardObservers :: int

definition count_at :: "(uint32 \<times> int) list \<Rightarrow> uint32 \<Rightarrow> int" where
  "count_at m k = (case map_of m k of None \<Rightarrow> 0 | Some v \<Rightarrow> v)"

definition addrs_at :: "(uint32 \<times> string list) list \<Rightarrow> uint32 \<Rightarrow> string list" where
  "addrs_at m k = (case map_of m k of None \<Rightarrow> [] | Some v \<Rightarrow> v)"

definition incr :: "uint32 \<Rightarrow> (uint32 \<times> int) list \<Rightarrow> (uint32 \<times> int) list" where
  "incr k m = AList.update k (count_at m k + 1) m"

definition append_at :: "uint32 \<Rightarrow> string \<Rightarrow> (uint32 \<times> string list) list \<Rightarrow> (uint32 \<times> string list) list" where
  "append_at k s m = AList.update k (addrs_at m k @ [s]) m"

record 'k connectionsHandler =
  ch_connMonitor :: "'k connectionMonitor"
  ch_peersOnChannel :: peersOnChannel
  ch_peerShardResolver :: PeerShardResolver
  ch_peerID :: peerid
  ch_metric :: connectionsMetric
  ch_protocolIDs :: "string list"
  ch_ctxDone :: bool

record 'k ArgConnectionsHandler =
  ach_nilHost :: bool
  ach_PeersOnChannel :: "peersOnChannel option"
  ach_PeerShardResolver :: "PeerShardResolver option"
  ach_Sharder :: "Sharder option"
  ach_PreferredPeersHolder :: "peersHolder option"
  ach_ConnMonitor :: "'k connectionMonitor option"
  ach_nilDiscoverers :: "bool list"
  ach_PeerID :: peerid
  ach_ConnectionsMetric :: "connectionsMetric option"
  ach_Logger :: "logger option"
  ach_ProtocolIDs :: "string list"

definition kadProtocol :: string where "kadProtocol = ''/kad/1.0.0''"

definition checkArgConnectionsHandler :: "'k ArgConnectionsHandler \<Rightarrow> p2p_error option" where
  "checkArgConnectionsHandler args =
     (if ach_nilHost args then Some ErrNilHost
      else if ach_PeersOnChannel args = None then Some ErrNilPeersOnChannel
      else if ach_PeerShardResolver args = None then Some ErrNilPeerShardResolver
      else if ach_Sharder args = None then Some ErrNilSharder
      else if ach_PreferredPeersHolder args = None then Some ErrNilPreferredPeersHolder
      else if ach_ConnMonitor args = None then Some ErrNilConnectionMonitor
      else if True \<in> set (ach_nilDiscoverers args) then Some ErrNilPeerDiscoverer
      else if ach_ConnectionsMetric args = None then Some ErrNilConnectionsMetric
      else if ach_Logger args = None then Some ErrNilLogger
      else None)"

definition NewConnectionsHandler :: "'k ArgConnectionsHandler \<Rightarrow> 'k connectionsHandler res" where
  "NewConnectionsHandler args =
     (case checkArgConnectionsHandler args of
        Some err \<Rightarrow> Inl err
      | None \<Rightarrow> Inr \<lparr>ch_connMonitor = the (ach_ConnMonitor args), ch_peersOnChannel = the (ach_PeersOnChannel args),
                     ch_peerShardResolver = the (ach_PeerShardResolver args), ch_peerID = ach_PeerID args,
                     ch_metric = the (ach_ConnectionsMetric args),
                     ch_protocolIDs = map (\<lambda>pr. pr @ kadProtocol) (ach_ProtocolIDs args), ch_ctxDone = False\<rparr>)"

fun handler_Bootstrap_loop :: "('n \<Rightarrow> p2p_error option \<times> 'n) list \<Rightarrow> p2p_error option \<Rightarrow> 'n \<Rightarrow> p2p_error option \<times> 'n" where
  "handler_Bootstrap_loop [] lastError n = (lastError, n)"
| "handler_Bootstrap_loop (discoverer # rest) lastError n =
     (let (err, n) = discoverer n
      in handler_Bootstrap_loop rest (if err \<noteq> None then err else lastError) n)"

definition handler_Bootstrap :: "('n \<Rightarrow> p2p_error option \<times> 'n) list \<Rightarrow> 'n \<Rightarrow> p2p_error option \<times> 'n" where
  "handler_Bootstrap peerDiscoverers n = handler_Bootstrap_loop peerDiscoverers None n"

definition Peers :: "'n network_ops \<Rightarrow> 'n \<Rightarrow> peerid list" where
  "Peers nw n = nw_StorePeers nw n"

definition HasCompatibleProtocolID :: "'n network_ops \<Rightarrow> string \<Rightarrow> 'k connectionsHandler \<Rightarrow> 'n \<Rightarrow> bool" where
  "HasCompatibleProtocolID nw address h n =
     (case AddressToPeerInfo nw address of
        Inl err \<Rightarrow> False
      | Inr addrInfo \<Rightarrow>
          (case nw_GetProtocols nw (ai_ID addrInfo) n of
             Inl err \<Rightarrow> False
           | Inr protocols \<Rightarrow> list_ex (\<lambda>pr. pr \<in> set (ch_protocolIDs h)) protocols))"

definition Addresses :: "'n network_ops \<Rightarrow> 'k connectionsHandler \<Rightarrow> 'n \<Rightarrow> string list" where
  "Addresses nw h n = map (\<lambda>address. address @ ''/p2p/'' @ nw_Pretty nw (ch_peerID h)) (nw_Addrs nw n)"

definition handler_ConnectToPeer :: "'n network_ops \<Rightarrow> string \<Rightarrow> 'n \<Rightarrow> p2p_error option \<times> 'n" where
  "handler_ConnectToPeer nw address n = ConnectToPeer nw address n"

definition IsConnected :: "'n network_ops \<Rightarrow> peerid \<Rightarrow> 'n \<Rightarrow> bool" where
  "IsConnected nw peerID n = nw_Connected nw peerID n"

fun ConnectedPeers_loop :: "'n network_ops \<Rightarrow> 'n \<Rightarrow> network_conn list \<Rightarrow> peerid list \<Rightarrow> peerid list" where
  "ConnectedPeers_loop nw n [] result = result"
| "ConnectedPeers_loop nw n (conn # connections) result =
     (let p = nc_RemotePeer conn
      in if \<not> IsConnected nw p n then ConnectedPeers_loop nw n connections result
         else if p \<in> set result then ConnectedPeers_loop nw n connections result
         else ConnectedPeers_loop nw n connections (result @ [p]))"

definition ConnectedPeers :: "'n network_ops \<Rightarrow> 'n \<Rightarrow> peerid list" where
  "ConnectedPeers nw n = ConnectedPeers_loop nw n (nw_Conns nw n) []"

text \<open>
  One turn of waiting: \<^const>\<open>None\<close> is the end of the maximal waiting time, \<open>Some n\<close> a poll that finds the
  network in the state \<open>n\<close>. The result of \<open>waitForConnections\<close> is whether the call has returned.
\<close>

fun shouldStopWaiting :: "'n network_ops \<Rightarrow> 'n option \<Rightarrow> uint32 \<Rightarrow> bool" where
  "shouldStopWaiting nw None minNumOfPeers = True"
| "shouldStopWaiting nw (Some n) minNumOfPeers = (uint minNumOfPeers \<le> int (length (ConnectedPeers nw n)))"

fun waitForConnections :: "'n network_ops \<Rightarrow> uint32 \<Rightarrow> 'n option list \<Rightarrow> bool" where
  "waitForConnections nw minNumOfPeers [] = False"
| "waitForConnections nw minNumOfPeers (turn # turns) =
     (if shouldStopWaiting nw turn minNumOfPeers then True else waitForConnections nw minNumOfPeers turns)"

text \<open>With a minimum of zero the call sleeps for the whole time.\<close>

definition WaitForConnections :: "'n network_ops \<Rightarrow> uint32 \<Rightarrow> 'n option list \<Rightarrow> bool" where
  "WaitForConnections nw minNumOfPeers turns =
     (if minNumOfPeers = 0 then list_ex (\<lambda>turn. case turn of None \<Rightarrow> True | Some _ \<Rightarrow> False) turns
      else waitForConnections nw minNumOfPeers turns)"

definition ConnectedAddresses :: "'n network_ops \<Rightarrow> 'n \<Rightarrow> string list" where
  "ConnectedAddresses nw n =
     map (\<lambda>c. nc_RemoteMultiaddr c @ ''/p2p/'' @ nw_Pretty nw (nc_RemotePeer c)) (nw_Conns nw n)"

definition PeerAddresses :: "'n network_ops \<Rightarrow> peerid \<Rightarrow> 'n \<Rightarrow> string list" where
  "PeerAddresses nw p n =
     (case find (\<lambda>c. nc_RemotePeer c = p) (nw_Conns nw n) of None \<Rightarrow> [] | Some c \<Rightarrow> [nc_RemoteMultiaddr c])
     @ nw_StoreAddrs nw p n"

definition ConnectedPeersOnTopic :: "int \<Rightarrow> string \<Rightarrow> 'k connectionsHandler \<Rightarrow> peerid list \<times> 'k connectionsHandler" where
  "ConnectedPeersOnTopic now topic h =
     (let (peers, poc) = ConnectedPeersOnChannel now topic (ch_peersOnChannel h) in (peers, h\<lparr>ch_peersOnChannel := poc\<rparr>))"

definition handler_SetPeerShardResolver :: "PeerShardResolver option \<Rightarrow> 'k connectionsHandler \<Rightarrow> p2p_error option \<times> 'k connectionsHandler" where
  "handler_SetPeerShardResolver resolver h =
     (case resolver of
        None \<Rightarrow> (Some ErrNilPeerShardResolver, h)
      | Some r \<Rightarrow>
          (let (err, sh) = Sharder_SetPeerShardResolver resolver (cmo_sharder (ch_connMonitor h));
               h = h\<lparr>ch_connMonitor := (ch_connMonitor h)\<lparr>cmo_sharder := sh\<rparr>\<rparr>
           in if err \<noteq> None then (err, h) else (None, h\<lparr>ch_peerShardResolver := r\<rparr>)))"

fun appendPeerInfo :: "bool \<Rightarrow> P2PPeerInfo \<Rightarrow> P2PPeerInfo \<Rightarrow> string \<Rightarrow> ConnectedPeersInfo \<Rightarrow> ConnectedPeersInfo" where
  "appendPeerInfo isSeeder info selfInfo connString cpi =
     (let s = ShardID info
      in case PeerType info of
           UnknownPeer \<Rightarrow>
             (if isSeeder then cpi\<lparr>Seeders := Seeders cpi @ [connString]\<rparr>
              else cpi\<lparr>UnknownPeers := UnknownPeers cpi @ [connString]\<rparr>)
         | ValidatorPeer \<Rightarrow>
             (let cpi = cpi\<lparr>NumValidatorsOnShard := incr s (NumValidatorsOnShard cpi)\<rparr>
              in if ShardID selfInfo \<noteq> s
                 then cpi\<lparr>CrossShardValidators := append_at s connString (CrossShardValidators cpi),
                          NumCrossShardValidators := NumCrossShardValidators cpi + 1\<rparr>
                 else cpi\<lparr>IntraShardValidators := append_at s connString (IntraShardValidators cpi),
                          NumIntraShardValidators := NumIntraShardValidators cpi + 1\<rparr>)
         | ObserverPeer \<Rightarrow>
             (let cpi = cpi\<lparr>NumObserversOnShard := incr s (NumObserversOnShard cpi)\<rparr>
              in if ShardID selfInfo \<noteq> s
                 then cpi\<lparr>CrossShardObservers := append_at s connString (CrossShardObservers cpi),
                          NumCrossShardObservers := NumCrossShardObservers cpi + 1\<rparr>
                 else cpi\<lparr>IntraShardObservers := append_at s connString (IntraShardObservers cpi),
                          NumIntraShardObservers := NumIntraShardObservers cpi + 1\<rparr>)
         | OtherPeerType _ \<Rightarrow> cpi)"

definition connStringOf :: "'n network_ops \<Rightarrow> peerid \<Rightarrow> 'n \<Rightarrow> string" where
  "connStringOf nw p n =
     (case nw_ConnsToPeer nw p n of
        [] \<Rightarrow> ''[invalid connection string]''
      | c # _ \<Rightarrow> nc_RemoteMultiaddr c @ ''/p2p/'' @ nw_Pretty nw p)"

definition GetConnectedPeersInfo_turn :: "'n network_ops \<Rightarrow> 'k connectionsHandler \<Rightarrow> 'n \<Rightarrow> peerid \<Rightarrow> ConnectedPeersInfo \<Rightarrow> ConnectedPeersInfo" where
  "GetConnectedPeersInfo_turn nw h n p cpi =
     (let resolver = ch_peerShardResolver h;
          info = resolver p;
          cpi = appendPeerInfo (Sharder_IsSeeder (nw_Pretty nw) (cmo_sharder (ch_connMonitor h)) p) info (resolver (ch_peerID h))
                  (connStringOf nw p n) cpi
      in if Contains p (cmo_preferred (ch_connMonitor h))
         then cpi\<lparr>NumPreferredPeersOnShard := incr (ShardID info) (NumPreferredPeersOnShard cpi)\<rparr>
         else cpi)"

definition GetConnectedPeersInfo :: "'n network_ops \<Rightarrow> 'k connectionsHandler \<Rightarrow> 'n \<Rightarrow> ConnectedPeersInfo" where
  "GetConnectedPeersInfo nw h n =
     fold (GetConnectedPeersInfo_turn nw h n) (nw_Peers nw n)
       \<lparr>SelfShardID = ShardID (ch_peerShardResolver h (ch_peerID h)), UnknownPeers = [], Seeders = [],
        IntraShardValidators = [], IntraShardObservers = [], CrossShardValidators = [], CrossShardObservers = [],
        NumObserversOnShard = [], NumValidatorsOnShard = [], NumPreferredPeersOnShard = [],
        NumIntraShardValidators = 0, NumIntraShardObservers = 0, NumCrossShardValidators = 0, NumCrossShardObservers = 0\<rparr>"

definition IsConnectedToTheNetwork :: "'n network_ops \<Rightarrow> 'k connectionsHandler \<Rightarrow> 'n \<Rightarrow> bool" where
  "IsConnectedToTheNetwork nw h n = monitor_IsConnectedToTheNetwork nw (ch_connMonitor h) n"

text \<open>The second component of the result is whether a reconnection is requested.\<close>

definition SetThresholdMinConnectedPeers :: "'n network_ops \<Rightarrow> int \<Rightarrow> 'k connectionsHandler \<Rightarrow> 'n
  \<Rightarrow> p2p_error option \<times> bool \<times> 'k connectionsHandler" where
  "SetThresholdMinConnectedPeers nw minConnectedPeers h n =
     (if minConnectedPeers < 0 then (Some ErrInvalidValue, False, h)
      else (let (req, mon) = monitor_SetThresholdMinConnectedPeers nw minConnectedPeers (Some n) (ch_connMonitor h)
            in (None, req, h\<lparr>ch_connMonitor := mon\<rparr>)))"

definition handler_ThresholdMinConnectedPeers :: "'k connectionsHandler \<Rightarrow> int" where
  "handler_ThresholdMinConnectedPeers h = monitor_ThresholdMinConnectedPeers (ch_connMonitor h)"

definition handler_SetPeerDenialEvaluator :: "(peerid \<Rightarrow> bool) option \<Rightarrow> 'k connectionsHandler \<Rightarrow> p2p_error option \<times> 'k connectionsHandler" where
  "handler_SetPeerDenialEvaluator d h =
     (let (err, mon) = monitor_SetPeerDenialEvaluator d (ch_connMonitor h) in (err, h\<lparr>ch_connMonitor := mon\<rparr>))"

definition connections_Close :: "'k connectionsHandler \<Rightarrow> p2p_error option \<times> 'k connectionsHandler" where
  "connections_Close h =
     (let h = h\<lparr>ch_ctxDone := True\<rparr>;
          (errPoc, poc) = poc_Close (ch_peersOnChannel h);
          h = h\<lparr>ch_peersOnChannel := poc\<rparr>;
          (errConnMonitor, mon) = monitor_Close (ch_connMonitor h);
          h = h\<lparr>ch_connMonitor := mon\<rparr>
      in (if errConnMonitor \<noteq> None then errConnMonitor else errPoc, h))"

text \<open>What \<^verbatim>\<open>printConnectionsStatus\<close> prints of the metrics: the counts of the last 20 seconds and the rates.\<close>

definition printConnectionsStatus :: "'k connectionsHandler \<Rightarrow> (uint32 \<times> uint32 \<times> uint32 \<times> uint32) \<times> 'k connectionsHandler" where
  "printConnectionsStatus h =
     (let (conns, m) = ResetNumConnections (ch_metric h);
          (disconns, m) = ResetNumDisconnections m
      in ((conns, disconns, conns div 20, disconns div 20), h\<lparr>ch_metric := m\<rparr>))"

text \<open>One turn of \<^verbatim>\<open>printLogs\<close>: \<open>isDone\<close> is the end of the context, else the timer has fired.\<close>

definition printLogs_turn :: "bool \<Rightarrow> 'k connectionsHandler \<Rightarrow> ((uint32 \<times> uint32 \<times> uint32 \<times> uint32) \<times> 'k connectionsHandler) option" where
  "printLogs_turn isDone h = (if isDone then None else Some (printConnectionsStatus h))"

fun separate_by :: "string \<Rightarrow> string list \<Rightarrow> string list" where
  "separate_by sep (s # t # rest) = s # sep # separate_by sep (t # rest)"
| "separate_by sep rest = rest"

definition histogram_entry :: "uint32 \<Rightarrow> uint32 \<times> int \<Rightarrow> string" where
  "histogram_entry meta e =
     (case e of (key, v) \<Rightarrow> (if key = meta then ''meta'' else ''shard '' @ decimal_int (uint key)) @ '': '' @ decimal_int v)"

definition mapHistogram :: "uint32 \<Rightarrow> (uint32 \<times> int) list \<Rightarrow> string" where
  "mapHistogram MetachainShardId input =
     (let keys = sort (map fst input)
      in concat (separate_by '', '' (map (\<lambda>key. histogram_entry MetachainShardId (key, count_at input key)) keys)))"

section \<open>Facts about the connections\<close>

text \<open>
  What the monitor relies on of the network of \<^verbatim>\<open>go-libp2p\<close>: \<^verbatim>\<open>Peers\<close> lists each remote peer of the open
  connections once, \<^verbatim>\<open>ClosePeer\<close> closes the connections to this peer and \<^verbatim>\<open>Close\<close> this connection. Nothing is
  said of the order of the lists.
\<close>

definition network_laws :: "'n network_ops \<Rightarrow> bool" where
  "network_laws nw \<longleftrightarrow>
     (\<forall>n. distinct (nw_Peers nw n)) \<and>
     (\<forall>n. set (nw_Peers nw n) = nc_RemotePeer ` set (nw_Conns nw n)) \<and>
     (\<forall>p n. set (nw_Conns nw (snd (nw_ClosePeer nw p n))) = {c \<in> set (nw_Conns nw n). nc_RemotePeer c \<noteq> p}) \<and>
     (\<forall>c n. set (nw_Conns nw (snd (nw_CloseConn nw c n))) = set (nw_Conns nw n) - {c})"

lemma network_lawsD:
  assumes "network_laws nw"
  shows "distinct (nw_Peers nw n)" "set (nw_Peers nw n) = nc_RemotePeer ` set (nw_Conns nw n)"
    "set (nw_Conns nw (snd (nw_ClosePeer nw p n))) = {c \<in> set (nw_Conns nw n). nc_RemotePeer c \<noteq> p}"
    "set (nw_Conns nw (snd (nw_CloseConn nw c n))) = set (nw_Conns nw n) - {c}"
  using assms by (simp_all add: network_laws_def)

lemma closePeers_conns:
  assumes "network_laws nw"
  shows "set (nw_Conns nw (closePeers nw ps n)) = {c \<in> set (nw_Conns nw n). nc_RemotePeer c \<notin> set ps}"
  unfolding closePeers_def
  by (induction ps arbitrary: n) (auto simp: network_lawsD [OF assms])

lemma closePeers_peers:
  assumes "network_laws nw"
  shows "set (nw_Peers nw (closePeers nw ps n)) = set (nw_Peers nw n) - set ps"
  by (auto simp: network_lawsD(2) [OF assms] closePeers_conns [OF assms])

lemma mset_diff_filter:
  assumes "distinct xs" and "mset ys \<subseteq># mset xs"
  shows "mset xs - mset ys = mset (filter (\<lambda>q. q \<notin> set ys) xs)"
proof (rule multiset_eqI)
  fix q
  have le: "count (mset ys) q \<le> count (mset xs) q" using assms(2) by (rule mset_subset_eq_count)
  have 1: "count (mset xs) q = (if q \<in> set xs then 1 else 0)" using assms(1) by (rule distinct_count_atmost_1 [THEN iffD1, THEN spec])
  show "count (mset xs - mset ys) q = count (mset (filter (\<lambda>q. q \<notin> set ys) xs)) q"
  proof (cases "q \<in> set ys")
    case True
    then have "0 < count (mset ys) q" by (simp add: count_mset_gt_0)
    moreover have "count (mset xs) q \<le> 1" by (subst 1) simp
    ultimately have "count (mset ys) q = count (mset xs) q" using le by linarith
    with True show ?thesis by simp
  next
    case False
    then show ?thesis by (simp add: count_eq_zero_iff [THEN iffD2])
  qed
qed

lemma card_kept:
  assumes "distinct xs" and "mset ys \<subseteq># mset xs"
  shows "card {p \<in> set xs - set ys. P p} = size (filter_mset P (mset xs - mset ys))"
proof -
  have "card {p \<in> set xs - set ys. P p} = length (filter (\<lambda>p. P p \<and> p \<notin> set ys) xs)"
    using assms(1) by (subst distinct_card [symmetric]) (auto intro: arg_cong [where f = card])
  also have "\<dots> = size (filter_mset P (mset xs - mset ys))"
    unfolding mset_diff_filter [OF assms] filter_filter_mset mset_filter [symmetric] size_mset filter_filter by (simp add: conj_commute)
  finally show ?thesis .
qed

text \<open>A lists sharder that reads another preferred peers holder is a sharder built with that holder.\<close>

lemma NewListsSharder_holder:
  assumes "NewListsSharder ConvertPeerID arg = Inr ls0"
  shows "NewListsSharder ConvertPeerID (arg\<lparr>als_PreferredPeersHolder := Some f\<rparr>) = Inr (ls0\<lparr>preferredPeersHolder := f\<rparr>)"
  using assms
  by (auto simp: NewListsSharder_def processNumConnections_def Let_def split: option.splits if_splits)

lemma sharder_reach_holder:
  "sharder_reach ls0 ls \<Longrightarrow> sharder_reach (ls0\<lparr>preferredPeersHolder := f\<rparr>) (ls\<lparr>preferredPeersHolder := f\<rparr>)"
proof (induction rule: sharder_reach.induct)
  case (set_seeders ls addrs)
  from sharder_reach.set_seeders [OF set_seeders.IH, of addrs] show ?case by (cases ls) (simp add: SetSeeders_def)
next
  case (set_resolver ls psp)
  from sharder_reach.set_resolver [OF set_resolver.IH, of psp] show ?case
    by (cases psp; cases ls) (simp_all add: SetPeerShardResolver_def)
qed (rule sharder_reach.new)

lemma PutConnectionAddress_Contains [simp]: "Contains p (PutConnectionAddress all q c ph) = Contains p ph"
  by (simp add: Contains_def PutConnectionAddress_def addNewPeerInfoToMaps_def Let_def)

lemma Connected_accepts:
  assumes "\<not> cmo_IsDenied lcms (nc_RemotePeer conn)" and "cmo_sharder lcms = ListsSharderImpl ls"
    and "ListsSharder_ComputeEvictionList srt (nw_Pretty nw) (ls\<lparr>preferredPeersHolder := (\<lambda>p. Contains p (cmo_preferred lcms))\<rparr>)
           (nw_Peers nw n) = Some ev"
  shows "\<exists>lcms'. Connected nw tc srt all conn lcms n = Some (lcms', closePeers nw ev n) \<and> cmo_sharder lcms' = ListsSharderImpl ls \<and>
    cmo_preferred lcms' = PutConnectionAddress all (nc_RemotePeer conn) (nc_RemoteMultiaddr conn) (cmo_preferred lcms)"
  using assms by (simp add: Connected_def Let_def)

lemma ConnectedPeers_loop_spec:
  "distinct acc \<Longrightarrow>
     distinct (ConnectedPeers_loop nw n cs acc) \<and>
     set (ConnectedPeers_loop nw n cs acc) = set acc \<union> {p \<in> nc_RemotePeer ` set cs. nw_Connected nw p n}"
  by (induction cs arbitrary: acc) (auto simp: Let_def IsConnected_def)

lemma ConnectedPeers_spec:
  "distinct (ConnectedPeers nw n)"
  "set (ConnectedPeers nw n) = {p \<in> nc_RemotePeer ` set (nw_Conns nw n). nw_Connected nw p n}"
  using ConnectedPeers_loop_spec [of "[]" nw n "nw_Conns nw n"] by (simp_all add: ConnectedPeers_def)

lemma waitForConnections_iff:
  "waitForConnections nw m turns \<longleftrightarrow>
     None \<in> set turns \<or> (\<exists>n. Some n \<in> set turns \<and> uint m \<le> int (length (ConnectedPeers nw n)))"
proof (induction turns)
  case (Cons t ts)
  then show ?case by (cases t) auto
qed simp

text \<open>What a connection event does to the connected peers.\<close>

lemma Connected_limits:
  assumes "NewListsSharder ConvertPeerID arg = Inr ls0" and "sharder_reach ls0 ls"
    and "\<forall>p. length (ConvertPeerID p) = 32" and "sorter srt Distance" and "network_laws nw"
    and "cmo_sharder lcms = ListsSharderImpl ls" and "\<not> cmo_IsDenied lcms (nc_RemotePeer conn)"
  shows "\<exists>lcms' n'. Connected nw tc srt all conn lcms n = Some (lcms', n') \<and> cmo_sharder lcms' = ListsSharderImpl ls \<and>
     set (nw_Conns nw n') \<subseteq> set (nw_Conns nw n) \<and>
     (\<forall>c \<in> set (nw_Conns nw n). Contains (nc_RemotePeer c) (cmo_preferred lcms') \<and> \<not> IsSeeder (nw_Pretty nw) ls (nc_RemotePeer c)
        \<longrightarrow> c \<in> set (nw_Conns nw n')) \<and>
     int (card {p \<in> set (nw_Peers nw n'). peer_class (nw_Pretty nw) (ls\<lparr>preferredPeersHolder := (\<lambda>p. Contains p (cmo_preferred lcms'))\<rparr>) p \<noteq> None})
        \<le> uint (TargetPeerCount (Sharding (als_P2pConfig arg))) \<and>
     int (card {p \<in> set (nw_Peers nw n'). IsSeeder (nw_Pretty nw) ls p}) \<le> uint (MaxSeeders (Sharding (als_P2pConfig arg)))"
proof -
  let ?f = "\<lambda>p. Contains p (cmo_preferred lcms)"
  let ?ls = "ls\<lparr>preferredPeersHolder := ?f\<rparr>" and ?ps = "nw_Peers nw n"
  obtain ev where ev: "ListsSharder_ComputeEvictionList srt (nw_Pretty nw) ?ls ?ps = Some ev" and sub: "mset ev \<subseteq># mset ?ps"
    and pref: "\<And>p. p \<in> set ev \<Longrightarrow> IsSeeder (nw_Pretty nw) ?ls p \<or> \<not> preferredPeersHolder ?ls p"
    and target: "int (size (filter_mset (\<lambda>p. peer_class (nw_Pretty nw) ?ls p \<noteq> None) (mset ?ps - mset ev)))
        \<le> uint (TargetPeerCount (Sharding (als_P2pConfig arg)))"
    and seed: "int (size (filter_mset (IsSeeder (nw_Pretty nw) ?ls) (mset ?ps - mset ev))) \<le> uint (MaxSeeders (Sharding (als_P2pConfig arg)))"
    using lists_sharder_limits [OF NewListsSharder_holder [OF assms(1)] sharder_reach_holder [OF assms(2)] assms(3,4), of "nw_Pretty nw" ?f ?ps]
    peer_class_counted [of "nw_Pretty nw" ?ls] by auto
  obtain lcms' where c: "Connected nw tc srt all conn lcms n = Some (lcms', closePeers nw ev n)" and s: "cmo_sharder lcms' = ListsSharderImpl ls"
    and h: "cmo_preferred lcms' = PutConnectionAddress all (nc_RemotePeer conn) (nc_RemoteMultiaddr conn) (cmo_preferred lcms)"
    using Connected_accepts [OF assms(7,6) ev] by blast
  have kept: "int (card {p \<in> set (nw_Peers nw (closePeers nw ev n)). P p}) = int (size (filter_mset P (mset ?ps - mset ev)))" for P
    unfolding closePeers_peers [OF assms(5)] card_kept [OF network_lawsD(1) [OF assms(5)] sub] ..
  have seeder: "IsSeeder (nw_Pretty nw) ?ls = IsSeeder (nw_Pretty nw) ls" by (simp add: fun_eq_iff IsSeeder_def)
  show ?thesis
    using pref target seed unfolding seeder
    by (intro exI [of _ lcms'] exI [of _ "closePeers nw ev n"]) (auto simp: c h s kept closePeers_conns [OF assms(5)])
qed

text \<open>A network that is the list of its connections.\<close>

definition example_network :: "network_conn list network_ops" where
  "example_network = \<lparr>nw_Peers = (\<lambda>n. remdups (map nc_RemotePeer n)), nw_Conns = (\<lambda>n. n),
     nw_ConnsToPeer = (\<lambda>p n. filter (\<lambda>c. nc_RemotePeer c = p) n), nw_Connected = (\<lambda>p n. p \<in> nc_RemotePeer ` set n),
     nw_ClosePeer = (\<lambda>p n. (None, filter (\<lambda>c. nc_RemotePeer c \<noteq> p) n)), nw_CloseConn = (\<lambda>c n. (None, filter (\<lambda>d. d \<noteq> c) n)),
     nw_Connect = (\<lambda>pi n. (None, n @ [\<lparr>nc_RemotePeer = ai_ID pi, nc_RemoteMultiaddr = concat (ai_Addrs pi), nc_ID = [9, 9]\<rparr>])),
     nw_NewMultiaddr = Inr, nw_AddrInfoFromP2pAddr = (\<lambda>s. Inl (ErrExternal s)), nw_StorePeers = (\<lambda>n. map nc_RemotePeer n),
     nw_StoreAddrs = (\<lambda>p n. []), nw_GetProtocols = (\<lambda>p n. Inr []), nw_Addrs = (\<lambda>n. []), nw_Pretty = (\<lambda>p. ''x'')\<rparr>"

lemma example_network_laws: "network_laws example_network"
  by (auto simp: network_laws_def example_network_def)

definition example_monitor :: "unit connectionMonitor" where
  "example_monitor = \<lparr>cmo_threshold = 2, cmo_sharder = ListsSharderImpl example_lists, cmo_preferred = two_peers_holder,
     cmo_watcher = DisabledWatcher, cmo_IsDenied = (\<lambda>p. p = [7]), cmo_canReconnect = True, cmo_closed = False\<rparr>"

definition example_watcher_cache :: "unit watcher_cache" where
  "example_watcher_cache = \<lparr>wc_Has = (\<lambda>s k. False), wc_Upsert = (\<lambda>s t k. (None, k)), wc_Sweep = (\<lambda>k. k)\<rparr>"

definition example_conn :: network_conn where
  "example_conn = \<lparr>nc_RemotePeer = [1], nc_RemoteMultiaddr = ''/ip4/127.0.0.1'', nc_ID = [9, 9]\<rparr>"

section \<open>The report of the connected peers\<close>

lemma count_at_incr [simp]: "count_at (incr k m) k' = (if k' = k then count_at m k + 1 else count_at m k')"
  by (simp add: count_at_def incr_def update_conv')

lemma addrs_at_append [simp]: "addrs_at (append_at k s m) k' = (if k' = k then addrs_at m k @ [s] else addrs_at m k')"
  by (simp add: addrs_at_def append_at_def update_conv')

lemma at_empty [simp]: "count_at [] k = 0" "addrs_at [] k = []"
  by (simp_all add: count_at_def addrs_at_def)

text \<open>What the report says of the peers that \<open>P\<close> selects: their connection strings in the order of the network.\<close>

definition reported :: "'n network_ops \<Rightarrow> 'n \<Rightarrow> (peerid \<Rightarrow> bool) \<Rightarrow> peerid list \<Rightarrow> string list" where
  "reported nw n P ps = map (\<lambda>p. connStringOf nw p n) (filter P ps)"

lemma reported_simps [simp]:
  "reported nw n P [] = []"
  "reported nw n P (ps @ [p]) = reported nw n P ps @ (if P p then [connStringOf nw p n] else [])"
  by (simp_all add: reported_def)

definition empty_info :: "'k connectionsHandler \<Rightarrow> ConnectedPeersInfo" where
  "empty_info h = \<lparr>SelfShardID = ShardID (ch_peerShardResolver h (ch_peerID h)), UnknownPeers = [], Seeders = [],
        IntraShardValidators = [], IntraShardObservers = [], CrossShardValidators = [], CrossShardObservers = [],
        NumObserversOnShard = [], NumValidatorsOnShard = [], NumPreferredPeersOnShard = [],
        NumIntraShardValidators = 0, NumIntraShardObservers = 0, NumCrossShardValidators = 0, NumCrossShardObservers = 0\<rparr>"

text \<open>The kind of a peer and its shard, relative to the shard of the node.\<close>

definition is_kind :: "'k connectionsHandler \<Rightarrow> P2PPeerType \<Rightarrow> peerid \<Rightarrow> bool" where
  "is_kind h k p \<longleftrightarrow> PeerType (ch_peerShardResolver h p) = k"

definition on_shard :: "'k connectionsHandler \<Rightarrow> uint32 \<Rightarrow> peerid \<Rightarrow> bool" where
  "on_shard h s p \<longleftrightarrow> ShardID (ch_peerShardResolver h p) = s"

definition own_shard :: "'k connectionsHandler \<Rightarrow> uint32" where
  "own_shard h = ShardID (ch_peerShardResolver h (ch_peerID h))"

lemmas peer_kind_defs = is_kind_def on_shard_def own_shard_def

lemma empty_info_simps [simp]:
  "UnknownPeers (empty_info h) = []" "Seeders (empty_info h) = []"
  "IntraShardValidators (empty_info h) = []" "IntraShardObservers (empty_info h) = []"
  "CrossShardValidators (empty_info h) = []" "CrossShardObservers (empty_info h) = []"
  "NumObserversOnShard (empty_info h) = []" "NumValidatorsOnShard (empty_info h) = []" "NumPreferredPeersOnShard (empty_info h) = []"
  "NumIntraShardValidators (empty_info h) = 0" "NumIntraShardObservers (empty_info h) = 0"
  "NumCrossShardValidators (empty_info h) = 0" "NumCrossShardObservers (empty_info h) = 0"
  by (simp_all add: empty_info_def)

lemmas turn_defs = GetConnectedPeersInfo_turn_def Let_def peer_kind_defs

text \<open>What one turn of the loop adds to each part of the report.\<close>

lemma turn_unknown [simp]:
  "UnknownPeers (GetConnectedPeersInfo_turn nw h n p cpi) = UnknownPeers cpi @
     (if is_kind h UnknownPeer p \<and> \<not> Sharder_IsSeeder (nw_Pretty nw) (cmo_sharder (ch_connMonitor h)) p then [connStringOf nw p n] else [])"
  "Seeders (GetConnectedPeersInfo_turn nw h n p cpi) = Seeders cpi @
     (if is_kind h UnknownPeer p \<and> Sharder_IsSeeder (nw_Pretty nw) (cmo_sharder (ch_connMonitor h)) p then [connStringOf nw p n] else [])"
  by (cases "PeerType (ch_peerShardResolver h p)"; auto simp: turn_defs)+

lemma turn_intra [simp]:
  "addrs_at (IntraShardValidators (GetConnectedPeersInfo_turn nw h n p cpi)) s = addrs_at (IntraShardValidators cpi) s @
     (if is_kind h ValidatorPeer p \<and> on_shard h s p \<and> s = own_shard h then [connStringOf nw p n] else [])"
  "addrs_at (IntraShardObservers (GetConnectedPeersInfo_turn nw h n p cpi)) s = addrs_at (IntraShardObservers cpi) s @
     (if is_kind h ObserverPeer p \<and> on_shard h s p \<and> s = own_shard h then [connStringOf nw p n] else [])"
  by (cases "PeerType (ch_peerShardResolver h p)"; auto simp: turn_defs)+

lemma turn_cross [simp]:
  "addrs_at (CrossShardValidators (GetConnectedPeersInfo_turn nw h n p cpi)) s = addrs_at (CrossShardValidators cpi) s @
     (if is_kind h ValidatorPeer p \<and> on_shard h s p \<and> s \<noteq> own_shard h then [connStringOf nw p n] else [])"
  "addrs_at (CrossShardObservers (GetConnectedPeersInfo_turn nw h n p cpi)) s = addrs_at (CrossShardObservers cpi) s @
     (if is_kind h ObserverPeer p \<and> on_shard h s p \<and> s \<noteq> own_shard h then [connStringOf nw p n] else [])"
  by (cases "PeerType (ch_peerShardResolver h p)"; auto simp: turn_defs)+

lemma turn_counts [simp]:
  "count_at (NumValidatorsOnShard (GetConnectedPeersInfo_turn nw h n p cpi)) s = count_at (NumValidatorsOnShard cpi) s + (if is_kind h ValidatorPeer p \<and> on_shard h s p then 1 else 0)"
  "count_at (NumObserversOnShard (GetConnectedPeersInfo_turn nw h n p cpi)) s = count_at (NumObserversOnShard cpi) s + (if is_kind h ObserverPeer p \<and> on_shard h s p then 1 else 0)"
  "count_at (NumPreferredPeersOnShard (GetConnectedPeersInfo_turn nw h n p cpi)) s = count_at (NumPreferredPeersOnShard cpi) s + (if Contains p (cmo_preferred (ch_connMonitor h)) \<and> on_shard h s p then 1 else 0)"
  by (cases "PeerType (ch_peerShardResolver h p)"; auto simp: turn_defs)+

lemma turn_totals [simp]:
  "NumIntraShardValidators (GetConnectedPeersInfo_turn nw h n p cpi) = NumIntraShardValidators cpi + (if is_kind h ValidatorPeer p \<and> on_shard h (own_shard h) p then 1 else 0)"
  "NumCrossShardValidators (GetConnectedPeersInfo_turn nw h n p cpi) = NumCrossShardValidators cpi + (if is_kind h ValidatorPeer p \<and> \<not> on_shard h (own_shard h) p then 1 else 0)"
  "NumIntraShardObservers (GetConnectedPeersInfo_turn nw h n p cpi) = NumIntraShardObservers cpi + (if is_kind h ObserverPeer p \<and> on_shard h (own_shard h) p then 1 else 0)"
  "NumCrossShardObservers (GetConnectedPeersInfo_turn nw h n p cpi) = NumCrossShardObservers cpi + (if is_kind h ObserverPeer p \<and> \<not> on_shard h (own_shard h) p then 1 else 0)"
  by (cases "PeerType (ch_peerShardResolver h p)"; auto simp: turn_defs)+

lemma info_unknown:
  "UnknownPeers (fold (GetConnectedPeersInfo_turn nw h n) ps (empty_info h)) =
     reported nw n (\<lambda>p. is_kind h UnknownPeer p \<and> \<not> Sharder_IsSeeder (nw_Pretty nw) (cmo_sharder (ch_connMonitor h)) p) ps"
  "Seeders (fold (GetConnectedPeersInfo_turn nw h n) ps (empty_info h)) =
     reported nw n (\<lambda>p. is_kind h UnknownPeer p \<and> Sharder_IsSeeder (nw_Pretty nw) (cmo_sharder (ch_connMonitor h)) p) ps"
  by (induction ps rule: rev_induct) simp_all

lemma info_intra:
  "addrs_at (IntraShardValidators (fold (GetConnectedPeersInfo_turn nw h n) ps (empty_info h))) s =
     reported nw n (\<lambda>p. is_kind h ValidatorPeer p \<and> on_shard h s p \<and> s = own_shard h) ps"
  "addrs_at (IntraShardObservers (fold (GetConnectedPeersInfo_turn nw h n) ps (empty_info h))) s =
     reported nw n (\<lambda>p. is_kind h ObserverPeer p \<and> on_shard h s p \<and> s = own_shard h) ps"
  by (induction ps rule: rev_induct) simp_all

lemma info_cross:
  "addrs_at (CrossShardValidators (fold (GetConnectedPeersInfo_turn nw h n) ps (empty_info h))) s =
     reported nw n (\<lambda>p. is_kind h ValidatorPeer p \<and> on_shard h s p \<and> s \<noteq> own_shard h) ps"
  "addrs_at (CrossShardObservers (fold (GetConnectedPeersInfo_turn nw h n) ps (empty_info h))) s =
     reported nw n (\<lambda>p. is_kind h ObserverPeer p \<and> on_shard h s p \<and> s \<noteq> own_shard h) ps"
  by (induction ps rule: rev_induct) simp_all

lemma info_counts:
  "count_at (NumValidatorsOnShard (fold (GetConnectedPeersInfo_turn nw h n) ps (empty_info h))) s =
     int (length (filter (\<lambda>p. is_kind h ValidatorPeer p \<and> on_shard h s p) ps))"
  "count_at (NumObserversOnShard (fold (GetConnectedPeersInfo_turn nw h n) ps (empty_info h))) s =
     int (length (filter (\<lambda>p. is_kind h ObserverPeer p \<and> on_shard h s p) ps))"
  "count_at (NumPreferredPeersOnShard (fold (GetConnectedPeersInfo_turn nw h n) ps (empty_info h))) s =
     int (length (filter (\<lambda>p. Contains p (cmo_preferred (ch_connMonitor h)) \<and> on_shard h s p) ps))"
  by (induction ps rule: rev_induct) simp_all

lemma info_totals:
  "NumIntraShardValidators (fold (GetConnectedPeersInfo_turn nw h n) ps (empty_info h)) =
     int (length (filter (\<lambda>p. is_kind h ValidatorPeer p \<and> on_shard h (own_shard h) p) ps))"
  "NumCrossShardValidators (fold (GetConnectedPeersInfo_turn nw h n) ps (empty_info h)) =
     int (length (filter (\<lambda>p. is_kind h ValidatorPeer p \<and> \<not> on_shard h (own_shard h) p) ps))"
  "NumIntraShardObservers (fold (GetConnectedPeersInfo_turn nw h n) ps (empty_info h)) =
     int (length (filter (\<lambda>p. is_kind h ObserverPeer p \<and> on_shard h (own_shard h) p) ps))"
  "NumCrossShardObservers (fold (GetConnectedPeersInfo_turn nw h n) ps (empty_info h)) =
     int (length (filter (\<lambda>p. is_kind h ObserverPeer p \<and> \<not> on_shard h (own_shard h) p) ps))"
  by (induction ps rule: rev_induct) simp_all

lemma info_self: "SelfShardID (fold (GetConnectedPeersInfo_turn nw h n) ps (empty_info h)) = own_shard h"
proof (induction ps rule: rev_induct)
  case (snoc p ps)
  have "SelfShardID (GetConnectedPeersInfo_turn nw h n p cpi) = SelfShardID cpi" for cpi
    by (cases "PeerType (ch_peerShardResolver h p)") (auto simp: turn_defs)
  then show ?case using snoc by simp
qed (simp add: empty_info_def own_shard_def)

text \<open>Every peer of a known type is in exactly one group of the report.\<close>

lemma info_partition:
  assumes "\<And>p t. p \<in> set ps \<Longrightarrow> \<not> is_kind h (OtherPeerType t) p"
  shows "int (length (UnknownPeers (fold (GetConnectedPeersInfo_turn nw h n) ps (empty_info h))))
       + int (length (Seeders (fold (GetConnectedPeersInfo_turn nw h n) ps (empty_info h))))
       + NumIntraShardValidators (fold (GetConnectedPeersInfo_turn nw h n) ps (empty_info h))
       + NumCrossShardValidators (fold (GetConnectedPeersInfo_turn nw h n) ps (empty_info h))
       + NumIntraShardObservers (fold (GetConnectedPeersInfo_turn nw h n) ps (empty_info h))
       + NumCrossShardObservers (fold (GetConnectedPeersInfo_turn nw h n) ps (empty_info h)) = int (length ps)"
    (is "int (length (UnknownPeers (?cpi ps))) + _ + _ + _ + _ + _ = _")
  using assms
proof (induction ps rule: rev_induct)
  case (snoc p ps)
  have IH: "int (length (UnknownPeers (?cpi ps))) + int (length (Seeders (?cpi ps))) + NumIntraShardValidators (?cpi ps)
      + NumCrossShardValidators (?cpi ps) + NumIntraShardObservers (?cpi ps) + NumCrossShardObservers (?cpi ps) = int (length ps)"
    using snoc by simp
  have "is_kind h UnknownPeer p \<or> is_kind h ValidatorPeer p \<or> is_kind h ObserverPeer p"
    using snoc.prems [of p] by (cases "PeerType (ch_peerShardResolver h p)") (auto simp: is_kind_def)
  then show ?case using IH by (elim disjE) (simp_all add: is_kind_def)
qed simp

section \<open>Properties\<close>

text \<open>
  C38. The report of the connected peers is exact: with peers of the three types of the protocol, each connected
  peer is in exactly one group (the counts add up to the number of peers), each of the four totals is the number of the
  validators or observers of the shard of the node or of the other shards, the seeders and the unknown peers are
  listed in the order of the network, the address lists of a shard hold exactly the validators and observers of that
  shard (intra shard only for the shard of the node), and the counts per shard, preferred peers included, are the
  numbers of those peers.
\<close>

theorem connected_peers_report_is_exact:
  assumes "\<forall>p \<in> set (nw_Peers nw n). \<forall>t. PeerType (ch_peerShardResolver h p) \<noteq> OtherPeerType t"
  shows "let cpi = GetConnectedPeersInfo nw h n; ps = nw_Peers nw n; seeder = Sharder_IsSeeder (nw_Pretty nw) (cmo_sharder (ch_connMonitor h))
     in int (length (UnknownPeers cpi)) + int (length (Seeders cpi)) + NumIntraShardValidators cpi + NumCrossShardValidators cpi
          + NumIntraShardObservers cpi + NumCrossShardObservers cpi = int (length ps) \<and>
        SelfShardID cpi = own_shard h \<and>
        NumIntraShardValidators cpi = int (length (filter (\<lambda>p. is_kind h ValidatorPeer p \<and> on_shard h (own_shard h) p) ps)) \<and>
        NumCrossShardValidators cpi = int (length (filter (\<lambda>p. is_kind h ValidatorPeer p \<and> \<not> on_shard h (own_shard h) p) ps)) \<and>
        NumIntraShardObservers cpi = int (length (filter (\<lambda>p. is_kind h ObserverPeer p \<and> on_shard h (own_shard h) p) ps)) \<and>
        NumCrossShardObservers cpi = int (length (filter (\<lambda>p. is_kind h ObserverPeer p \<and> \<not> on_shard h (own_shard h) p) ps)) \<and>
        Seeders cpi = reported nw n (\<lambda>p. is_kind h UnknownPeer p \<and> seeder p) ps \<and>
        UnknownPeers cpi = reported nw n (\<lambda>p. is_kind h UnknownPeer p \<and> \<not> seeder p) ps \<and>
        addrs_at (IntraShardValidators cpi) s = reported nw n (\<lambda>p. is_kind h ValidatorPeer p \<and> on_shard h s p \<and> s = own_shard h) ps \<and>
        addrs_at (CrossShardValidators cpi) s = reported nw n (\<lambda>p. is_kind h ValidatorPeer p \<and> on_shard h s p \<and> s \<noteq> own_shard h) ps \<and>
        addrs_at (IntraShardObservers cpi) s = reported nw n (\<lambda>p. is_kind h ObserverPeer p \<and> on_shard h s p \<and> s = own_shard h) ps \<and>
        addrs_at (CrossShardObservers cpi) s = reported nw n (\<lambda>p. is_kind h ObserverPeer p \<and> on_shard h s p \<and> s \<noteq> own_shard h) ps \<and>
        count_at (NumValidatorsOnShard cpi) s = int (length (filter (\<lambda>p. is_kind h ValidatorPeer p \<and> on_shard h s p) ps)) \<and>
        count_at (NumObserversOnShard cpi) s = int (length (filter (\<lambda>p. is_kind h ObserverPeer p \<and> on_shard h s p) ps)) \<and>
        count_at (NumPreferredPeersOnShard cpi) s =
          int (length (filter (\<lambda>p. Contains p (cmo_preferred (ch_connMonitor h)) \<and> on_shard h s p) ps))"
proof -
  let ?cpi = "fold (GetConnectedPeersInfo_turn nw h n) (nw_Peers nw n) (empty_info h)"
  have cpi: "GetConnectedPeersInfo nw h n = ?cpi" by (simp add: GetConnectedPeersInfo_def empty_info_def)
  have "int (length (UnknownPeers ?cpi)) + int (length (Seeders ?cpi)) + NumIntraShardValidators ?cpi + NumCrossShardValidators ?cpi
          + NumIntraShardObservers ?cpi + NumCrossShardObservers ?cpi = int (length (nw_Peers nw n))"
    using info_partition [of "nw_Peers nw n" h nw n] assms by (simp add: is_kind_def)
  moreover have "SelfShardID ?cpi = own_shard h" by (rule info_self)
  ultimately show ?thesis unfolding cpi Let_def
    by (simp add: info_unknown info_intra info_cross info_counts info_totals [of nw h n "nw_Peers nw n"])
qed

definition example_connections :: "unit connectionsHandler" where
  "example_connections = \<lparr>ch_connMonitor = example_monitor, ch_peersOnChannel = \<lparr>poc_peers = Map.empty, poc_lastUpdated = [],
     poc_refreshInterval = 1, poc_ttlInterval = 1, poc_fetchPeersHandler = (\<lambda>t. []), poc_cancelled = False\<rparr>,
     ch_peerShardResolver = (\<lambda>p. \<lparr>PeerType = (if p = [1] then ValidatorPeer else if p = [2] then ObserverPeer else UnknownPeer), ShardID = 0\<rparr>),
     ch_peerID = [5], ch_metric = NewConnectionsMetric, ch_protocolIDs = [], ch_ctxDone = False\<rparr>"

theorem connected_peers_report_is_exact_witness:
  "addrs_at (IntraShardValidators (GetConnectedPeersInfo example_network example_connections [example_conn, example_conn\<lparr>nc_RemotePeer := [2]\<rparr>])) 0
     = [''/ip4/127.0.0.1/p2p/x'']"
  using connected_peers_report_is_exact [of example_network "[example_conn, example_conn\<lparr>nc_RemotePeer := [2]\<rparr>]" example_connections 0]
  by (simp add: Let_def reported_def example_network_def example_connections_def example_conn_def peer_kind_defs connStringOf_def)

end
