(* ===== verification/Discovery.thy ===== *)
theory Discovery
  imports Connections
begin

text \<open>
  Peer discovery (\<^verbatim>\<open>p2p/libp2p/discovery/\<close>): the continuous and the optimized discoverer over a Kademlia
  table, the discoverer that does nothing, and the factory. The table of \<^verbatim>\<open>go-libp2p-kad-dht\<close> is a parameter:
  its state has the type \<open>'d\<close>. A turn of a go routine is one function; the timers are events.
\<close>

section \<open>Arguments\<close>

record 'k ArgKadDht =
  akd_nilContext :: bool
  akd_nilHost :: bool
  akd_PeersRefreshInterval :: int
  akd_SeedersReconnectionInterval :: int
  akd_ProtocolID :: string
  akd_InitialPeersList :: "string list"
  akd_BucketSize :: uint32
  akd_RoutingTableRefresh :: int
  akd_KddSharder :: "Sharder option"
  akd_isDiscoverySharder :: bool
  akd_ConnectionWatcher :: "'k ConnectionsWatcher option"
  akd_Logger :: "logger option"

definition time_Second :: int where "time_Second = 1000000000"

definition prepareArguments :: "'k ArgKadDht \<Rightarrow> Sharder res" where
  "prepareArguments arg =
     (if akd_nilContext arg then Inl ErrNilContext
      else if akd_nilHost arg then Inl ErrNilHost
      else case akd_KddSharder arg of
        None \<Rightarrow> Inl ErrNilSharder
      | Some sh \<Rightarrow>
          (if akd_ConnectionWatcher arg = None then Inl ErrNilConnectionsWatcher
           else if \<not> akd_isDiscoverySharder arg then Inl ErrWrongTypeAssertion
           else if akd_PeersRefreshInterval arg < time_Second then Inl ErrInvalidValue
           else if akd_RoutingTableRefresh arg < time_Second then Inl ErrInvalidValue
           else if akd_Logger arg = None then Inl ErrNilLogger
           else Inr sh))"

record ('k, 'd) dht_ops =
  dht_New :: "'k hostWithConnectionManagement \<Rightarrow> string \<Rightarrow> int \<Rightarrow> 'd res"
  dht_Close :: "'d \<Rightarrow> p2p_error option"

section \<open>The continuous discoverer\<close>

text \<open>
  \<open>ckdd_refreshCancel\<close> says whether a cancel function is stored, \<open>ckdd_running\<close> counts the go routines
  started by \<^verbatim>\<open>startDHT\<close> whose context is not cancelled, \<open>ckdd_streamHandlers\<close> are the protocols whose stream
  handler \<^verbatim>\<open>stopDHT\<close> has removed.
\<close>

record ('k, 'd) continuousKadDhtDiscoverer =
  ckdd_sharder :: Sharder
  ckdd_peersRefreshInterval :: int
  ckdd_protocolID :: string
  ckdd_initialPeersList :: "string list"
  ckdd_bucketSize :: uint32
  ckdd_routingTableRefresh :: int
  ckdd_connectionWatcher :: "'k ConnectionsWatcher option"
  ckdd_hostConnManagement :: "'k hostWithConnectionManagement option"
  ckdd_kadDHT :: "'d option"
  ckdd_refreshCancel :: bool
  ckdd_running :: nat
  ckdd_removedStreamHandlers :: "string list"

definition NewContinuousKadDhtDiscoverer :: "'k ArgKadDht \<Rightarrow> ('k, 'd) continuousKadDhtDiscoverer res" where
  "NewContinuousKadDhtDiscoverer arg =
     andThen (prepareArguments arg) (\<lambda>sh.
       Inr \<lparr>ckdd_sharder = Sharder_SetSeeders (akd_InitialPeersList arg) sh,
            ckdd_peersRefreshInterval = akd_PeersRefreshInterval arg, ckdd_protocolID = akd_ProtocolID arg,
            ckdd_initialPeersList = akd_InitialPeersList arg, ckdd_bucketSize = akd_BucketSize arg,
            ckdd_routingTableRefresh = akd_RoutingTableRefresh arg, ckdd_connectionWatcher = akd_ConnectionWatcher arg,
            ckdd_hostConnManagement = None, ckdd_kadDHT = None, ckdd_refreshCancel = False, ckdd_running = 0,
            ckdd_removedStreamHandlers = []\<rparr>)"

definition startDHT :: "('k, 'd) dht_ops \<Rightarrow> ('k, 'd) continuousKadDhtDiscoverer
  \<Rightarrow> p2p_error option \<times> ('k, 'd) continuousKadDhtDiscoverer" where
  "startDHT ops ckdd =
     (case NewHostWithConnectionManagement False (Some (ckdd_sharder ckdd)) (ckdd_connectionWatcher ckdd) of
        Inl err \<Rightarrow> (Some err, ckdd\<lparr>ckdd_hostConnManagement := None\<rparr>)
      | Inr hwcm \<Rightarrow>
          (let ckdd = ckdd\<lparr>ckdd_hostConnManagement := Some hwcm\<rparr>
           in case dht_New ops hwcm (ckdd_protocolID ckdd) (ckdd_routingTableRefresh ckdd) of
                Inl err \<Rightarrow> (Some err, ckdd)
              | Inr kademliaDHT \<Rightarrow>
                  (None, ckdd\<lparr>ckdd_running := Suc (ckdd_running ckdd), ckdd_kadDHT := Some kademliaDHT, ckdd_refreshCancel := True\<rparr>)))"

definition continuous_Bootstrap :: "('k, 'd) dht_ops \<Rightarrow> ('k, 'd) continuousKadDhtDiscoverer
  \<Rightarrow> p2p_error option \<times> ('k, 'd) continuousKadDhtDiscoverer" where
  "continuous_Bootstrap ops ckdd =
     (if ckdd_kadDHT ckdd \<noteq> None then (Some ErrPeerDiscoveryProcessAlreadyStarted, ckdd) else startDHT ops ckdd)"

text \<open>\<^const>\<open>None\<close> is the panic of \<^verbatim>\<open>Close\<close> on a nil table, which the stored cancel function rules out.\<close>

definition stopDHT :: "('k, 'd) dht_ops \<Rightarrow> ('k, 'd) continuousKadDhtDiscoverer
  \<Rightarrow> (p2p_error option \<times> ('k, 'd) continuousKadDhtDiscoverer) option" where
  "stopDHT ops ckdd =
     (if \<not> ckdd_refreshCancel ckdd then Some (None, ckdd)
      else
        (let ckdd = ckdd\<lparr>ckdd_running := ckdd_running ckdd - 1, ckdd_refreshCancel := False,
               ckdd_removedStreamHandlers := ckdd_removedStreamHandlers ckdd @ [ckdd_protocolID ckdd]\<rparr>
         in case ckdd_kadDHT ckdd of
              None \<Rightarrow> None
            | Some d \<Rightarrow> Some (dht_Close ops d, ckdd\<lparr>ckdd_kadDHT := None\<rparr>)))"

text \<open>
  The loop of \<^verbatim>\<open>tryConnectToSeeder\<close>: it may run forever, so it has fuel, one unit for an attempt.
  \<open>ctxDone k\<close> says whether the context has ended when the attempt number \<open>k\<close> fails. The result \<open>Some (True, n)\<close> is the signal
  on \<^verbatim>\<open>chanDone\<close>, \<open>Some (False, n)\<close> the return without a signal.
\<close>

fun tryConnectToSeeder :: "'n network_ops \<Rightarrow> (nat \<Rightarrow> bool) \<Rightarrow> string list \<Rightarrow> nat \<Rightarrow> nat \<Rightarrow> nat \<Rightarrow> 'n \<Rightarrow> (bool \<times> 'n) option" where
  "tryConnectToSeeder nw ctxDone initialPeersList 0 attempt startIndex n = None"
| "tryConnectToSeeder nw ctxDone initialPeersList (Suc fuel) attempt startIndex n =
     (let initialPeer = initialPeersList ! startIndex;
          (err, n) = ConnectToPeer nw initialPeer n
      in if err \<noteq> None
         then
           (let startIndex = (startIndex + 1) mod length initialPeersList
            in if ctxDone attempt then Some (False, n)
               else tryConnectToSeeder nw ctxDone initialPeersList fuel (Suc attempt) startIndex n)
         else Some (True, n))"

definition connectToOnePeerFromInitialPeersList :: "'n network_ops \<Rightarrow> (nat \<Rightarrow> bool) \<Rightarrow> string list \<Rightarrow> nat \<Rightarrow> 'n \<Rightarrow> (bool \<times> 'n) option" where
  "connectToOnePeerFromInitialPeersList nw ctxDone initialPeersList fuel n =
     (if length initialPeersList = 0 then Some (True, n)
      else tryConnectToSeeder nw ctxDone initialPeersList fuel 0 0 n)"

text \<open>
  \<^verbatim>\<open>ReconnectToNetwork\<close> returns at the signal, or when its own context ends: \<open>Some\<close> is the return at the signal.
\<close>

definition continuous_ReconnectToNetwork :: "'n network_ops \<Rightarrow> (nat \<Rightarrow> bool) \<Rightarrow> nat \<Rightarrow> ('k, 'd) continuousKadDhtDiscoverer \<Rightarrow> 'n \<Rightarrow> 'n option" where
  "continuous_ReconnectToNetwork nw ctxDone fuel ckdd n =
     (case connectToOnePeerFromInitialPeersList nw ctxDone (ckdd_initialPeersList ckdd) fuel n of
        Some (True, n) \<Rightarrow> Some n
      | _ \<Rightarrow> None)"

text \<open>
  \<^verbatim>\<open>connectToInitialAndBootstrap\<close>: the go routine goes on to \<^verbatim>\<open>bootstrap\<close> at the signal, unless the context of the run ends
  first (\<open>runDone\<close>).
\<close>

definition connectToInitialAndBootstrap :: "'n network_ops \<Rightarrow> (nat \<Rightarrow> bool) \<Rightarrow> bool \<Rightarrow> nat \<Rightarrow> ('k, 'd) continuousKadDhtDiscoverer \<Rightarrow> 'n
  \<Rightarrow> (bool \<times> 'n) option" where
  "connectToInitialAndBootstrap nw ctxDone runDone fuel ckdd n =
     (case connectToOnePeerFromInitialPeersList nw ctxDone (ckdd_initialPeersList ckdd) fuel n of
        Some (True, n) \<Rightarrow> Some (\<not> runDone, n)
      | Some (False, n) \<Rightarrow> (if runDone then Some (False, n) else None)
      | None \<Rightarrow> None)"

text \<open>
  One turn of the loop of \<^verbatim>\<open>bootstrap\<close>: \<open>Bootstrap\<close> is the table's own, and \<open>lookupFailure\<close> its error for an empty
  table.
\<close>

definition bootstrap_turn :: "('d \<Rightarrow> 'n \<Rightarrow> p2p_error option \<times> 'n) \<Rightarrow> p2p_error \<Rightarrow> 'n network_ops \<Rightarrow> (nat \<Rightarrow> bool) \<Rightarrow> nat
  \<Rightarrow> ('k, 'd) continuousKadDhtDiscoverer \<Rightarrow> 'n \<Rightarrow> 'n option" where
  "bootstrap_turn Bootstrap lookupFailure nw ctxDone fuel ckdd n =
     (case ckdd_kadDHT ckdd of
        None \<Rightarrow> Some n
      | Some d \<Rightarrow>
          (let (err, n) = Bootstrap d n
           in if err = Some lookupFailure then continuous_ReconnectToNetwork nw ctxDone fuel ckdd n else Some n))"

section \<open>The optimized discoverer\<close>

datatype discovererStatus = statNotInitialized | statInitialized

definition minIntervalForSeedersReconnection :: int where "minIntervalForSeedersReconnection = time_Second"

record ('k, 'd) optimizedKadDhtDiscoverer =
  okdd_kadDHT :: "'d option"
  okdd_peersRefreshInterval :: int
  okdd_seedersReconnectionInterval :: int
  okdd_protocolID :: string
  okdd_initialPeersList :: "string list"
  okdd_bucketSize :: uint32
  okdd_routingTableRefresh :: int
  okdd_hostConnManagement :: "'k hostWithConnectionManagement"
  okdd_status :: discovererStatus
  okdd_chTimeSeedersReconnect :: int
  okdd_stopped :: bool

definition NewOptimizedKadDhtDiscoverer :: "'k ArgKadDht \<Rightarrow> ('k, 'd) optimizedKadDhtDiscoverer res" where
  "NewOptimizedKadDhtDiscoverer arg =
     andThen (prepareArguments arg) (\<lambda>sh.
       if akd_SeedersReconnectionInterval arg < minIntervalForSeedersReconnection then Inl ErrInvalidSeedersReconnectionInterval
       else
         (let sh = Sharder_SetSeeders (akd_InitialPeersList arg) sh
          in andThen (NewHostWithConnectionManagement (akd_nilHost arg) (Some sh) (akd_ConnectionWatcher arg)) (\<lambda>hwcm.
               Inr \<lparr>okdd_kadDHT = None, okdd_peersRefreshInterval = akd_PeersRefreshInterval arg,
                    okdd_seedersReconnectionInterval = akd_SeedersReconnectionInterval arg, okdd_protocolID = akd_ProtocolID arg,
                    okdd_initialPeersList = akd_InitialPeersList arg, okdd_bucketSize = akd_BucketSize arg,
                    okdd_routingTableRefresh = akd_RoutingTableRefresh arg, okdd_hostConnManagement = hwcm,
                    okdd_status = statNotInitialized, okdd_chTimeSeedersReconnect = akd_SeedersReconnectionInterval arg,
                    okdd_stopped = False\<rparr>)))"

text \<open>The interval of the timer that \<^verbatim>\<open>createChTimeSeedersReconnect\<close> arms.\<close>

definition createChTimeSeedersReconnect :: "bool \<Rightarrow> ('k, 'd) optimizedKadDhtDiscoverer \<Rightarrow> int" where
  "createChTimeSeedersReconnect isConnectedToSeeders okdd =
     (if isConnectedToSeeders then okdd_seedersReconnectionInterval okdd else okdd_peersRefreshInterval okdd)"

definition okdd_createKadDht :: "('k, 'd) dht_ops \<Rightarrow> ('k, 'd) optimizedKadDhtDiscoverer \<Rightarrow> 'd res" where
  "okdd_createKadDht ops okdd = dht_New ops (okdd_hostConnManagement okdd) (okdd_protocolID okdd) (okdd_routingTableRefresh okdd)"

definition okdd_init :: "('k, 'd) dht_ops \<Rightarrow> ('k, 'd) optimizedKadDhtDiscoverer
  \<Rightarrow> p2p_error option \<times> ('k, 'd) optimizedKadDhtDiscoverer" where
  "okdd_init ops okdd =
     (if okdd_status okdd \<noteq> statNotInitialized then (Some ErrPeerDiscoveryProcessAlreadyStarted, okdd)
      else case okdd_createKadDht ops okdd of
             Inl err \<Rightarrow> (Some err, okdd)
           | Inr d \<Rightarrow> (None, okdd\<lparr>okdd_kadDHT := Some d, okdd_status := statInitialized\<rparr>))"

text \<open>
  The calls below run in the environment of the discoverer: the network, the cache of the watcher, the sort of the
  sharder, the bootstrap of the table and the question whether the context has ended after a seeder was tried.
  \<^const>\<open>None\<close> is a panic of the sharder.
\<close>

record ('n, 'k, 'd) discovery_env =
  de_network :: "'n network_ops"
  de_cache :: "'k watcher_cache"
  de_sort :: "PeerDistances \<Rightarrow> PeerDistances"
  de_Bootstrap :: "'d \<Rightarrow> 'n \<Rightarrow> p2p_error option \<times> 'n"
  de_ctxDone :: "string \<Rightarrow> bool"

definition connectToSeeder :: "('n, 'k, 'd) discovery_env \<Rightarrow> string \<Rightarrow> ('k, 'd) optimizedKadDhtDiscoverer \<Rightarrow> 'n
  \<Rightarrow> (p2p_error option \<times> ('k, 'd) optimizedKadDhtDiscoverer \<times> 'n) option" where
  "connectToSeeder e seederAddress okdd n =
     (case AddressToPeerInfo (de_network e) seederAddress of
        Inl err \<Rightarrow> Some (Some err, okdd, n)
      | Inr seederInfo \<Rightarrow>
          (if hwcm_IsConnected (de_network e) seederInfo n then Some (None, okdd, n)
           else case hwcm_Connect (de_network e) (de_cache e) (de_sort e) seederInfo (okdd_hostConnManagement okdd) n of
                  None \<Rightarrow> None
                | Some (err, hwcm, n) \<Rightarrow> Some (err, okdd\<lparr>okdd_hostConnManagement := hwcm\<rparr>, n)))"

fun tryToReconnect_loop :: "('n, 'k, 'd) discovery_env \<Rightarrow> string list \<Rightarrow> bool \<Rightarrow> ('k, 'd) optimizedKadDhtDiscoverer \<Rightarrow> 'n
  \<Rightarrow> (bool \<times> ('k, 'd) optimizedKadDhtDiscoverer \<times> 'n) option" where
  "tryToReconnect_loop e [] connectedToOneSeeder okdd n = Some (connectedToOneSeeder, okdd, n)"
| "tryToReconnect_loop e (seederAddress # rest) connectedToOneSeeder okdd n =
     (case connectToSeeder e seederAddress okdd n of
        None \<Rightarrow> None
      | Some (err, okdd, n) \<Rightarrow>
          (let connectedToOneSeeder = (if err \<noteq> None then connectedToOneSeeder else True)
           in if de_ctxDone e seederAddress then Some (True, okdd, n)
              else tryToReconnect_loop e rest connectedToOneSeeder okdd n))"

definition tryToReconnectAtLeastToASeeder :: "('n, 'k, 'd) discovery_env \<Rightarrow> ('k, 'd) optimizedKadDhtDiscoverer \<Rightarrow> 'n
  \<Rightarrow> (bool \<times> ('k, 'd) optimizedKadDhtDiscoverer \<times> 'n) option" where
  "tryToReconnectAtLeastToASeeder e okdd n =
     (if okdd_status okdd \<noteq> statInitialized then Some (False, okdd, n)
      else if length (okdd_initialPeersList okdd) = 0 then Some (True, okdd, n)
      else tryToReconnect_loop e (okdd_initialPeersList okdd) False okdd n)"

definition processSeedersReconnect :: "('n, 'k, 'd) discovery_env \<Rightarrow> ('k, 'd) optimizedKadDhtDiscoverer \<Rightarrow> 'n
  \<Rightarrow> (('k, 'd) optimizedKadDhtDiscoverer \<times> 'n) option" where
  "processSeedersReconnect e okdd n =
     (case tryToReconnectAtLeastToASeeder e okdd n of
        None \<Rightarrow> None
      | Some (isConnectedToSeeders, okdd, n) \<Rightarrow>
          Some (okdd\<lparr>okdd_chTimeSeedersReconnect := createChTimeSeedersReconnect isConnectedToSeeders okdd\<rparr>, n))"

definition findPeers :: "('n, 'k, 'd) discovery_env \<Rightarrow> ('k, 'd) optimizedKadDhtDiscoverer \<Rightarrow> 'n \<Rightarrow> 'n" where
  "findPeers e okdd n =
     (case (okdd_status okdd, okdd_kadDHT okdd) of
        (statInitialized, Some d) \<Rightarrow> snd (de_Bootstrap e d n)
      | _ \<Rightarrow> n)"

text \<open>The first component is what \<^verbatim>\<open>Bootstrap\<close> receives on \<^verbatim>\<open>errChanInit\<close>.\<close>

definition processInit :: "('k, 'd) dht_ops \<Rightarrow> ('n, 'k, 'd) discovery_env \<Rightarrow> ('k, 'd) optimizedKadDhtDiscoverer \<Rightarrow> 'n
  \<Rightarrow> (p2p_error option \<times> ('k, 'd) optimizedKadDhtDiscoverer \<times> 'n) option" where
  "processInit ops e okdd n =
     (let (err, okdd) = okdd_init ops okdd
      in if err \<noteq> None
         then Some (err, okdd\<lparr>okdd_chTimeSeedersReconnect := createChTimeSeedersReconnect False okdd\<rparr>, n)
         else case processSeedersReconnect e okdd n of
                None \<Rightarrow> None
              | Some (okdd, n) \<Rightarrow> Some (None, okdd, findPeers e okdd n))"

datatype discovery_event = ChanInit | ChTimeSeedersReconnect | ChanConnectToSeeders | ChTimeFindPeers | DiscoveryCtxDone

fun okdd_processLoop_turn :: "('k, 'd) dht_ops \<Rightarrow> ('n, 'k, 'd) discovery_env \<Rightarrow> discovery_event \<Rightarrow> ('k, 'd) optimizedKadDhtDiscoverer \<Rightarrow> 'n
  \<Rightarrow> (p2p_error option option \<times> ('k, 'd) optimizedKadDhtDiscoverer \<times> 'n) option" where
  "okdd_processLoop_turn ops e ChanInit okdd n =
     map_option (\<lambda>(err, okdd, n). (Some err, okdd, n)) (processInit ops e okdd n)"
| "okdd_processLoop_turn ops e ChTimeSeedersReconnect okdd n =
     map_option (\<lambda>(okdd, n). (None, okdd, n)) (processSeedersReconnect e okdd n)"
| "okdd_processLoop_turn ops e ChanConnectToSeeders okdd n =
     map_option (\<lambda>(okdd, n). (None, okdd, n)) (processSeedersReconnect e okdd n)"
| "okdd_processLoop_turn ops e ChTimeFindPeers okdd n = Some (None, okdd, findPeers e okdd n)"
| "okdd_processLoop_turn ops e DiscoveryCtxDone okdd n = Some (None, okdd\<lparr>okdd_stopped := True\<rparr>, n)"

text \<open>
  \<^verbatim>\<open>Bootstrap\<close> waits for the loop to take the request and for its answer; a loop that has stopped takes no
  request, so the call never returns: \<^const>\<open>None\<close>.
\<close>

definition optimized_Bootstrap :: "('k, 'd) dht_ops \<Rightarrow> ('n, 'k, 'd) discovery_env \<Rightarrow> ('k, 'd) optimizedKadDhtDiscoverer \<Rightarrow> 'n
  \<Rightarrow> (p2p_error option \<times> ('k, 'd) optimizedKadDhtDiscoverer \<times> 'n) option" where
  "optimized_Bootstrap ops e okdd n = (if okdd_stopped okdd then None else processInit ops e okdd n)"

text \<open>\<open>waiting\<close> says whether the loop is in its \<^verbatim>\<open>select\<close> at the call.\<close>

definition optimized_ReconnectToNetwork :: "('n, 'k, 'd) discovery_env \<Rightarrow> bool \<Rightarrow> ('k, 'd) optimizedKadDhtDiscoverer \<Rightarrow> 'n
  \<Rightarrow> (('k, 'd) optimizedKadDhtDiscoverer \<times> 'n) option" where
  "optimized_ReconnectToNetwork e waiting okdd n =
     (if waiting \<and> \<not> okdd_stopped okdd then processSeedersReconnect e okdd n else Some (okdd, n))"

section \<open>The factory\<close>

datatype ('k, 'd) PeerDiscoverer =
  Continuous "('k, 'd) continuousKadDhtDiscoverer" | Optimized "('k, 'd) optimizedKadDhtDiscoverer" | NilDiscoverer

fun Name :: "('k, 'd) PeerDiscoverer \<Rightarrow> string" where
  "Name (Continuous _) = ''kad-dht discovery''"
| "Name (Optimized _) = ''optimized kad-dht discovery''"
| "Name NilDiscoverer = ''no peer discovery''"

definition NilDiscoverer_ReconnectToNetwork :: "'n \<Rightarrow> 'n" where
  "NilDiscoverer_ReconnectToNetwork n = n"

definition NilDiscoverer_Bootstrap :: "'n \<Rightarrow> p2p_error option \<times> 'n" where
  "NilDiscoverer_Bootstrap n = (None, n)"

definition typeLegacy :: string where "typeLegacy = ''legacy''"
definition typeOptimized :: string where "typeOptimized = ''optimized''"
definition defaultSeedersReconnectionInterval :: int where "defaultSeedersReconnectionInterval = 300000000000"

record 'k ArgsPeerDiscoverer =
  apd_nilContext :: bool
  apd_nilHost :: bool
  apd_Sharder :: "Sharder option"
  apd_isDiscoverySharder :: bool
  apd_P2pConfig :: P2PConfig
  apd_ConnectionsWatcher :: "'k ConnectionsWatcher option"
  apd_Logger :: "logger option"

definition createKadDhtDiscoverer :: "P2PConfig \<Rightarrow> 'k ArgKadDht \<Rightarrow> ('k, 'd) PeerDiscoverer res" where
  "createKadDhtDiscoverer p2pConfig arg =
     (let t = kad_Type (KadDhtPeerDiscovery p2pConfig)
      in if t = typeLegacy then map_sum (\<lambda>e. e) Continuous (NewContinuousKadDhtDiscoverer arg)
         else if t = typeOptimized then map_sum (\<lambda>e. e) Optimized (NewOptimizedKadDhtDiscoverer arg)
         else Inl ErrInvalidValue)"

definition createKadDhtPeerDiscoverer :: "'k ArgsPeerDiscoverer \<Rightarrow> string \<Rightarrow> ('k, 'd) PeerDiscoverer res" where
  "createKadDhtPeerDiscoverer args protocolID =
     (let kad = KadDhtPeerDiscovery (apd_P2pConfig args);
          arg = \<lparr>akd_nilContext = apd_nilContext args, akd_nilHost = apd_nilHost args,
                 akd_PeersRefreshInterval = time_Second * uint (RefreshIntervalInSec kad),
                 akd_SeedersReconnectionInterval = defaultSeedersReconnectionInterval,
                 akd_ProtocolID = protocolID, akd_InitialPeersList = InitialPeerList kad, akd_BucketSize = BucketSize kad,
                 akd_RoutingTableRefresh = time_Second * uint (RoutingTableRefreshIntervalInSec kad),
                 akd_KddSharder = apd_Sharder args, akd_isDiscoverySharder = apd_isDiscoverySharder args,
                 akd_ConnectionWatcher = apd_ConnectionsWatcher args, akd_Logger = apd_Logger args\<rparr>;
          t = sharding_Type (Sharding (apd_P2pConfig args))
      in if t = ListsSharder \<or> t = OneListSharder \<or> t = NilListSharder
         then createKadDhtDiscoverer (apd_P2pConfig args) arg
         else Inl ErrInvalidValue)"

fun NewPeerDiscoverers_loop :: "'k ArgsPeerDiscoverer \<Rightarrow> string list \<Rightarrow> ('k, 'd) PeerDiscoverer list \<Rightarrow> ('k, 'd) PeerDiscoverer list res" where
  "NewPeerDiscoverers_loop args [] instances = Inr instances"
| "NewPeerDiscoverers_loop args (protocolID # rest) instances =
     (case createKadDhtPeerDiscoverer args protocolID of
        Inl err \<Rightarrow> Inl err
      | Inr inst \<Rightarrow> NewPeerDiscoverers_loop args rest (instances @ [inst]))"

definition NewPeerDiscoverers :: "'k ArgsPeerDiscoverer \<Rightarrow> ('k, 'd) PeerDiscoverer list res" where
  "NewPeerDiscoverers args =
     (if apd_Logger args = None then Inl ErrNilLogger
      else
        (let kad = KadDhtPeerDiscovery (apd_P2pConfig args)
         in if Enabled kad
            then (if length (ProtocolIDs kad) = 0 then Inl ErrInvalidConfig
                  else NewPeerDiscoverers_loop args (ProtocolIDs kad) [])
            else Inr [NilDiscoverer]))"

section \<open>The loop over the seeders\<close>

text \<open>
  The attempts, numbered from zero: attempt \<open>k\<close> is made with the address at position \<open>k\<close> of the list read in a circle, in
  the state of the network that the attempts before it left. Nothing is assumed of the outcomes: the same address may
  fail at one attempt and be reached at a later one.
\<close>

fun attempt_state :: "'n network_ops \<Rightarrow> string list \<Rightarrow> 'n \<Rightarrow> nat \<Rightarrow> 'n" where
  "attempt_state nw l n 0 = n"
| "attempt_state nw l n (Suc k) = snd (ConnectToPeer nw (l ! (k mod length l)) (attempt_state nw l n k))"

definition attempt_succeeds :: "'n network_ops \<Rightarrow> string list \<Rightarrow> 'n \<Rightarrow> nat \<Rightarrow> bool" where
  "attempt_succeeds nw l n k \<longleftrightarrow> fst (ConnectToPeer nw (l ! (k mod length l)) (attempt_state nw l n k)) = None"

text \<open>The loop at the attempt \<open>k\<close>, in the state that the earlier attempts left.\<close>

abbreviation loop_at :: "'n network_ops \<Rightarrow> (nat \<Rightarrow> bool) \<Rightarrow> string list \<Rightarrow> 'n \<Rightarrow> nat \<Rightarrow> nat \<Rightarrow> (bool \<times> 'n) option" where
  "loop_at nw ctxEnds l n fuel k \<equiv> tryConnectToSeeder nw ctxEnds l fuel k (k mod length l) (attempt_state nw l n k)"

lemma loop_at_0: "tryConnectToSeeder nw ctxEnds l fuel 0 0 n = loop_at nw ctxEnds l n fuel 0"
  by simp

lemma loop_at_Suc:
  "loop_at nw ctxEnds l n (Suc fuel) k =
     (if attempt_succeeds nw l n k then Some (True, attempt_state nw l n (Suc k))
      else if ctxEnds k then Some (False, attempt_state nw l n (Suc k))
      else loop_at nw ctxEnds l n fuel (Suc k))"
  by (cases "ConnectToPeer nw (l ! (k mod length l)) (attempt_state nw l n k)")
    (auto simp: attempt_succeeds_def mod_Suc_eq)

lemma loop_ends_at:
  assumes "\<forall>j. i \<le> j \<and> j < i + d \<longrightarrow> \<not> attempt_succeeds nw l n j \<and> \<not> ctxEnds j"
    and "attempt_succeeds nw l n (i + d) \<or> ctxEnds (i + d)" and "d < fuel"
  shows "loop_at nw ctxEnds l n fuel i = Some (attempt_succeeds nw l n (i + d), attempt_state nw l n (Suc (i + d)))"
  using assms
proof (induction d arbitrary: i fuel)
  case 0
  then obtain f where "fuel = Suc f" by (cases fuel) auto
  with 0 show ?case by (auto simp: loop_at_Suc simp del: tryConnectToSeeder.simps)
next
  case (Suc d)
  then obtain f where f: "fuel = Suc f" "d < f" by (cases fuel) auto
  have "loop_at nw ctxEnds l n f (Suc i) = Some (attempt_succeeds nw l n (Suc i + d), attempt_state nw l n (Suc (Suc i + d)))"
    using Suc.prems f by (intro Suc.IH) auto
  with f Suc.prems(1) show ?case by (simp add: loop_at_Suc del: tryConnectToSeeder.simps attempt_state.simps)
qed

lemma loop_forever:
  "\<forall>j. \<not> attempt_succeeds nw l n j \<and> \<not> ctxEnds j \<Longrightarrow> loop_at nw ctxEnds l n fuel k = None"
  by (induction fuel arbitrary: k) (simp_all add: loop_at_Suc del: tryConnectToSeeder.simps(2) attempt_state.simps)

lemma loop_first:
  assumes "attempt_succeeds nw l n m \<or> ctxEnds m"
  shows "\<exists>k \<le> m. (attempt_succeeds nw l n k \<or> ctxEnds k) \<and>
    (\<forall>fuel. k < fuel \<longrightarrow> loop_at nw ctxEnds l n fuel 0 = Some (attempt_succeeds nw l n k, attempt_state nw l n (Suc k)))"
proof -
  define k where "k = (LEAST k. attempt_succeeds nw l n k \<or> ctxEnds k)"
  have k: "attempt_succeeds nw l n k \<or> ctxEnds k" unfolding k_def by (rule LeastI [of _ m]) (rule assms)
  have before: "\<forall>j. 0 \<le> j \<and> j < 0 + k \<longrightarrow> \<not> attempt_succeeds nw l n j \<and> \<not> ctxEnds j"
    unfolding k_def by (auto dest: not_less_Least)
  have "k \<le> m" unfolding k_def by (rule Least_le) (rule assms)
  then show ?thesis using loop_ends_at [OF before] k by (intro exI [of _ k]) simp
qed

section \<open>Properties\<close>

text \<open>
  C40. The loop that connects to a seeder, with nothing assumed of the outcomes of the attempts: attempt \<open>k\<close> is made
  with the address at position \<open>k\<close> of the list read in a circle, in the state that the earlier attempts left. The loop
  ends exactly when some attempt succeeds or the context ends after one; it ends at the first such attempt, with the
  signal exactly when that attempt succeeded. So when one of the first attempts, one per address of the list, succeeds
  and the context does not end before, the loop has connected within one round of the list.
\<close>

theorem seeder_loop_terminates:
  assumes "l \<noteq> []"
  shows "((\<exists>fuel r. tryConnectToSeeder nw ctxEnds l fuel 0 0 n = Some r) \<longleftrightarrow> (\<exists>k. attempt_succeeds nw l n k \<or> ctxEnds k)) \<and>
     ((\<forall>j < k. \<not> attempt_succeeds nw l n j \<and> \<not> ctxEnds j) \<and> (attempt_succeeds nw l n k \<or> ctxEnds k) \<longrightarrow>
       (\<forall>fuel > k. tryConnectToSeeder nw ctxEnds l fuel 0 0 n =
          Some (attempt_succeeds nw l n k, snd (ConnectToPeer nw (l ! (k mod length l)) (attempt_state nw l n k))))) \<and>
     ((\<exists>k < length l. attempt_succeeds nw l n k) \<and> (\<forall>k < length l. \<not> ctxEnds k) \<longrightarrow>
       (\<exists>n'. tryConnectToSeeder nw ctxEnds l (length l) 0 0 n = Some (True, n')))"
proof -
  have "\<exists>n'. tryConnectToSeeder nw ctxEnds l (length l) 0 0 n = Some (True, n')"
    if "m < length l" "attempt_succeeds nw l n m" "\<forall>k < length l. \<not> ctxEnds k" for m
    using loop_first [of nw l n m ctxEnds] that by fastforce
  moreover have "\<exists>fuel r. tryConnectToSeeder nw ctxEnds l fuel 0 0 n = Some r" if "attempt_succeeds nw l n m \<or> ctxEnds m" for m
    using loop_first [of nw l n m ctxEnds] that by fastforce
  moreover have "\<exists>k. attempt_succeeds nw l n k \<or> ctxEnds k" if "tryConnectToSeeder nw ctxEnds l fuel 0 0 n = Some r" for fuel r
    using loop_forever [of nw l n ctxEnds fuel 0] that by auto
  moreover have "tryConnectToSeeder nw ctxEnds l fuel 0 0 n =
      Some (attempt_succeeds nw l n k, snd (ConnectToPeer nw (l ! (k mod length l)) (attempt_state nw l n k)))"
    if "\<forall>j < k. \<not> attempt_succeeds nw l n j \<and> \<not> ctxEnds j" "attempt_succeeds nw l n k \<or> ctxEnds k" "k < fuel" for fuel
    using loop_ends_at [of 0 k nw l n ctxEnds fuel] that by simp
  ultimately show ?thesis by blast
qed

text \<open>A network where one address can be reached.\<close>

definition one_seeder_network :: "network_conn list network_ops" where
  "one_seeder_network = example_network\<lparr>nw_AddrInfoFromP2pAddr :=
     (\<lambda>s. if s = ''b'' then Inr \<lparr>ai_ID = [2], ai_Addrs = [s]\<rparr> else Inl (ErrExternal s))\<rparr>"

theorem seeder_loop_terminates_witness:
  "\<exists>n'. tryConnectToSeeder one_seeder_network (\<lambda>k. False) [''a'', ''b'', ''c''] 3 0 0 [] = Some (True, n')"
proof -
  have "attempt_succeeds one_seeder_network [''a'', ''b'', ''c''] [] 1"
    by (simp add: attempt_succeeds_def ConnectToPeer_def AddressToPeerInfo_def one_seeder_network_def example_network_def)
  then have "\<exists>k < length [''a'', ''b'', ''c'']. attempt_succeeds one_seeder_network [''a'', ''b'', ''c''] [] k"
    by (rule exI [of _ 1, OF conjI, rotated]) simp
  with seeder_loop_terminates [of "[''a'', ''b'', ''c'']" one_seeder_network "\<lambda>k. False" "[]" 0, THEN conjunct2, THEN conjunct2]
  have "\<exists>n'. tryConnectToSeeder one_seeder_network (\<lambda>k. False) [''a'', ''b'', ''c''] (length [''a'', ''b'', ''c'']) 0 0 [] = Some (True, n')"
    by blast
  then show ?thesis by (simp only: list.size numeral_3_eq_3 One_nat_def add_0 add_Suc add_Suc_right add_0_right)
qed

end
