(* ===== verification/MonitorRun.thy ===== *)
theory MonitorRun
  imports Connections
begin

text \<open>
  The runs of the connections handler with its connection monitor: what \<^verbatim>\<open>go-libp2p\<close>, the main loop of the
  monitor and the node call on them in any order (\<^verbatim>\<open>connectionsHandler.go\<close>,
  \<^verbatim>\<open>connectionMonitor/libp2pConnectionMonitorSimple.go\<close>). The connections that are open but whose \<^verbatim>\<open>Connected\<close> event is
  not handled yet are kept as a set, so that any number of them may be under way at once.
\<close>

section \<open>Steps\<close>

text \<open>The three types of peers of \<^verbatim>\<open>core.P2PPeerType\<close>.\<close>

definition known_types :: "PeerShardResolver \<Rightarrow> bool" where
  "known_types r \<longleftrightarrow> (\<forall>p t. PeerType (r p) \<noteq> OtherPeerType t)"

definition set_monitor :: "'k connectionMonitor \<Rightarrow> 'k connectionsHandler \<Rightarrow> 'k connectionsHandler" where
  "set_monitor mon h = h\<lparr>ch_connMonitor := mon\<rparr>"

text \<open>
  A state is the handler, the network, the connections whose event is pending and the identifiers of the closed
  connections. \<open>net\<close> is any change of the network; new connections become pending. The reconnecters of a turn of the loop may do anything to the network.
  The last part of the state records the run: the identifiers \<^verbatim>\<open>conn.ID()\<close> of the connections whose \<^verbatim>\<open>Disconnected\<close>
  event was handled. When \<^verbatim>\<open>Disconnected\<close> panics in the holder (\<^const>\<open>None\<close>) the run ends.
\<close>

inductive conn_step :: "'n network_ops \<Rightarrow> 'k watcher_cache \<Rightarrow> (PeerDistances \<Rightarrow> PeerDistances) \<Rightarrow> uint32
  \<Rightarrow> 'k connectionsHandler \<times> 'n \<times> network_conn set \<times> peerid set \<Rightarrow> 'k connectionsHandler \<times> 'n \<times> network_conn set \<times> peerid set \<Rightarrow> bool"
  for nw tc srt all where
  net: "conn_step nw tc srt all (h, n, pend, gone) (h, n', pend \<union> (set (nw_Conns nw n') - set (nw_Conns nw n)), gone)"
| connected: "c \<in> pend \<Longrightarrow> Connected nw tc srt all c (ch_connMonitor h) n = Some (mon, n')
    \<Longrightarrow> conn_step nw tc srt all (h, n, pend, gone) (set_monitor mon h, n', pend - {c}, gone)"
| disconnected: "Disconnected nw conn (ch_connMonitor h) n = Some (req, mon)
    \<Longrightarrow> conn_step nw tc srt all (h, n, pend, gone) (set_monitor mon h, n, pend, gone \<union> nc_ID ` set_option conn)"
| turn: "\<not> cmo_closed (ch_connMonitor h) \<Longrightarrow> processLoop_turn nw recs ev (ch_connMonitor h) n = (mon, n')
    \<Longrightarrow> conn_step nw tc srt all (h, n, pend, gone) (set_monitor mon h, n', pend \<union> (set (nw_Conns nw n') - set (nw_Conns nw n)), gone)"
| put_shard: "mon = (ch_connMonitor h)\<lparr>cmo_preferred := PutShardID p s (cmo_preferred (ch_connMonitor h))\<rparr>
    \<Longrightarrow> conn_step nw tc srt all (h, n, pend, gone) (set_monitor mon h, n, pend, gone)"
| set_resolver: "\<forall>r. resolver = Some r \<longrightarrow> known_types r
    \<Longrightarrow> conn_step nw tc srt all (h, n, pend, gone) (snd (handler_SetPeerShardResolver resolver h), n, pend, gone)"
| set_denial: "conn_step nw tc srt all (h, n, pend, gone) (snd (handler_SetPeerDenialEvaluator d h), n, pend, gone)"
| set_threshold: "conn_step nw tc srt all (h, n, pend, gone) (snd (snd (SetThresholdMinConnectedPeers nw t h n)), n, pend, gone)"
| on_topic: "conn_step nw tc srt all (h, n, pend, gone) (snd (ConnectedPeersOnTopic now topic h), n, pend, gone)"
| status: "conn_step nw tc srt all (h, n, pend, gone) (snd (printConnectionsStatus h), n, pend, gone)"
| close: "conn_step nw tc srt all (h, n, pend, gone) (snd (connections_Close h), n, pend, gone)"

inductive_cases conn_stepE: "conn_step nw tc srt all (h, n, pend, gone) s'"

text \<open>A run starts with the handler as it is built; the connections that are open then count as pending.\<close>

inductive conn_run :: "'n network_ops \<Rightarrow> 'k watcher_cache \<Rightarrow> (PeerDistances \<Rightarrow> PeerDistances) \<Rightarrow> uint32
  \<Rightarrow> 'k connectionsHandler \<Rightarrow> 'k connectionsHandler \<times> 'n \<times> network_conn set \<times> peerid set \<Rightarrow> bool"
  for nw tc srt all h0 where
  start: "conn_run nw tc srt all h0 (h0, n, set (nw_Conns nw n), {})"
| step: "conn_run nw tc srt all h0 s \<Longrightarrow> conn_step nw tc srt all s s' \<Longrightarrow> conn_run nw tc srt all h0 s'"

section \<open>What each operation keeps\<close>

lemma set_monitor_simps [simp]:
  "ch_connMonitor (set_monitor mon h) = mon" "ch_peerShardResolver (set_monitor mon h) = ch_peerShardResolver h"
  by (simp_all add: set_monitor_def)

text \<open>The parts of the monitor that the limits rest on: its sharder and its preferred peers.\<close>

lemma Connected_keeps:
  assumes "Connected nw tc srt all c mon n = Some (mon', n')"
  shows "cmo_sharder mon' = cmo_sharder mon" "Contains p (cmo_preferred mon') = Contains p (cmo_preferred mon)"
  using assms by (auto simp: Connected_def Let_def split: if_splits option.splits)

lemma RemovePeer_peerIDs:
  assumes "RemovePeer p ph = Some ph'"
  shows "peerIDs ph' = (peerIDs ph)(p := None)"
proof (cases "peerIDs ph p")
  case None
  with assms show ?thesis by (auto simp: RemovePeer_absent)
next
  case (Some d)
  then have "index d < length (slice_at (peerIDsPerShard ph) (shardID d))"
    using assms RemovePeer_None [OF Some] by fastforce
  from RemovePeer_Some [OF Some this] assms show ?thesis by auto
qed

text \<open>The disconnection event removes the identifier of the connection from the preferred peers, and nothing else.\<close>

lemma Disconnected_keeps:
  assumes "Disconnected nw conn mon n = Some (req, mon')"
  shows "cmo_sharder mon' = cmo_sharder mon"
    "Contains p (cmo_preferred mon') \<longleftrightarrow> Contains p (cmo_preferred mon) \<and> p \<notin> nc_ID ` set_option conn"
    "req \<longleftrightarrow> int (length (nw_Peers nw n)) < cmo_threshold mon"
  using assms
  by (auto simp: Disconnected_def Contains_def doReconnectionIfNeeded_def monitor_IsConnectedToTheNetwork_def
      split: option.splits if_splits dest!: RemovePeer_peerIDs)

lemma turn_keeps:
  assumes "processLoop_turn nw recs ev mon n = (mon', n')"
  shows "cmo_sharder mon' = cmo_sharder mon" "cmo_preferred mon' = cmo_preferred mon"
  using assms by (cases ev; auto split: if_splits)+

lemma PutShardID_Contains: "Contains p ph \<Longrightarrow> Contains p (PutShardID q s ph)"
  by (auto simp: PutShardID_def Contains_def Let_def split: option.splits)

lemma setters_keep [simp]:
  "cmo_preferred (ch_connMonitor (snd (handler_SetPeerShardResolver r h))) = cmo_preferred (ch_connMonitor h)"
  "cmo_preferred (ch_connMonitor (snd (handler_SetPeerDenialEvaluator d h))) = cmo_preferred (ch_connMonitor h)"
  "cmo_sharder (ch_connMonitor (snd (handler_SetPeerDenialEvaluator d h))) = cmo_sharder (ch_connMonitor h)"
  "cmo_preferred (ch_connMonitor (snd (snd (SetThresholdMinConnectedPeers nw t h n)))) = cmo_preferred (ch_connMonitor h)"
  "cmo_sharder (ch_connMonitor (snd (snd (SetThresholdMinConnectedPeers nw t h n)))) = cmo_sharder (ch_connMonitor h)"
  "ch_connMonitor (snd (ConnectedPeersOnTopic now topic h)) = ch_connMonitor h"
  "ch_connMonitor (snd (printConnectionsStatus h)) = ch_connMonitor h"
  "cmo_preferred (ch_connMonitor (snd (connections_Close h))) = cmo_preferred (ch_connMonitor h)"
  "cmo_sharder (ch_connMonitor (snd (connections_Close h))) = cmo_sharder (ch_connMonitor h)"
  by (simp_all add: handler_SetPeerShardResolver_def handler_SetPeerDenialEvaluator_def monitor_SetPeerDenialEvaluator_def
      SetThresholdMinConnectedPeers_def monitor_SetThresholdMinConnectedPeers_def ConnectedPeersOnTopic_def printConnectionsStatus_def
      connections_Close_def monitor_Close_def Let_def split: option.split prod.split)

lemma step_Contains:
  assumes "conn_step nw tc srt all (h, n, pend, gone) (h', n', pend', gone')"
  shows "gone \<subseteq> gone' \<and> (p \<notin> gone' \<longrightarrow> Contains p (cmo_preferred (ch_connMonitor h)) \<longrightarrow> Contains p (cmo_preferred (ch_connMonitor h')))"
  using assms
  by (elim conn_stepE) (auto simp: Connected_keeps turn_keeps PutShardID_Contains Disconnected_keeps(2))

section \<open>The limits in every run\<close>

text \<open>
  The peers with a connection whose event was handled, and which of them the limits are about: the seeders and
  those that are not preferred. A peer whose identifier was removed as that of a closed connection may lose its
  exemption between two connection events: the first limit is about the peers that are not in \<open>gone\<close>.
\<close>

definition settled :: "'n network_ops \<Rightarrow> 'n \<Rightarrow> network_conn set \<Rightarrow> peerid set" where
  "settled nw n pend = nc_RemotePeer ` (set (nw_Conns nw n) - pend)"

definition limited :: "'n network_ops \<Rightarrow> 'k connectionMonitor \<Rightarrow> peerid \<Rightarrow> bool" where
  "limited nw mon p \<longleftrightarrow> Sharder_IsSeeder (nw_Pretty nw) (cmo_sharder mon) p \<or> \<not> Contains p (cmo_preferred mon)"

definition within_limits :: "'n network_ops \<Rightarrow> ArgListsSharder \<Rightarrow> 'k connectionMonitor \<Rightarrow> peerid set \<Rightarrow> peerid set \<Rightarrow> bool" where
  "within_limits nw arg mon gone P \<longleftrightarrow>
     int (card {p \<in> P - gone. limited nw mon p}) \<le> uint (TargetPeerCount (Sharding (als_P2pConfig arg))) \<and>
     int (card {p \<in> P. Sharder_IsSeeder (nw_Pretty nw) (cmo_sharder mon) p}) \<le> uint (MaxSeeders (Sharding (als_P2pConfig arg)))"

definition built_sharder :: "(peerid \<Rightarrow> bytes) \<Rightarrow> ArgListsSharder \<Rightarrow> Sharder \<Rightarrow> bool" where
  "built_sharder ConvertPeerID arg sh \<longleftrightarrow>
     (\<exists>ls0 ls. NewListsSharder ConvertPeerID arg = Inr ls0 \<and> sharder_reach ls0 ls \<and> known_types (peerShardResolver ls) \<and>
        sh = ListsSharderImpl ls)"

lemma finite_settled [simp]: "finite (settled nw n pend)"
  by (simp add: settled_def)

lemma within_limits_mono:
  assumes "within_limits nw arg mon gone P" and "Q \<subseteq> P" and "finite P" and "gone \<subseteq> gone'"
    and "\<And>p. Sharder_IsSeeder (nw_Pretty nw) (cmo_sharder mon') p = Sharder_IsSeeder (nw_Pretty nw) (cmo_sharder mon) p"
    and "\<And>p. p \<notin> gone' \<Longrightarrow> Contains p (cmo_preferred mon) \<Longrightarrow> Contains p (cmo_preferred mon')"
  shows "within_limits nw arg mon' gone' Q"
proof -
  have "card {p \<in> Q - gone'. limited nw mon' p} \<le> card {p \<in> P - gone. limited nw mon p}"
    "card {p \<in> Q. Sharder_IsSeeder (nw_Pretty nw) (cmo_sharder mon') p} \<le> card {p \<in> P. Sharder_IsSeeder (nw_Pretty nw) (cmo_sharder mon) p}"
    using assms(2-6) by (auto simp: limited_def intro!: card_mono)
  with assms(1) show ?thesis unfolding within_limits_def by linarith
qed

text \<open>With known types of peers, every seeder and every peer that is not preferred is in a list of the sharder.\<close>

lemma limited_is_listed:
  assumes "known_types (peerShardResolver ls)" and "cmo_sharder mon = ListsSharderImpl ls"
  shows "limited nw mon p \<longleftrightarrow> peer_class (nw_Pretty nw) (ls\<lparr>preferredPeersHolder := (\<lambda>p. Contains p (cmo_preferred mon))\<rparr>) p \<noteq> None"
proof -
  have "PeerType (peerShardResolver ls p) \<noteq> OtherPeerType t" for t using assms(1) by (simp add: known_types_def)
  then show ?thesis
    by (cases "PeerType (peerShardResolver ls p)") (auto simp: limited_def peer_class_def Let_def assms(2) IsSeeder_def)
qed

text \<open>The connection event: it never panics, and afterwards all connected peers are within the limits.\<close>

lemma Connected_within:
  assumes "built_sharder ConvertPeerID arg (cmo_sharder mon)" and "\<forall>p. length (ConvertPeerID p) = 32"
    and "sorter srt Distance" and "network_laws nw" and "\<not> cmo_IsDenied mon (nc_RemotePeer c)"
  shows "\<exists>mon' n'. Connected nw tc srt all c mon n = Some (mon', n') \<and> within_limits nw arg mon' {} (set (nw_Peers nw n')) \<and>
    (\<forall>d \<in> set (nw_Conns nw n). \<not> limited nw mon (nc_RemotePeer d) \<longrightarrow> d \<in> set (nw_Conns nw n'))"
proof -
  obtain ls0 ls where new: "NewListsSharder ConvertPeerID arg = Inr ls0" and reach: "sharder_reach ls0 ls"
    and known: "known_types (peerShardResolver ls)" and sh: "cmo_sharder mon = ListsSharderImpl ls"
    using assms(1) by (auto simp: built_sharder_def)
  obtain mon' n' where c: "Connected nw tc srt all c mon n = Some (mon', n')" and sh': "cmo_sharder mon' = ListsSharderImpl ls"
    and kept: "\<forall>d \<in> set (nw_Conns nw n). Contains (nc_RemotePeer d) (cmo_preferred mon') \<and> \<not> IsSeeder (nw_Pretty nw) ls (nc_RemotePeer d)
      \<longrightarrow> d \<in> set (nw_Conns nw n')"
    and target: "int (card {p \<in> set (nw_Peers nw n'). peer_class (nw_Pretty nw) (ls\<lparr>preferredPeersHolder := (\<lambda>p. Contains p (cmo_preferred mon'))\<rparr>) p
      \<noteq> None}) \<le> uint (TargetPeerCount (Sharding (als_P2pConfig arg)))"
    and seed: "int (card {p \<in> set (nw_Peers nw n'). IsSeeder (nw_Pretty nw) ls p}) \<le> uint (MaxSeeders (Sharding (als_P2pConfig arg)))"
    using Connected_limits [OF new reach assms(2-4) sh assms(5), of tc all n] by blast
  have "within_limits nw arg mon' {} (set (nw_Peers nw n'))"
    using target seed unfolding within_limits_def limited_is_listed [OF known sh'] by (simp add: sh')
  with c kept show ?thesis by (auto simp: limited_def sh Connected_keeps [OF c])
qed

definition run_inv :: "'n network_ops \<Rightarrow> (peerid \<Rightarrow> bytes) \<Rightarrow> ArgListsSharder
  \<Rightarrow> 'k connectionsHandler \<times> 'n \<times> network_conn set \<times> peerid set \<Rightarrow> bool" where
  "run_inv nw ConvertPeerID arg s \<longleftrightarrow>
     (case s of (h, n, pend, gone) \<Rightarrow> built_sharder ConvertPeerID arg (cmo_sharder (ch_connMonitor h)) \<and>
        within_limits nw arg (ch_connMonitor h) gone (settled nw n pend))"

lemma run_inv_same:
  assumes "run_inv nw ConvertPeerID arg (h, n, pend, gone)" and "settled nw n' pend' \<subseteq> settled nw n pend"
    and "cmo_sharder (ch_connMonitor h') = cmo_sharder (ch_connMonitor h)" and "gone \<subseteq> gone'"
    and "\<And>p. p \<notin> gone' \<Longrightarrow> Contains p (cmo_preferred (ch_connMonitor h)) \<Longrightarrow> Contains p (cmo_preferred (ch_connMonitor h'))"
  shows "run_inv nw ConvertPeerID arg (h', n', pend', gone')"
proof -
  have "within_limits nw arg (ch_connMonitor h') gone' (settled nw n' pend')"
    using assms(1,3-5) by (intro within_limits_mono [where mon = "ch_connMonitor h" and gone = gone, OF _ assms(2)]) (simp_all add: run_inv_def)
  with assms(1,3) show ?thesis by (simp add: run_inv_def)
qed

lemma set_resolver_built:
  assumes "built_sharder ConvertPeerID arg (cmo_sharder (ch_connMonitor h))" and "\<forall>r. resolver = Some r \<longrightarrow> known_types r"
  shows "built_sharder ConvertPeerID arg (cmo_sharder (ch_connMonitor (snd (handler_SetPeerShardResolver resolver h))))"
    and "Sharder_IsSeeder Pretty (cmo_sharder (ch_connMonitor (snd (handler_SetPeerShardResolver resolver h)))) p =
      Sharder_IsSeeder Pretty (cmo_sharder (ch_connMonitor h)) p"
proof -
  obtain ls0 ls where new: "NewListsSharder ConvertPeerID arg = Inr ls0" and reach: "sharder_reach ls0 ls"
    and known: "known_types (peerShardResolver ls)" and sh: "cmo_sharder (ch_connMonitor h) = ListsSharderImpl ls"
    using assms(1) by (auto simp: built_sharder_def)
  have set: "cmo_sharder (ch_connMonitor (snd (handler_SetPeerShardResolver resolver h))) = ListsSharderImpl (snd (SetPeerShardResolver resolver ls))"
    by (cases resolver) (simp_all add: handler_SetPeerShardResolver_def SetPeerShardResolver_def sh)
  have "known_types (peerShardResolver (snd (SetPeerShardResolver resolver ls)))"
    using known assms(2) by (cases resolver) (simp_all add: SetPeerShardResolver_def)
  then show "built_sharder ConvertPeerID arg (cmo_sharder (ch_connMonitor (snd (handler_SetPeerShardResolver resolver h))))"
    using new sharder_reach.set_resolver [OF reach, of resolver] by (auto simp: built_sharder_def set)
  show "Sharder_IsSeeder Pretty (cmo_sharder (ch_connMonitor (snd (handler_SetPeerShardResolver resolver h)))) p =
      Sharder_IsSeeder Pretty (cmo_sharder (ch_connMonitor h)) p"
    unfolding set sh by (cases resolver) (simp_all add: SetPeerShardResolver_def IsSeeder_def)
qed

lemma settled_new: "settled nw n' (pend \<union> (set (nw_Conns nw n') - set (nw_Conns nw n))) \<subseteq> settled nw n pend"
  by (auto simp: settled_def)

lemma settled_peers: "network_laws nw \<Longrightarrow> settled nw n pend \<subseteq> set (nw_Peers nw n)"
  by (auto simp: settled_def network_lawsD)

lemma run_inv_connected:
  assumes "run_inv nw ConvertPeerID arg (h, n, pend, gone)" and "Connected nw tc srt all c (ch_connMonitor h) n = Some (mon, n')"
    and "\<forall>p. length (ConvertPeerID p) = 32" and "sorter srt Distance" and "network_laws nw"
  shows "run_inv nw ConvertPeerID arg (set_monitor mon h, n', pend - {c}, gone)"
proof (cases "cmo_IsDenied (ch_connMonitor h) (nc_RemotePeer c)")
  case True
  then have "mon = ch_connMonitor h" "n' = snd (nw_CloseConn nw c n)" using assms(2) by (simp_all add: Connected_def)
  moreover have "settled nw (snd (nw_CloseConn nw c n)) (pend - {c}) \<subseteq> settled nw n pend"
    by (auto simp: settled_def network_lawsD [OF assms(5)])
  ultimately show ?thesis using assms(1) by (intro run_inv_same [OF assms(1)]) simp_all
next
  case False
  from assms(1) have built: "built_sharder ConvertPeerID arg (cmo_sharder (ch_connMonitor h))" by (simp add: run_inv_def)
  have "within_limits nw arg mon {} (set (nw_Peers nw n'))"
    using Connected_within [OF built assms(3-5) False, of tc all n] assms(2) by auto
  then have "within_limits nw arg mon gone (settled nw n' (pend - {c}))"
    by (rule within_limits_mono [OF _ settled_peers [OF assms(5)]]) simp_all
  with built show ?thesis by (simp add: run_inv_def Connected_keeps [OF assms(2)])
qed

lemma run_inv_resolver:
  assumes "run_inv nw ConvertPeerID arg (h, n, pend, gone)" and "\<forall>r. resolver = Some r \<longrightarrow> known_types r"
  shows "run_inv nw ConvertPeerID arg (snd (handler_SetPeerShardResolver resolver h), n, pend, gone)"
proof -
  from assms(1) have built: "built_sharder ConvertPeerID arg (cmo_sharder (ch_connMonitor h))"
    and lim: "within_limits nw arg (ch_connMonitor h) gone (settled nw n pend)" by (simp_all add: run_inv_def)
  from lim have "within_limits nw arg (ch_connMonitor (snd (handler_SetPeerShardResolver resolver h))) gone (settled nw n pend)"
    by (rule within_limits_mono) (simp_all only: set_resolver_built(2) [OF built assms(2)] setters_keep finite_settled subset_refl)
  with set_resolver_built(1) [OF built assms(2)] show ?thesis by (simp add: run_inv_def)
qed

lemma run_inv_step:
  assumes "conn_step nw tc srt all (h, n, pend, gone) (h', n', pend', gone')" and inv: "run_inv nw ConvertPeerID arg (h, n, pend, gone)"
    and "\<forall>p. length (ConvertPeerID p) = 32" and "sorter srt Distance" and "network_laws nw"
  shows "run_inv nw ConvertPeerID arg (h', n', pend', gone')"
  using assms(1)
proof (cases rule: conn_step.cases)
  case (connected c mon)
  with run_inv_connected [OF inv _ assms(3-5)] show ?thesis by simp
next
  case (set_resolver resolver)
  with run_inv_resolver [OF inv] show ?thesis by simp
next
  case net
  then show ?thesis by (intro run_inv_same [OF inv]) (simp_all add: settled_new)
next
  case (turn recs ev mon)
  with turn_keeps [OF turn(5)] show ?thesis by (intro run_inv_same [OF inv]) (simp_all add: settled_new)
next
  case (disconnected conn req mon)
  then show ?thesis by (intro run_inv_same [OF inv]) (simp_all add: Disconnected_keeps)
qed (intro run_inv_same [OF inv]; simp add: PutShardID_Contains)+

lemma run_inv_start:
  "built_sharder ConvertPeerID arg (cmo_sharder (ch_connMonitor h)) \<Longrightarrow> run_inv nw ConvertPeerID arg (h, n, set (nw_Conns nw n), {})"
  by (simp add: run_inv_def settled_def within_limits_def)

lemma run_inv_reach:
  assumes "conn_run nw tc srt all h0 s" and "built_sharder ConvertPeerID arg (cmo_sharder (ch_connMonitor h0))"
    and "\<forall>p. length (ConvertPeerID p) = 32" and "sorter srt Distance" and "network_laws nw"
  shows "run_inv nw ConvertPeerID arg s"
  using assms(1)
proof (induction rule: conn_run.induct)
  case (start n)
  from assms(2) show ?case by (rule run_inv_start)
next
  case (step s s')
  obtain h n pend gone h' n' pend' gone' where "s = (h, n, pend, gone)" "s' = (h', n', pend', gone')" by (cases s; cases s') auto
  with step run_inv_step [OF _ _ assms(3-5)] show ?case by blast
qed

section \<open>The main loop\<close>

text \<open>The sweep of the loop leaves no denied peer, and only closes.\<close>

lemma sweep_closes_denied:
  assumes "network_laws nw" and "processLoop_turn nw recs TimerCheckConnections mon n = (mon', n')"
  shows "set (nw_Peers nw n') = {p \<in> set (nw_Peers nw n). \<not> cmo_IsDenied mon p}"
  using assms(2) by (auto simp: checkConnectionsBlocking_def closePeers_peers [OF assms(1)])

text \<open>The attempts to reconnect in a sequence of events of the loop: at most one more than the ticks of the timer between attempts.\<close>

fun reconnects :: "'n network_ops \<Rightarrow> ('n \<Rightarrow> 'n) list \<Rightarrow> monitor_event list \<Rightarrow> 'k connectionMonitor \<Rightarrow> 'n \<Rightarrow> nat" where
  "reconnects nw recs [] mon n = 0"
| "reconnects nw recs (ev # evs) mon n =
     (let (mon', n') = processLoop_turn nw recs ev mon n
      in (if ev = ChDoReconnect \<and> cmo_canReconnect mon then 1 else 0) + reconnects nw recs evs mon' n')"

lemma reconnects_throttled:
  "reconnects nw recs evs mon n \<le> (if cmo_canReconnect mon then 1 else 0) + count_list evs TimerBetweenReconnectAttempts"
proof (induction evs arbitrary: mon n)
  case (Cons ev evs)
  show ?case
  proof (cases ev)
    case ChDoReconnect
    then show ?thesis
      using Cons.IH [of mon n] Cons.IH [of "mon\<lparr>cmo_canReconnect := False\<rparr>" "reconnectToNetwork recs n"] by (auto simp: Let_def)
  next
    case TimerBetweenReconnectAttempts
    then show ?thesis using Cons.IH [of "mon\<lparr>cmo_canReconnect := True\<rparr>" n] by (simp add: Let_def)
  next
    case TimerCheckConnections
    then show ?thesis using Cons.IH [of mon "checkConnectionsBlocking nw mon n"] by (simp add: Let_def)
  next
    case CtxDone
    then show ?thesis using Cons.IH [of "mon\<lparr>cmo_closed := True\<rparr>" n] by (simp add: Let_def)
  qed
qed simp

section \<open>Property\<close>

lemma run_Contains:
  assumes "conn_run nw tc srt all h0 s" and "Contains p (cmo_preferred (ch_connMonitor h0))"
  shows "p \<notin> snd (snd (snd s)) \<longrightarrow> Contains p (cmo_preferred (ch_connMonitor (fst s)))"
  using assms(1)
proof (induction rule: conn_run.induct)
  case (step s s')
  obtain h n pend gone h' n' pend' gone' where "s = (h, n, pend, gone)" "s' = (h', n', pend', gone')" by (cases s; cases s') auto
  with step step_Contains [of nw tc srt all h n pend gone h' n' pend' gone' p] show ?case by auto
qed (simp add: assms(2))

text \<open>
  C39. Disconnected hands the identifier of the connection, \<open>conn.ID()\<close>, and not of its remote peer to the preferred
  peers holder: the event removes exactly that identifier. So in every run of the monitor and of the connections
  handler, whatever connections open and close, a preferred peer stays in the holder, and keeps its exemption from the
  limits although it may no longer be connected, unless a closed connection had the identifier of the peer as its own
  connection identifier.
\<close>

theorem monitor_never_forgets_a_preferred_peer:
  assumes "conn_run nw tc srt all h0 (h, n, pend, gone)" and "Contains p (cmo_preferred (ch_connMonitor h0))" and "p \<notin> gone"
  shows "Contains p (cmo_preferred (ch_connMonitor h)) \<and>
    (Sharder_IsSeeder (nw_Pretty nw) (cmo_sharder (ch_connMonitor h)) p \<longleftrightarrow> limited nw (ch_connMonitor h) p) \<and>
    (\<forall>c req mon. Disconnected nw (Some c) (ch_connMonitor h) n = Some (req, mon) \<longrightarrow>
      (\<forall>q. Contains q (cmo_preferred mon) \<longleftrightarrow> Contains q (cmo_preferred (ch_connMonitor h)) \<and> q \<noteq> nc_ID c))"
  using run_Contains [OF assms(1,2)] assms(3) by (auto simp: limited_def Disconnected_keeps(2))

theorem monitor_never_forgets_a_preferred_peer_witness:
  "\<exists>mon. Disconnected example_network (Some example_conn) (ch_connMonitor example_connections) [] = Some (True, mon) \<and>
     conn_run example_network example_watcher_cache sort_PeerDistances 255 example_connections
       (set_monitor mon example_connections, [], {example_conn}, {nc_ID example_conn}) \<and>
     nc_RemotePeer example_conn = [1] \<and> Contains [1] (cmo_preferred mon) \<and> [1] \<notin> set (nw_Peers example_network [])"
proof -
  have run: "conn_run example_network example_watcher_cache sort_PeerDistances 255 example_connections
      (example_connections, [example_conn], {example_conn}, {})"
    using conn_run.start [of example_network example_watcher_cache sort_PeerDistances 255 example_connections "[example_conn]"]
    by (simp add: example_network_def)
  have "conn_run example_network example_watcher_cache sort_PeerDistances 255 example_connections
      (example_connections, [], {example_conn} \<union> (set (nw_Conns example_network []) - set (nw_Conns example_network [example_conn])), {})"
    by (rule conn_run.step [OF run conn_step.net])
  then have closed: "conn_run example_network example_watcher_cache sort_PeerDistances 255 example_connections
      (example_connections, [], {example_conn}, {})"
    by (simp add: example_network_def)
  have event: "Disconnected example_network (Some example_conn) (ch_connMonitor example_connections) [] =
      Some (True, ch_connMonitor example_connections)"
    by (simp add: Disconnected_def RemovePeer_absent doReconnectionIfNeeded_def monitor_IsConnectedToTheNetwork_def example_conn_def
        example_connections_def example_monitor_def two_peers_holder_def example_network_def)
  have after: "conn_run example_network example_watcher_cache sort_PeerDistances 255 example_connections
      (set_monitor (ch_connMonitor example_connections) example_connections, [], {example_conn}, {nc_ID example_conn})"
    using conn_run.step [OF closed conn_step.disconnected [OF event]] by simp
  have "Contains [1] (cmo_preferred (ch_connMonitor example_connections))"
    by (simp add: example_connections_def example_monitor_def two_peers_holder_def Contains_def)
  from monitor_never_forgets_a_preferred_peer [OF after this]
  have "Contains [1] (cmo_preferred (ch_connMonitor example_connections))" by (simp add: example_conn_def)
  with after event show ?thesis by (auto simp: example_network_def example_conn_def)
qed

end
