(* ===== verification/MutexHolder.thy ===== *)
theory MutexHolder
  imports Cacher
begin

text \<open>
  The cache of mutexes, one per key (\<^verbatim>\<open>p2p/libp2p/mutexHolder.go\<close>). A mutex is a number, its address;
  the holder counts the addresses it has used. The cache is any implementation of the locale
  \<open>cacher\<close>, so a mutex may be evicted by the write of another key.
\<close>

section \<open>Operations\<close>

text \<open>The values of the cache have the empty interface type: a mutex, or something else.\<close>

datatype cached_value = Mutex nat | OtherValue

record 'c MutexHolder =
  mutexes :: 'c
  nextMutex :: nat

text \<open>\<open>newCache\<close> is \<^verbatim>\<open>lrucache.NewCache\<close>.\<close>

definition NewMutexHolder :: "(int \<Rightarrow> 'c res) \<Rightarrow> int \<Rightarrow> 'c MutexHolder res" where
  "NewMutexHolder newCache mutexesCapacity =
     (case newCache mutexesCapacity of Inl err \<Rightarrow> Inl err | Inr c \<Rightarrow> Inr \<lparr>mutexes = c, nextMutex = 0\<rparr>)"

definition putNewMutex :: "('c, cached_value) cacher_ops \<Rightarrow> bytes \<Rightarrow> 'c MutexHolder \<Rightarrow> nat \<times> 'c MutexHolder" where
  "putNewMutex ops sliceKey mh =
     (let newMutex = nextMutex mh
      in (newMutex, \<lparr>mutexes = snd (Put ops sliceKey (Mutex newMutex) 0 (mutexes mh)), nextMutex = Suc newMutex\<rparr>))"

definition getMutex :: "('c, cached_value) cacher_ops \<Rightarrow> bytes \<Rightarrow> 'c MutexHolder \<Rightarrow> nat \<times> 'c MutexHolder" where
  "getMutex ops key mh =
     (let (val, c) = Get ops key (mutexes mh);
          mh = mh\<lparr>mutexes := c\<rparr>
      in case val of
           None \<Rightarrow> putNewMutex ops key mh
         | Some (Mutex mutex) \<Rightarrow> (mutex, mh)
         | Some OtherValue \<Rightarrow> putNewMutex ops key mh)"

section \<open>One mutex per key\<close>

text \<open>The mutexes in the cache have been made, and no two keys share one.\<close>

definition mutexes_ok :: "('c \<Rightarrow> bytes \<Rightarrow> cached_value option) \<Rightarrow> 'c MutexHolder \<Rightarrow> bool" where
  "mutexes_ok view mh \<longleftrightarrow>
     (\<forall>k m. view (mutexes mh) k = Some (Mutex m) \<longrightarrow> m < nextMutex mh) \<and>
     (\<forall>k k' m. view (mutexes mh) k = Some (Mutex m) \<longrightarrow> view (mutexes mh) k' = Some (Mutex m) \<longrightarrow> k = k')"

locale mutex_cache = cacher ops view
  for ops :: "('c, cached_value) cacher_ops" and view :: "'c \<Rightarrow> bytes \<Rightarrow> cached_value option"
begin

lemma mutexes_ok_submap:
  assumes "mutexes_ok view mh" and "view c \<subseteq>\<^sub>m view (mutexes mh)"
  shows "mutexes_ok view (mh\<lparr>mutexes := c\<rparr>)"
  using assms unfolding mutexes_ok_def map_le_def by simp (metis domI)

lemma putNewMutex_props:
  assumes "mutexes_ok view mh" and "putNewMutex ops key mh = (m, mh')"
  shows "mutexes_ok view mh'" and "view (mutexes mh') key = Some (Mutex m)"
    and "\<And>k. k \<noteq> key \<Longrightarrow> view (mutexes mh') k \<noteq> Some (Mutex m)"
proof -
  from assms(2) have m: "m = nextMutex mh" "nextMutex mh' = Suc m"
    and v: "mutexes mh' = snd (Put ops key (Mutex m) 0 (mutexes mh))"
    by (auto simp: putNewMutex_def Let_def)
  show key: "view (mutexes mh') key = Some (Mutex m)" by (simp add: v put_same)
  have other: "view (mutexes mh') k = Some (Mutex x) \<Longrightarrow> k \<noteq> key \<Longrightarrow> view (mutexes mh) k = Some (Mutex x)" for k x
    using put_other [of k key "Mutex m" 0 "mutexes mh"] by (auto simp: v)
  show made: "view (mutexes mh') k \<noteq> Some (Mutex m)" if "k \<noteq> key" for k
    using other [of k m] that assms(1) m(1) by (auto simp: mutexes_ok_def)
  show "mutexes_ok view mh'"
    unfolding mutexes_ok_def
  proof (intro conjI allI impI)
    fix k x
    assume "view (mutexes mh') k = Some (Mutex x)"
    then show "x < nextMutex mh'"
      using other [of k x] key assms(1) m by (cases "k = key") (auto simp: mutexes_ok_def less_Suc_eq)
  next
    fix k k' x
    assume k: "view (mutexes mh') k = Some (Mutex x)" and k': "view (mutexes mh') k' = Some (Mutex x)"
    show "k = k'"
    proof (cases "k = key \<or> k' = key")
      case True
      with k k' key have "x = m" by auto
      with k k' made have "k = key" "k' = key" by blast+
      then show ?thesis by simp
    next
      case False
      with k k' other have "view (mutexes mh) k = Some (Mutex x)" "view (mutexes mh) k' = Some (Mutex x)" by blast+
      with assms(1) show ?thesis unfolding mutexes_ok_def by blast
    qed
  qed
qed

lemma getMutex_cases:
  obtains (cached) c m where "view c = view (mutexes mh)" "view (mutexes mh) key = Some (Mutex m)" "getMutex ops key mh = (m, mh\<lparr>mutexes := c\<rparr>)"
  | (fresh) c where "view c = view (mutexes mh)" "\<nexists>m. view (mutexes mh) key = Some (Mutex m)"
      "getMutex ops key mh = putNewMutex ops key (mh\<lparr>mutexes := c\<rparr>)"
proof -
  obtain c where g: "Get ops key (mutexes mh) = (view (mutexes mh) key, c)" and c: "view c = view (mutexes mh)"
    by (metis get_val get_view prod.collapse)
  show ?thesis
  proof (cases "\<exists>x. view (mutexes mh) key = Some (Mutex x)")
    case True
    with g c cached show ?thesis by (auto simp: getMutex_def)
  next
    case False
    then have "getMutex ops key mh = putNewMutex ops key (mh\<lparr>mutexes := c\<rparr>)"
      using g by (auto simp: getMutex_def Let_def split: option.splits cached_value.splits)
    with False c fresh show ?thesis by blast
  qed
qed

lemma getMutex_props:
  assumes "mutexes_ok view mh" and "getMutex ops key mh = (m, mh')"
  shows "mutexes_ok view mh' \<and> view (mutexes mh') key = Some (Mutex m)"
proof (cases rule: getMutex_cases [of mh key])
  case (cached c x)
  then show ?thesis using mutexes_ok_submap [OF assms(1), of c] assms(2) by simp
next
  case (fresh c)
  then show ?thesis using putNewMutex_props [OF mutexes_ok_submap [OF assms(1)], of c key m mh'] assms(2) by simp
qed

text \<open>
  The mutex \<open>m\<close> was made for \<open>key\<close>: it is in the cache for this key or, after an eviction, not at all.
\<close>

definition owned :: "bytes \<Rightarrow> nat \<Rightarrow> 'c MutexHolder \<Rightarrow> bool" where
  "owned key m mh \<longleftrightarrow> m < nextMutex mh \<and> view (mutexes mh) key \<in> {Some (Mutex m), None} \<and>
     (\<forall>k. k \<noteq> key \<longrightarrow> view (mutexes mh) k \<noteq> Some (Mutex m))"

lemma owned_step:
  assumes "owned key m mh" and "k \<noteq> key"
  shows "owned key m (snd (getMutex ops k mh))"
proof (cases rule: getMutex_cases [of mh k])
  case (cached c x)
  with assms show ?thesis by (auto simp: owned_def)
next
  case (fresh c)
  let ?c = "snd (Put ops k (Mutex (nextMutex mh)) 0 c)"
  have other: "view ?c k' \<in> {view (mutexes mh) k', None}" if "k' \<noteq> k" for k'
    using put_other [OF that, of "Mutex (nextMutex mh)" 0 c] fresh(1) by simp
  have m: "m < nextMutex mh" and own: "view (mutexes mh) key \<in> {Some (Mutex m), None}" using assms(1) by (simp_all add: owned_def)
  have "view ?c k' \<noteq> Some (Mutex m)" if "k' \<noteq> key" for k'
    using other [of k'] m assms(1) that by (cases "k' = k") (auto simp: put_same owned_def)
  moreover have "view ?c key \<in> {Some (Mutex m), None}" using other [of key] own assms(2) by auto
  ultimately show ?thesis using m fresh(3) by (simp add: owned_def putNewMutex_def Let_def)
qed

lemma owned_run:
  assumes "owned key m mh" and "key \<notin> set ks"
  shows "owned key m (fold (\<lambda>k mh. snd (getMutex ops k mh)) ks mh)"
  using assms
proof (induction ks arbitrary: mh)
  case (Cons k ks)
  then show ?case using owned_step [OF Cons.prems(1), of k] by auto
qed simp

lemma owned_get:
  assumes "owned key m mh"
  shows "fst (getMutex ops key mh) = m \<longleftrightarrow> view (mutexes mh) key \<noteq> None" and "k \<noteq> key \<Longrightarrow> fst (getMutex ops k mh) \<noteq> m"
proof -
  show "fst (getMutex ops key mh) = m \<longleftrightarrow> view (mutexes mh) key \<noteq> None"
    using assms by (cases rule: getMutex_cases [of mh key]) (auto simp: owned_def putNewMutex_def Let_def)
  show "fst (getMutex ops k mh) \<noteq> m" if "k \<noteq> key"
    using assms that by (cases rule: getMutex_cases [of mh k]) (auto simp: owned_def putNewMutex_def Let_def)
qed

lemma owned_after_get:
  assumes "mutexes_ok view mh" and "getMutex ops key mh = (m, mh')"
  shows "owned key m mh'"
  using getMutex_props [OF assms] unfolding owned_def mutexes_ok_def by blast

lemma mutexes_ok_run:
  "mutexes_ok view mh \<Longrightarrow> mutexes_ok view (fold (\<lambda>k mh. snd (getMutex ops k mh)) keys mh)"
proof (induction keys arbitrary: mh)
  case (Cons k keys)
  have "mutexes_ok view (snd (getMutex ops k mh))"
    using getMutex_props [OF Cons.prems, of k] by (metis prod.collapse)
  with Cons.IH show ?case by simp
qed simp

end

interpretation mock_mutexes: mutex_cache CacherMock_ops dataMap
  by unfold_locales

text \<open>A cache with room for one entry, as an LRU cache of capacity one: every write evicts what was there.\<close>

definition one_entry_ops :: "((bytes \<times> 'v) option, 'v) cacher_ops" where
  "one_entry_ops = \<lparr>Put = (\<lambda>k v n c. (c \<noteq> None, Some (k, v))), Get = (\<lambda>k c. (case c of Some (k', v) \<Rightarrow> if k' = k then Some v else None | None \<Rightarrow> None, c)),
     Has = (\<lambda>k c. \<exists>v. c = Some (k, v)), Remove = (\<lambda>k c. (case c of Some (k', v) \<Rightarrow> if k' = k then None else c | None \<Rightarrow> None))\<rparr>"

definition one_entry_view :: "(bytes \<times> 'v) option \<Rightarrow> bytes \<Rightarrow> 'v option" where
  "one_entry_view c k = (case c of Some (k', v) \<Rightarrow> if k' = k then Some v else None | None \<Rightarrow> None)"

interpretation one_entry: mutex_cache one_entry_ops one_entry_view
  by unfold_locales (auto simp: one_entry_ops_def one_entry_view_def fun_eq_iff split: option.split)

section \<open>Property\<close>

text \<open>
  C25. After any sequence of calls, with any cache that may evict: when other keys are asked for after \<open>key\<close> got its mutex, the
  next call for \<open>key\<close> hands out the same mutex exactly when the cache has not evicted it; no other key ever gets this
  mutex. A mutex that is evicted while it is held is replaced by a new one, which does not exclude its holder.
\<close>

theorem mutex_per_key:
  assumes "cacher ops view" and "newCache capacity = Inr c" and "view c = Map.empty"
    and "NewMutexHolder newCache capacity = Inr mh0"
    and "getMutex ops key (fold (\<lambda>k mh. snd (getMutex ops k mh)) keys mh0) = (m, mh)"
    and "mh' = fold (\<lambda>k mh. snd (getMutex ops k mh)) others mh" and "key \<notin> set others"
  shows "(fst (getMutex ops key mh') = m \<longleftrightarrow> view (mutexes mh') key \<noteq> None) \<and> (k \<noteq> key \<longrightarrow> fst (getMutex ops k mh') \<noteq> m)"
proof -
  have mc: "mutex_cache ops view" by (rule mutex_cache.intro) (rule assms(1))
  from assms(2-4) have "mutexes_ok view mh0" by (auto simp: NewMutexHolder_def mutexes_ok_def)
  from mutex_cache.owned_after_get [OF mc mutex_cache.mutexes_ok_run [OF mc this] assms(5)]
  have "mutex_cache.owned view key m mh'" using mutex_cache.owned_run [OF mc _ assms(7)] assms(6) by simp
  then show ?thesis using mutex_cache.owned_get [OF mc] by blast
qed

theorem mutex_per_key_witness:
  "fst (getMutex one_entry_ops [1] \<lparr>mutexes = None, nextMutex = 0\<rparr>) = 0 \<and>
   fst (getMutex one_entry_ops [1] (snd (getMutex one_entry_ops [2] (snd (getMutex one_entry_ops [1] \<lparr>mutexes = None, nextMutex = 0\<rparr>))))) \<noteq> 0"
proof -
  let ?init = "\<lparr>mutexes = None, nextMutex = 0\<rparr> :: (bytes \<times> cached_value) option MutexHolder"
  let ?mh = "snd (getMutex one_entry_ops [1] ?init)" and ?mh' = "snd (getMutex one_entry_ops [2] (snd (getMutex one_entry_ops [1] ?init)))"
  have new: "NewMutexHolder (\<lambda>cap. Inr None) 1 = Inr ?init" by (simp add: NewMutexHolder_def)
  have get: "getMutex one_entry_ops [1] (fold (\<lambda>k mh. snd (getMutex one_entry_ops k mh)) [] ?init) = (0, ?mh)"
    by (simp add: getMutex_def putNewMutex_def one_entry_ops_def)
  have gone: "one_entry_view (mutexes ?mh') [1] = None"
    by (simp add: getMutex_def putNewMutex_def one_entry_ops_def one_entry_view_def)
  have "fst (getMutex one_entry_ops [1] ?mh') = 0 \<longleftrightarrow> one_entry_view (mutexes ?mh') [1] \<noteq> None"
    using mutex_per_key [OF one_entry.cacher_axioms, of "\<lambda>cap. Inr None" 1 None ?init "[1]" "[]" 0 ?mh ?mh' "[[2]]" "[2]"] new get
    by (simp add: one_entry_view_def fun_eq_iff)
  moreover have "fst (getMutex one_entry_ops [1] ?init) = 0" using arg_cong [OF get, of fst] by simp
  ultimately show ?thesis using gone by blast
qed

end
