(* ===== verification/DirectSender.thy ===== *)
theory DirectSender
  imports P2PMessage MutexHolder
begin

text \<open>
  The direct sender (\<^verbatim>\<open>p2p/libp2p/directSender.go\<close>): messages to one connected peer, outside of the
  topics. The host, its connections and streams, the cache of seen messages (\<^verbatim>\<open>timecache\<close>), the signer
  and the message handler are parameters. A stream is written in one piece.
\<close>

section \<open>State and parameters\<close>

definition sequenceNumberSize :: nat where
  "sequenceNumberSize = 8"

definition messageHeader :: nat where
  "messageHeader = 64 * 1024"

definition maxSendBuffSize :: nat where
  "maxSendBuffSize = 2 ^ 21 - messageHeader"

definition timeSeenMessages :: int where
  "timeSeenMessages = 120 * 1000000000"

definition maxMutexes :: int where
  "maxMutexes = 10000"

definition DirectSendID :: string where
  "DirectSendID = ''/erd/directsend/1.0.0''"

record stream =
  st_Protocol :: string
  st_DirOutbound :: bool
  st_id :: nat

record conn =
  GetStreams :: "stream list"
  LocalPeer :: peerid
  RemotePeer :: peerid

text \<open>The host: the connections to a peer, new streams, and the answers of writing and flushing.\<close>

record host_ops =
  ConnsToPeer :: "peerid \<Rightarrow> conn list"
  NewStream :: "peerid \<Rightarrow> string \<Rightarrow> stream res"
  WriteMsg :: "stream \<Rightarrow> pb_Message \<Rightarrow> p2p_error option"
  Flush :: "stream \<Rightarrow> p2p_error option"

text \<open>The cache of seen messages reads the clock: the first argument is the time of the call, in nanoseconds.\<close>

record 'k timecache_ops =
  tc_Has :: "int \<Rightarrow> bytes \<Rightarrow> 'k \<Rightarrow> bool"
  tc_Add :: "int \<Rightarrow> bytes \<Rightarrow> 'k \<Rightarrow> 'k"

record SignerVerifier =
  sv_Sign :: "bytes \<Rightarrow> bytes res"
  sv_Verify :: "bytes \<Rightarrow> peerid \<Rightarrow> bytes \<Rightarrow> p2p_error option"

text \<open>The handler of received messages, over its own state \<open>'h\<close>.\<close>

type_synonym 'h MessageHandler = "Message \<Rightarrow> peerid \<Rightarrow> 'h \<Rightarrow> p2p_error option \<times> 'h"

record ('k, 'c, 'h) directSender =
  ds_counter :: uint64
  ds_messageHandler :: "'h MessageHandler option"
  ds_seenMessages :: 'k
  ds_mutexForPeer :: "'c MutexHolder"
  ds_signer :: SignerVerifier
  ds_marshaller :: p2p_Marshaller

text \<open>
  \<open>now\<close> is the time in nanoseconds, \<open>newTimeCache\<close> is \<^verbatim>\<open>timecache.NewTimeCache\<close>, which makes a cache for a span of time; the
  host and the context are nil or not.
\<close>

definition NewDirectSender ::
  "uint64 \<Rightarrow> (int \<Rightarrow> 'k) \<Rightarrow> (int \<Rightarrow> 'c res) \<Rightarrow> bool \<Rightarrow> bool \<Rightarrow> SignerVerifier option \<Rightarrow> p2p_Marshaller option \<Rightarrow> logger option
   \<Rightarrow> ('k, 'c, 'h) directSender res" where
  "NewDirectSender now newTimeCache newCache nilHost nilCtx signer marshaller log =
     (if nilHost then Inl ErrNilHost
      else if nilCtx then Inl ErrNilContext
      else
     (case signer of
        None \<Rightarrow> Inl ErrNilP2PSigner
      | Some signer \<Rightarrow>
     (case marshaller of
        None \<Rightarrow> Inl ErrNilMarshaller
      | Some marshaller \<Rightarrow>
     (case log of
        None \<Rightarrow> Inl ErrNilLogger
      | Some log \<Rightarrow>
          andThen (NewMutexHolder newCache maxMutexes) (\<lambda>mutexForPeer.
          Inr \<lparr>ds_counter = now, ds_messageHandler = None, ds_seenMessages = newTimeCache timeSeenMessages,
               ds_mutexForPeer = mutexForPeer, ds_signer = signer, ds_marshaller = marshaller\<rparr>)))))"

definition RegisterDirectMessageProcessor ::
  "'h MessageHandler option \<Rightarrow> ('k, 'c, 'h) directSender \<Rightarrow> p2p_error option \<times> ('k, 'c, 'h) directSender" where
  "RegisterDirectMessageProcessor handler ds =
     (case handler of
        None \<Rightarrow> (Some ErrNilDirectSendMessageHandler, ds)
      | Some h \<Rightarrow> (None, ds\<lparr>ds_messageHandler := Some h\<rparr>))"

section \<open>Receiving\<close>

definition checkAndSetSeenMessage ::
  "'k timecache_ops \<Rightarrow> int \<Rightarrow> pb_Message \<Rightarrow> ('k, 'c, 'h) directSender \<Rightarrow> bool \<times> ('k, 'c, 'h) directSender" where
  "checkAndSetSeenMessage tc now msg ds =
     (let msgId = pb_From msg @ pb_Seqno msg
      in if tc_Has tc now msgId (ds_seenMessages ds) then (True, ds)
         else (False, ds\<lparr>ds_seenMessages := tc_Add tc now msgId (ds_seenMessages ds)\<rparr>))"

definition checkSig :: "pubsub_ops \<Rightarrow> ('k, 'c, 'h) directSender \<Rightarrow> pb_Message \<Rightarrow> p2p_error option" where
  "checkSig ps ds message =
     (if length (pb_Signature message) = 0 then None
      else
        (let copyMessage = message\<lparr>pb_Signature := [], pb_Key := None\<rparr>
         in case pb_Marshal ps copyMessage of
              Inl err \<Rightarrow> Some err
            | Inr buff \<Rightarrow>
                sv_Verify (ds_signer ds) (withSignPrefix ps buff) (pb_From message) (pb_Signature message)))"

definition processReceivedDirectMessage ::
  "pubsub_ops \<Rightarrow> 'k timecache_ops \<Rightarrow> int \<Rightarrow> pb_Message option \<Rightarrow> peerid \<Rightarrow> ('k, 'c, 'h) directSender \<Rightarrow> 'h
   \<Rightarrow> p2p_error option \<times> ('k, 'c, 'h) directSender \<times> 'h" where
  "processReceivedDirectMessage ps tc now message fromConnectedPeer ds h =
     (case ds_messageHandler ds of
        None \<Rightarrow> (Some ErrNilDirectSendMessageHandler, ds, h)
      | Some messageHandler \<Rightarrow>
     (case message of
        None \<Rightarrow> (Some ErrNilMessage, ds, h)
      | Some message \<Rightarrow>
          (if pb_Topic message = None then (Some ErrNilTopic, ds, h)
           else if pb_From message \<noteq> fromConnectedPeer then (Some ErrInvalidValue, ds, h)
           else if pb_Key message \<noteq> None then (Some ErrInvalidValue, ds, h)
           else if length (pb_Seqno message) > sequenceNumberSize then (Some ErrInvalidValue, ds, h)
           else
             (let (seen, ds) = checkAndSetSeenMessage tc now message ds
              in if seen then (Some ErrAlreadySeenMessage, ds, h)
                 else
                   (case checkSig ps ds message of
                      Some err \<Rightarrow> (Some err, ds, h)
                    | None \<Rightarrow>
                   (case NewMessage ps (Some (ds_marshaller ds)) (Some message) Direct of
                      Inl err \<Rightarrow> (Some err, ds, h)
                    | Inr msg \<Rightarrow>
                        (let (err, h) = messageHandler msg fromConnectedPeer h in (err, ds, h))))))))"

text \<open>
  The reader of an incoming stream. What arrives are the frames that the writer of the other side put there, then the end
  or a failure of the stream. \<open>reader\<close> is \<^verbatim>\<open>ReadMsg\<close> of the delimited reader that \<^verbatim>\<open>ggio.NewDelimitedReader\<close> gives for a
  largest size. The loop processes the messages until the first error, and then closes the stream at its end and resets it
  otherwise; each arrival has its time.
\<close>

datatype stream_input = Frame bytes | EndOfStream | BrokenStream
datatype read_result = ReadMsg pb_Message | ReadEOF | ReadError
datatype stream_end = StreamClosed | StreamReset

fun directStreamHandler ::
  "pubsub_ops \<Rightarrow> 'k timecache_ops \<Rightarrow> (nat \<Rightarrow> stream_input \<Rightarrow> read_result) \<Rightarrow> peerid \<Rightarrow> (int \<times> stream_input) list
   \<Rightarrow> ('k, 'c, 'h) directSender \<Rightarrow> 'h
   \<Rightarrow> stream_end option \<times> p2p_error option list \<times> ('k, 'c, 'h) directSender \<times> 'h" where
  "directStreamHandler ps tc reader remotePeer [] ds h = (None, [], ds, h)"
| "directStreamHandler ps tc reader remotePeer ((now, inp) # rest) ds h =
     (case reader maxSendBuffSize inp of
        ReadEOF \<Rightarrow> (Some StreamClosed, [], ds, h)
      | ReadError \<Rightarrow> (Some StreamReset, [], ds, h)
      | ReadMsg msg \<Rightarrow>
          (let (err, ds, h) = processReceivedDirectMessage ps tc now (Some msg) remotePeer ds h;
               (e, errs, ds, h) = directStreamHandler ps tc reader remotePeer rest ds h
           in (e, err # errs, ds, h)))"

section \<open>Sending\<close>

text \<open>\<^verbatim>\<open>binary.BigEndian.PutUint64\<close>\<close>

definition PutUint64 :: "uint64 \<Rightarrow> bytes" where
  "PutUint64 v = map (\<lambda>i. ucast (drop_bit (8 * (7 - i)) v)) [0..<8]"

definition NextSequenceNumber :: "('k, 'c, 'h) directSender \<Rightarrow> bytes \<times> ('k, 'c, 'h) directSender" where
  "NextSequenceNumber ds =
     (let newVal = ds_counter ds + 1 in (PutUint64 newVal, ds\<lparr>ds_counter := newVal\<rparr>))"

definition getConnection :: "host_ops \<Rightarrow> peerid \<Rightarrow> conn res" where
  "getConnection host p =
     (let conns = ConnsToPeer host p
      in case conns of
           [] \<Rightarrow> Inl ErrPeerNotDirectlyConnected
         | c0 # _ \<Rightarrow>
             Inr (snd (foldl (\<lambda>(lStreams, conn) c.
               (let len = length (GetStreams c) in if len \<ge> lStreams then (len, c) else (lStreams, conn))) (0, c0) conns)))"

definition getOrCreateStream :: "host_ops \<Rightarrow> conn \<Rightarrow> stream res" where
  "getOrCreateStream host conn =
     (case find (\<lambda>s. st_Protocol s = DirectSendID \<and> st_DirOutbound s) (GetStreams conn) of
        Some foundStream \<Rightarrow> Inr foundStream
      | None \<Rightarrow> NewStream host (RemotePeer conn) DirectSendID)"

definition createMessage ::
  "pubsub_ops \<Rightarrow> string \<Rightarrow> bytes \<Rightarrow> conn \<Rightarrow> ('k, 'c, 'h) directSender \<Rightarrow> pb_Message res \<times> ('k, 'c, 'h) directSender" where
  "createMessage ps topic buff conn ds =
     (let (seqno, ds) = NextSequenceNumber ds;
          mes = \<lparr>pb_From = LocalPeer conn, pb_Data = buff, pb_Seqno = seqno, pb_Topic = Some topic, pb_Signature = [],
                 pb_Key = None\<rparr>
      in (andThen (pb_Marshal ps mes) (\<lambda>buff.
          andThen (sv_Sign (ds_signer ds) (withSignPrefix ps buff)) (\<lambda>sig. Inr (mes\<lparr>pb_Signature := sig\<rparr>))), ds))"

text \<open>The result has the message that was flushed to a stream, or what was done to a failing stream.\<close>

datatype sent = Flushed stream pb_Message | ResetAndClosed stream | NothingSent

definition Send :: "pubsub_ops \<Rightarrow> host_ops \<Rightarrow> ('c, cached_value) cacher_ops \<Rightarrow> string \<Rightarrow> bytes \<Rightarrow> peerid
  \<Rightarrow> ('k, 'c, 'h) directSender \<Rightarrow> p2p_error option \<times> sent \<times> ('k, 'c, 'h) directSender" where
  "Send ps host cache topic buff peer ds =
     (if length buff \<ge> maxSendBuffSize then (Some ErrMessageTooLarge, NothingSent, ds)
      else
        (let (mut, mh) = getMutex cache peer (ds_mutexForPeer ds);
             ds = ds\<lparr>ds_mutexForPeer := mh\<rparr>
         in case getConnection host peer of
              Inl err \<Rightarrow> (Some err, NothingSent, ds)
            | Inr conn \<Rightarrow>
           (case getOrCreateStream host conn of
              Inl err \<Rightarrow> (Some err, NothingSent, ds)
            | Inr stream \<Rightarrow>
                (let (r, ds) = createMessage ps topic buff conn ds
                 in case r of
                      Inl err \<Rightarrow> (Some err, NothingSent, ds)
                    | Inr msg \<Rightarrow>
                   (case WriteMsg host stream msg of
                      Some err \<Rightarrow> (Some err, ResetAndClosed stream, ds)
                    | None \<Rightarrow>
                   (case Flush host stream of
                      Some err \<Rightarrow> (Some err, ResetAndClosed stream, ds)
                    | None \<Rightarrow> (None, Flushed stream msg, ds)))))))"

section \<open>Sequence numbers\<close>

lemma length_PutUint64 [simp]: "length (PutUint64 v) = 8"
  by (simp add: PutUint64_def)

lemma PutUint64_inj: "PutUint64 v = PutUint64 w \<Longrightarrow> v = w"
proof (rule bit_word_eqI)
  fix n
  assume eq: "PutUint64 v = PutUint64 w" and "n < LENGTH(64)"
  then have n: "n < 64" by simp
  let ?i = "7 - n div 8"
  have i: "?i < 8" "7 - ?i = n div 8" using n by auto
  from eq have "PutUint64 v ! ?i = PutUint64 w ! ?i" by simp
  with i have "(ucast (drop_bit (8 * (n div 8)) v) :: byte) = ucast (drop_bit (8 * (n div 8)) w)"
    by (simp add: PutUint64_def)
  then have "bit (ucast (drop_bit (8 * (n div 8)) v) :: byte) (n mod 8) = bit (ucast (drop_bit (8 * (n div 8)) w) :: byte) (n mod 8)"
    by simp
  then show "bit v n = bit w n"
    by (simp add: bit_ucast_iff bit_drop_bit_eq)
qed

text \<open>The state after a number of calls of \<^verbatim>\<open>NextSequenceNumber\<close>.\<close>

primrec after_calls :: "nat \<Rightarrow> ('k, 'c, 'h) directSender \<Rightarrow> ('k, 'c, 'h) directSender" where
  "after_calls 0 ds = ds"
| "after_calls (Suc n) ds = snd (NextSequenceNumber (after_calls n ds))"

lemma after_calls_counter: "ds_counter (after_calls n ds) = ds_counter ds + word_of_nat n"
  by (induction n) (simp_all add: NextSequenceNumber_def Let_def)

section \<open>The choice of a connection\<close>

lemma most_streams_foldl:
  fixes conns :: "conn list"
  assumes "foldl (\<lambda>(l, conn) c. (let len = length (GetStreams c) in if len \<ge> l then (len, c) else (l, conn))) (l0, c0) conns = (l, c)"
  shows "l0 \<le> l \<and> (\<forall>x \<in> set conns. length (GetStreams x) \<le> l) \<and>
         (c \<in> set conns \<and> length (GetStreams c) = l \<or> l = l0 \<and> c = c0 \<and> (\<forall>x \<in> set conns. length (GetStreams x) < l0))"
  using assms
proof (induction conns arbitrary: l0 c0)
  case (Cons x conns)
  then show ?case
    by (cases "l0 \<le> length (GetStreams x)") (fastforce simp: Let_def)+
qed simp

lemma getConnection_cases:
  shows "getConnection host p = Inl ErrPeerNotDirectlyConnected \<and> ConnsToPeer host p = [] \<or>
    (\<exists>c. getConnection host p = Inr c \<and> c \<in> set (ConnsToPeer host p) \<and>
       (\<forall>x \<in> set (ConnsToPeer host p). length (GetStreams x) \<le> length (GetStreams c)))"
proof (cases "ConnsToPeer host p")
  case (Cons c0 cs)
  obtain l c where f: "foldl (\<lambda>(l, conn) c. (let len = length (GetStreams c) in if len \<ge> l then (len, c) else (l, conn)))
      (0, c0) (ConnsToPeer host p) = (l, c)"
    by fastforce
  with Cons most_streams_foldl [OF f] show ?thesis by (auto simp: getConnection_def)
qed (simp add: getConnection_def)

section \<open>Messages handed to the handler\<close>

text \<open>
  What \<^verbatim>\<open>timecache\<close> promises: a cache made for a span of time has an entry from its addition on until the span has passed.
  Nothing is said of an entry that is older. \<open>view\<close> tells when an entry was added, \<open>span\<close> the span of a cache.
\<close>

definition remembers :: "(int \<Rightarrow> 'k) \<Rightarrow> 'k timecache_ops \<Rightarrow> ('k \<Rightarrow> bytes \<rightharpoonup> int) \<Rightarrow> ('k \<Rightarrow> int) \<Rightarrow> bool" where
  "remembers newTimeCache tc view span \<longleftrightarrow>
     (\<forall>d. span (newTimeCache d) = d) \<and>
     (\<forall>now k c. span (tc_Add tc now k c) = span c \<and> view (tc_Add tc now k c) k = Some now) \<and>
     (\<forall>now k k' c t. k' \<noteq> k \<and> view c k' = Some t \<and> now - t < span c \<longrightarrow> view (tc_Add tc now k c) k' = Some t) \<and>
     (\<forall>now k c t. view c k = Some t \<and> now - t < span c \<longrightarrow> tc_Has tc now k c)"

text \<open>A handler that answers by \<open>f\<close> and records the messages it is called with, and when: its state has the time of the call.\<close>

type_synonym timed_log = "(int \<times> Message \<times> peerid) list"

definition recording :: "(Message \<Rightarrow> peerid \<Rightarrow> p2p_error option) \<Rightarrow> (int \<times> timed_log) MessageHandler" where
  "recording f m from s = (f m from, (fst s, snd s @ [(fst s, m, from)]))"

definition msg_id :: "Message \<Rightarrow> bytes" where
  "msg_id m = FromField m @ SeqNoField m"

text \<open>The messages, from any connected peers, one after the other, each at its time.\<close>

fun deliver_all :: "pubsub_ops \<Rightarrow> 'k timecache_ops \<Rightarrow> (int \<times> pb_Message option \<times> peerid) list
  \<Rightarrow> ('k, 'c, int \<times> timed_log) directSender \<times> timed_log \<Rightarrow> ('k, 'c, int \<times> timed_log) directSender \<times> timed_log" where
  "deliver_all ps tc [] s = s"
| "deliver_all ps tc ((now, msg, from) # ms) (ds, log) =
     (case processReceivedDirectMessage ps tc now msg from ds (now, log) of
        (err, ds, h) \<Rightarrow> deliver_all ps tc ms (ds, snd h))"

text \<open>
  What holds of a message that reached the handler: it was sent by the connected peer itself, and
  if it carries a signature, the signature is that of the peer.
\<close>

definition authentic :: "pubsub_ops \<Rightarrow> SignerVerifier \<Rightarrow> Message \<times> peerid \<Rightarrow> bool" where
  "authentic ps signer = (\<lambda>(m, from). FromField m = from \<and> KeyField m = None \<and> BroadcastMethodField m = Direct \<and>
     (SignatureField m = [] \<or>
      (\<exists>b. preparePubSubMessagePayload ps (Some m) = Inr b \<and> sv_Verify signer b from (SignatureField m) = None)))"

lemma checkSig_payload:
  assumes "checkSig ps ds pm = None" and "NewMessage ps mars (Some pm) bm = Inr m" and "pb_Signature pm \<noteq> []"
  shows "\<exists>b. preparePubSubMessagePayload ps (Some m) = Inr b \<and> sv_Verify (ds_signer ds) b (pb_From pm) (pb_Signature pm) = None"
  using assms(1,3) convert_NewMessage [OF assms(2)]
  by (auto simp: checkSig_def preparePubSubMessagePayload_def split: sum.splits)

lemma checkSig_seen: "checkSig ps (ds\<lparr>ds_seenMessages := k\<rparr>) pm = checkSig ps ds pm"
  by (simp add: checkSig_def Let_def split: sum.split)

lemma process_cases:
  assumes "processReceivedDirectMessage ps tc now msg from ds h = (r, ds', h')"
  obtains (unseen) "h' = h" "ds' = ds"
  | (late) pm where "h' = h" "msg = Some pm" "\<not> tc_Has tc now (pb_From pm @ pb_Seqno pm) (ds_seenMessages ds)"
      "ds' = ds\<lparr>ds_seenMessages := tc_Add tc now (pb_From pm @ pb_Seqno pm) (ds_seenMessages ds)\<rparr>"
  | (handled) pm m handler where "msg = Some pm" "ds_messageHandler ds = Some handler" "pb_From pm = from" "pb_Key pm = None"
      "NewMessage ps (Some (ds_marshaller ds)) (Some pm) Direct = Inr m" "checkSig ps ds pm = None"
      "\<not> tc_Has tc now (pb_From pm @ pb_Seqno pm) (ds_seenMessages ds)"
      "ds' = ds\<lparr>ds_seenMessages := tc_Add tc now (pb_From pm @ pb_Seqno pm) (ds_seenMessages ds)\<rparr>"
      "handler m from h = (r, h')"
proof -
  show ?thesis
  proof (cases "ds_messageHandler ds = None \<or> msg = None")
    case True
    with assms have "h' = h" "ds' = ds" by (auto simp: processReceivedDirectMessage_def split: option.splits)
    then show ?thesis by (rule unseen)
  next
    case False
    then obtain handler pm where hp: "ds_messageHandler ds = Some handler" "msg = Some pm" by auto
    let ?bad = "pb_Topic pm = None \<or> pb_From pm \<noteq> from \<or> pb_Key pm \<noteq> None \<or> length (pb_Seqno pm) > sequenceNumberSize \<or>
      tc_Has tc now (pb_From pm @ pb_Seqno pm) (ds_seenMessages ds)"
    let ?ds = "ds\<lparr>ds_seenMessages := tc_Add tc now (pb_From pm @ pb_Seqno pm) (ds_seenMessages ds)\<rparr>"
    show ?thesis
    proof (cases ?bad)
      case True
      with assms hp have "h' = h" "ds' = ds"
        by (auto simp: processReceivedDirectMessage_def checkAndSetSeenMessage_def split: if_splits)
      then show ?thesis by (rule unseen)
    next
      case good: False
      then have p: "processReceivedDirectMessage ps tc now msg from ds h =
        (case checkSig ps ds pm of
           Some err \<Rightarrow> (Some err, ?ds, h)
         | None \<Rightarrow> (case NewMessage ps (Some (ds_marshaller ds)) (Some pm) Direct of
             Inl err \<Rightarrow> (Some err, ?ds, h)
           | Inr m \<Rightarrow> (let (err, h) = handler m from h in (err, ?ds, h))))"
        by (cases "checkSig ps ds pm"; cases "NewMessage ps (Some (ds_marshaller ds)) (Some pm) Direct")
          (auto simp: processReceivedDirectMessage_def checkAndSetSeenMessage_def hp checkSig_seen)
      show ?thesis
      proof (cases "\<exists>m. checkSig ps ds pm = None \<and> NewMessage ps (Some (ds_marshaller ds)) (Some pm) Direct = Inr m")
        case True
        then obtain m where m: "checkSig ps ds pm = None" "NewMessage ps (Some (ds_marshaller ds)) (Some pm) Direct = Inr m"
          by blast
        with assms p have "handler m from h = (r, h')" "ds' = ?ds" by (auto split: prod.splits)
        with hp good m show ?thesis by (intro handled [of pm handler m]) auto
      next
        case False
        with assms p have "h' = h" "ds' = ?ds" by (auto split: option.splits sum.splits)
        with hp good show ?thesis by (intro late) auto
      qed
    qed
  qed
qed

text \<open>
  The log at the time \<open>now\<close>: entries with the same identifier are at least the span apart, and the cache has every entry that is
  younger than the span.
\<close>

definition apart :: "int \<Rightarrow> timed_log \<Rightarrow> bool" where
  "apart d log \<longleftrightarrow> sorted_wrt (\<lambda>(t, m, p) (t', m', p'). msg_id m = msg_id m' \<longrightarrow> d \<le> t' - t) log"

definition log_ok :: "pubsub_ops \<Rightarrow> ('k \<Rightarrow> bytes \<rightharpoonup> int) \<Rightarrow> ('k \<Rightarrow> int) \<Rightarrow> int \<Rightarrow> ('k, 'c, int \<times> timed_log) directSender \<times> timed_log \<Rightarrow> bool" where
  "log_ok ps view span now = (\<lambda>(ds, log). apart (span (ds_seenMessages ds)) log \<and>
     (\<forall>(t, m, p) \<in> set log. now - t < span (ds_seenMessages ds) \<longrightarrow> view (ds_seenMessages ds) (msg_id m) = Some t) \<and>
     (\<forall>(t, x) \<in> set log. authentic ps (ds_signer ds) x))"

lemma log_ok_later: "log_ok ps view span now (ds, log) \<Longrightarrow> now \<le> now' \<Longrightarrow> log_ok ps view span now' (ds, log)"
  by (fastforce simp: log_ok_def)

text \<open>Adding an identifier that the cache does not have keeps the log, and no young entry of the log has this identifier.\<close>

lemma log_ok_add:
  assumes "remembers newTimeCache tc view span" and "log_ok ps view span now (ds, log)" and "\<not> tc_Has tc now k (ds_seenMessages ds)"
  shows "log_ok ps view span now (ds\<lparr>ds_seenMessages := tc_Add tc now k (ds_seenMessages ds)\<rparr>, log)"
    and "(t, m, p) \<in> set log \<Longrightarrow> msg_id m = k \<Longrightarrow> span (ds_seenMessages ds) \<le> now - t"
proof -
  show old: "span (ds_seenMessages ds) \<le> now - t" if "(t, m, p) \<in> set log" "msg_id m = k" for t m p
  proof (rule ccontr)
    assume "\<not> span (ds_seenMessages ds) \<le> now - t"
    with that assms(2) have "view (ds_seenMessages ds) k = Some t" "now - t < span (ds_seenMessages ds)" by (fastforce simp: log_ok_def)+
    with assms(1,3) show False unfolding remembers_def by blast
  qed
  have "view (tc_Add tc now k (ds_seenMessages ds)) (msg_id m) = Some t"
    if "(t, m, p) \<in> set log" "now - t < span (ds_seenMessages ds)" for t m p
  proof -
    have "msg_id m \<noteq> k" using old [OF that(1)] that(2) by force
    moreover have "view (ds_seenMessages ds) (msg_id m) = Some t" using assms(2) that by (fastforce simp: log_ok_def)
    ultimately show ?thesis using assms(1) that(2) unfolding remembers_def by blast
  qed
  moreover have "span (tc_Add tc now k (ds_seenMessages ds)) = span (ds_seenMessages ds)"
    using assms(1) unfolding remembers_def by blast
  ultimately show "log_ok ps view span now (ds\<lparr>ds_seenMessages := tc_Add tc now k (ds_seenMessages ds)\<rparr>, log)"
    using assms(2) by (fastforce simp: log_ok_def)
qed

lemma log_ok_handled:
  assumes "remembers newTimeCache tc view span" and "log_ok ps view span now (ds, log)"
    and "\<not> tc_Has tc now (msg_id m) (ds_seenMessages ds)" and "authentic ps (ds_signer ds) (m, p)"
  shows "log_ok ps view span now (ds\<lparr>ds_seenMessages := tc_Add tc now (msg_id m) (ds_seenMessages ds)\<rparr>, log @ [(now, m, p)])"
proof -
  note add = log_ok_add [OF assms(1-3)]
  have laws: "span (tc_Add tc now (msg_id m) (ds_seenMessages ds)) = span (ds_seenMessages ds)"
    "view (tc_Add tc now (msg_id m) (ds_seenMessages ds)) (msg_id m) = Some now"
    using assms(1) unfolding remembers_def by blast+
  have "apart (span (ds_seenMessages ds)) (log @ [(now, m, p)])"
    using assms(2) add(2) by (fastforce simp: log_ok_def apart_def sorted_wrt_append)
  with add(1) assms(4) laws show ?thesis by (auto simp: log_ok_def)
qed

lemma log_ok_step:
  assumes "remembers newTimeCache tc view span" and "ds_messageHandler ds = Some (recording f)" and "log_ok ps view span now (ds, log)"
    and "processReceivedDirectMessage ps tc now msg from ds (now, log) = (r, ds', h')"
  shows "log_ok ps view span now (ds', snd h') \<and> ds_messageHandler ds' = Some (recording f) \<and>
    span (ds_seenMessages ds') = span (ds_seenMessages ds)"
  using assms(4)
proof (cases rule: process_cases)
  case unseen
  with assms show ?thesis by simp
next
  case (late pm)
  have "span (ds_seenMessages ds') = span (ds_seenMessages ds)" using assms(1) late(4) by (simp add: remembers_def)
  with late assms(2) log_ok_add(1) [OF assms(1,3) late(3)] show ?thesis by simp
next
  case (handled pm m handler)
  have log': "snd h' = log @ [(now, m, from)]" using handled assms(2) by (auto simp: recording_def)
  have m: "FromField m = pb_From pm" "SeqNoField m = pb_Seqno pm" "SignatureField m = pb_Signature pm" "KeyField m = pb_Key pm"
    "BroadcastMethodField m = Direct"
    using handled(5) by (auto elim: NewMessage_cases)
  have "authentic ps (ds_signer ds) (m, from)"
    using checkSig_payload [OF handled(6,5)] m handled(3,4) by (auto simp: authentic_def)
  moreover have mid: "pb_From pm @ pb_Seqno pm = msg_id m" by (simp add: msg_id_def m)
  ultimately have "log_ok ps view span now (ds', snd h')"
    using log_ok_handled [OF assms(1,3)] handled(7,8) log' by simp
  moreover have "span (ds_seenMessages ds') = span (ds_seenMessages ds)" using assms(1) handled(8) by (simp add: remembers_def)
  ultimately show ?thesis using handled(8) assms(2) by simp
qed

lemma log_ok_run:
  assumes "remembers newTimeCache tc view span"
  shows "log_ok ps view span now (ds, log) \<Longrightarrow> ds_messageHandler ds = Some (recording f) \<Longrightarrow> sorted (now # map fst ms) \<Longrightarrow>
    deliver_all ps tc ms (ds, log) = (ds', log') \<Longrightarrow>
    (\<exists>now'. log_ok ps view span now' (ds', log')) \<and> span (ds_seenMessages ds') = span (ds_seenMessages ds)"
proof (induction ms arbitrary: now ds log)
  case (Cons x ms)
  obtain t msg p where x: "x = (t, msg, p)" by (metis prod_cases3)
  obtain r ds1 h1 where step: "processReceivedDirectMessage ps tc t msg p ds (t, log) = (r, ds1, h1)" by (metis prod_cases3)
  have "log_ok ps view span t (ds, log)" by (rule log_ok_later [OF Cons.prems(1)]) (use Cons.prems(3) x in simp)
  note s = log_ok_step [OF assms Cons.prems(2) this step]
  have "deliver_all ps tc ms (ds1, snd h1) = (ds', log')" using Cons.prems(4) by (simp add: x step)
  moreover have "sorted (t # map fst ms)" using Cons.prems(3) by (simp add: x)
  ultimately show ?case using Cons.IH [of t ds1 "snd h1"] s by metis
qed auto

section \<open>What a send puts on the stream\<close>

lemma Send_flushed:
  assumes "Send ps host cache topic buff peer ds = (r, Flushed st msg, ds')"
  obtains c sig b where "r = None" "getConnection host peer = Inr c" "getOrCreateStream host c = Inr st"
    "length buff < maxSendBuffSize" "ds_counter ds' = ds_counter ds + 1"
    "msg = \<lparr>pb_From = LocalPeer c, pb_Data = buff, pb_Seqno = PutUint64 (ds_counter ds + 1), pb_Topic = Some topic,
            pb_Signature = sig, pb_Key = None\<rparr>"
    "pb_Marshal ps (msg\<lparr>pb_Signature := []\<rparr>) = Inr b" "sv_Sign (ds_signer ds) (withSignPrefix ps b) = Inr sig"
  using assms
  by (auto simp: Send_def createMessage_def NextSequenceNumber_def Let_def andThen_Inr_iff
      split: if_splits prod.splits sum.splits option.splits)

lemma sent_message_processed:
  assumes "codec_laws ps (ds_marshaller dsB)"
    and "\<And>b sig. sv_Sign (ds_signer dsA) b = Inr sig \<Longrightarrow> sv_Verify (ds_signer dsB) b pidA sig = None"
    and "\<And>c. c \<in> set (ConnsToPeer host pidB) \<Longrightarrow> LocalPeer c = pidA" and "peer_IDFromBytes ps pidA = Inr pidA"
    and "tm_Marshal (ds_marshaller dsB) tm = Inr buff" and "tm_Version tm = currentTopicMessageVersion" "tm_Pk tm = []"
      "tm_SignatureOnPid tm = []"
    and "Send ps host cache topic buff pidB dsA = (None, Flushed st msg, dsA')"
    and "ds_messageHandler dsB = Some handler"
    and "\<not> tc_Has tc now (pidA @ PutUint64 (ds_counter dsA + 1)) (ds_seenMessages dsB)"
  shows "\<exists>m. DataField m = tm_Payload tm \<and> TopicField m = topic \<and> PeerField m = pidA \<and> TimestampField m = tm_Timestamp tm \<and>
           BroadcastMethodField m = Direct \<and>
           processReceivedDirectMessage ps tc now (Some msg) pidA dsB h =
             (fst (handler m pidA h),
              dsB\<lparr>ds_seenMessages := tc_Add tc now (pidA @ PutUint64 (ds_counter dsA + 1)) (ds_seenMessages dsB)\<rparr>, snd (handler m pidA h)) \<and>
           VerifyMessage ps \<lparr>mv_marshaller = ds_marshaller dsB, mv_p2pSigner = sv_Verify (ds_signer dsB)\<rparr> (Some m) = None"
proof -
  obtain c sig b where c: "getConnection host pidB = Inr c"
    and msg: "msg = \<lparr>pb_From = LocalPeer c, pb_Data = buff, pb_Seqno = PutUint64 (ds_counter dsA + 1), pb_Topic = Some topic,
            pb_Signature = sig, pb_Key = None\<rparr>"
    and b: "pb_Marshal ps (msg\<lparr>pb_Signature := []\<rparr>) = Inr b" "sv_Sign (ds_signer dsA) (withSignPrefix ps b) = Inr sig"
    by (rule Send_flushed [OF assms(9)])
  have local: "LocalPeer c = pidA" using getConnection_cases [of host pidB] c assms(3) by auto
  have ver: "sv_Verify (ds_signer dsB) (withSignPrefix ps b) pidA sig = None" using assms(2) b(2) by blast
  have "tm_Unmarshal (ds_marshaller dsB) buff = Inr tm" using assms(1,5) by (simp add: codec_laws_def)
  then obtain m where m: "NewMessage ps (Some (ds_marshaller dsB)) (Some msg) Direct = Inr m"
    "DataField m = tm_Payload tm" "TopicField m = topic" "PeerField m = pidA" "TimestampField m = tm_Timestamp tm"
    "BroadcastMethodField m = Direct" "SignatureField m = sig"
    using assms(4,6-8) local by (auto simp: NewMessage_def msg)
  have "preparePubSubMessagePayload ps (Some m) = Inr (withSignPrefix ps b)"
    using convert_NewMessage [OF m(1)] b(1) by (simp add: preparePubSubMessagePayload_def msg)
  then have v: "VerifyMessage ps \<lparr>mv_marshaller = ds_marshaller dsB, mv_p2pSigner = sv_Verify (ds_signer dsB)\<rparr> (Some m) = None"
    using m(4,7) ver by (simp add: VerifyMessage_def)
  have "checkSig ps dsB msg = None"
    using b(1) ver by (simp add: checkSig_def msg local)
  then have "processReceivedDirectMessage ps tc now (Some msg) pidA dsB h =
      (fst (handler m pidA h),
       dsB\<lparr>ds_seenMessages := tc_Add tc now (pidA @ PutUint64 (ds_counter dsA + 1)) (ds_seenMessages dsB)\<rparr>, snd (handler m pidA h))"
    using assms(10,11) m(1) local
    by (simp add: processReceivedDirectMessage_def checkAndSetSeenMessage_def sequenceNumberSize_def checkSig_seen msg split: prod.split)
  with m v show ?thesis by blast
qed

text \<open>
  What the code relies on of the delimited writer and reader: a message that is written is marshalled into one frame, the
  reader gives the message of a frame that is within its largest size, and fails for a longer one.
\<close>

definition delimited_laws :: "pubsub_ops \<Rightarrow> host_ops \<Rightarrow> (nat \<Rightarrow> stream_input \<Rightarrow> read_result) \<Rightarrow> bool" where
  "delimited_laws ps host reader \<longleftrightarrow>
     (\<forall>st m. WriteMsg host st m = None \<longrightarrow> (\<exists>b. pb_Marshal ps m = Inr b)) \<and>
     (\<forall>maxSize m b. pb_Marshal ps m = Inr b \<and> length b \<le> maxSize \<longrightarrow> reader maxSize (Frame b) = ReadMsg m) \<and>
     (\<forall>maxSize b. maxSize < length b \<longrightarrow> reader maxSize (Frame b) = ReadError)"

lemma Send_written: "Send ps host cache topic buff peer ds = (r, Flushed st msg, ds') \<Longrightarrow> WriteMsg host st msg = None"
  by (auto simp: Send_def Let_def split: if_splits prod.splits sum.splits option.splits)

lemma sent_frame_received:
  assumes "codec_laws ps (ds_marshaller dsB)"
    and "\<And>b sig. sv_Sign (ds_signer dsA) b = Inr sig \<Longrightarrow> sv_Verify (ds_signer dsB) b pidA sig = None"
    and "\<And>c. c \<in> set (ConnsToPeer host pidB) \<Longrightarrow> LocalPeer c = pidA" and "peer_IDFromBytes ps pidA = Inr pidA"
    and "tm_Marshal (ds_marshaller dsB) tm = Inr buff" and "tm_Version tm = currentTopicMessageVersion" "tm_Pk tm = []"
      "tm_SignatureOnPid tm = []"
    and "Send ps host cache topic buff pidB dsA = (None, Flushed st msg, dsA')"
    and "ds_messageHandler dsB = Some handler"
    and "\<not> tc_Has tc now (pidA @ PutUint64 (ds_counter dsA + 1)) (ds_seenMessages dsB)"
    and "delimited_laws ps host reader"
  shows "\<exists>frame. pb_Marshal ps msg = Inr frame \<and>
     (if length frame \<le> maxSendBuffSize
      then \<exists>m. DataField m = tm_Payload tm \<and> TopicField m = topic \<and> PeerField m = pidA \<and> TimestampField m = tm_Timestamp tm \<and>
             BroadcastMethodField m = Direct \<and>
             directStreamHandler ps tc reader pidA [(now, Frame frame)] dsB h =
               (None, [fst (handler m pidA h)],
                dsB\<lparr>ds_seenMessages := tc_Add tc now (pidA @ PutUint64 (ds_counter dsA + 1)) (ds_seenMessages dsB)\<rparr>,
                snd (handler m pidA h)) \<and>
             VerifyMessage ps \<lparr>mv_marshaller = ds_marshaller dsB, mv_p2pSigner = sv_Verify (ds_signer dsB)\<rparr> (Some m) = None
      else directStreamHandler ps tc reader pidA [(now, Frame frame)] dsB h = (Some StreamReset, [], dsB, h))"
proof -
  have "\<exists>frame. pb_Marshal ps msg = Inr frame"
    using assms(12) Send_written [OF assms(9)] unfolding delimited_laws_def by blast
  then obtain frame where frame: "pb_Marshal ps msg = Inr frame" ..
  show ?thesis
  proof (cases "length frame \<le> maxSendBuffSize")
    case True
    then have read: "reader maxSendBuffSize (Frame frame) = ReadMsg msg" using assms(12) frame unfolding delimited_laws_def by blast
    obtain m where m: "DataField m = tm_Payload tm" "TopicField m = topic" "PeerField m = pidA" "TimestampField m = tm_Timestamp tm"
        "BroadcastMethodField m = Direct"
        "VerifyMessage ps \<lparr>mv_marshaller = ds_marshaller dsB, mv_p2pSigner = sv_Verify (ds_signer dsB)\<rparr> (Some m) = None"
      and p: "processReceivedDirectMessage ps tc now (Some msg) pidA dsB h = (fst (handler m pidA h),
        dsB\<lparr>ds_seenMessages := tc_Add tc now (pidA @ PutUint64 (ds_counter dsA + 1)) (ds_seenMessages dsB)\<rparr>, snd (handler m pidA h))"
      using sent_message_processed [OF assms(1-11), of h] by blast
    have "directStreamHandler ps tc reader pidA [(now, Frame frame)] dsB h = (None, [fst (handler m pidA h)],
        dsB\<lparr>ds_seenMessages := tc_Add tc now (pidA @ PutUint64 (ds_counter dsA + 1)) (ds_seenMessages dsB)\<rparr>, snd (handler m pidA h))"
      by (simp add: read p)
    with frame True m show ?thesis by auto
  next
    case False
    then have "reader maxSendBuffSize (Frame frame) = ReadError" using assms(12) unfolding delimited_laws_def by simp
    then show ?thesis using frame False by simp
  qed
qed

section \<open>Examples\<close>

text \<open>A cache that has its span and the times of its entries, and a reader of the codec of the examples.\<close>

definition example_newTimeCache :: "int \<Rightarrow> int \<times> (bytes \<times> int) list" where
  "example_newTimeCache d = (d, [])"

definition example_tc :: "(int \<times> (bytes \<times> int) list) timecache_ops" where
  "example_tc = \<lparr>tc_Has = (\<lambda>now k c. case map_of (snd c) k of None \<Rightarrow> False | Some t \<Rightarrow> now - t < fst c),
     tc_Add = (\<lambda>now k c. (fst c, (k, now) # snd c))\<rparr>"

lemma example_tc_simps:
  "tc_Has example_tc now k c = (case map_of (snd c) k of None \<Rightarrow> False | Some t \<Rightarrow> now - t < fst c)"
  "tc_Add example_tc now k c = (fst c, (k, now) # snd c)"
  by (simp_all add: example_tc_def)

lemma example_tc_remembers: "remembers example_newTimeCache example_tc (\<lambda>c. map_of (snd c)) fst"
  by (auto simp: remembers_def example_tc_def example_newTimeCache_def)

definition example_reader :: "nat \<Rightarrow> stream_input \<Rightarrow> read_result" where
  "example_reader maxSize inp =
     (case inp of
        EndOfStream \<Rightarrow> ReadEOF
      | BrokenStream \<Rightarrow> ReadError
      | Frame b \<Rightarrow>
          (if maxSize < length b then ReadError
           else case pb_Unmarshal plain_pubsub b of Inl e \<Rightarrow> ReadError | Inr m \<Rightarrow> ReadMsg m))"

definition example_sv :: SignerVerifier where
  "example_sv = \<lparr>sv_Sign = (\<lambda>b. Inr (9 # b)),
     sv_Verify = (\<lambda>b pid sig. if sig = pid @ b then None else Some (ErrExternal ''signature''))\<rparr>"

definition example_ds :: "'h MessageHandler \<Rightarrow> (int \<times> (bytes \<times> int) list, cached_value CacherMock, 'h) directSender" where
  "example_ds handler = \<lparr>ds_counter = 0, ds_messageHandler = Some handler, ds_seenMessages = example_newTimeCache timeSeenMessages,
     ds_mutexForPeer = \<lparr>mutexes = NewCacherMock, nextMutex = 0\<rparr>, ds_signer = example_sv, ds_marshaller = plain_marshaller\<rparr>"

definition example_host :: host_ops where
  "example_host = \<lparr>ConnsToPeer = (\<lambda>p. [\<lparr>GetStreams = [], LocalPeer = [9], RemotePeer = p\<rparr>]),
     NewStream = (\<lambda>p proto. Inr \<lparr>st_Protocol = proto, st_DirOutbound = True, st_id = 0\<rparr>),
     WriteMsg = (\<lambda>s m. None), Flush = (\<lambda>s. None)\<rparr>"

lemma example_delimited: "delimited_laws plain_pubsub example_host example_reader"
proof -
  have "pb_Unmarshal plain_pubsub b = Inr m" if "pb_Marshal plain_pubsub m = Inr b" for m b
    using plain_codec_laws that unfolding codec_laws_def by blast
  then show ?thesis by (auto simp: delimited_laws_def example_reader_def) (simp add: plain_pubsub_def)
qed

section \<open>Properties\<close>

text \<open>
  C26. The sequence numbers that one direct sender hands out have eight bytes and repeat only after
  2 to the 64 calls, whatever the counter starts with and although it wraps around.
\<close>

theorem sequence_numbers_distinct:
  assumes "i < j" and "j < i + 2 ^ 64"
  shows "fst (NextSequenceNumber (after_calls i ds)) \<noteq> fst (NextSequenceNumber (after_calls j ds)) \<and>
         length (fst (NextSequenceNumber (after_calls i ds))) = sequenceNumberSize"
proof -
  have "(word_of_nat i :: uint64) \<noteq> word_of_nat j"
  proof
    assume "(word_of_nat i :: uint64) = word_of_nat j"
    then have "i mod 2 ^ 64 = j mod 2 ^ 64" by (simp add: word_of_nat_eq_iff take_bit_eq_mod)
    then have "2 ^ 64 dvd j - i" using assms(1) by (metis less_imp_le mod_eq_dvd_iff_nat)
    with assms show False by (auto dest: dvd_imp_le)
  qed
  then have "ds_counter (after_calls i ds) + 1 \<noteq> ds_counter (after_calls j ds) + 1"
    by (simp add: after_calls_counter)
  then show ?thesis
    by (auto simp: NextSequenceNumber_def Let_def sequenceNumberSize_def dest: PutUint64_inj)
qed

theorem sequence_numbers_distinct_witness:
  "fst (NextSequenceNumber (after_calls 3 (example_ds (recording (\<lambda>m p. None))\<lparr>ds_counter := - 2\<rparr>))) \<noteq>
   fst (NextSequenceNumber (after_calls 7 (example_ds (recording (\<lambda>m p. None))\<lparr>ds_counter := - 2\<rparr>)))"
  by (rule sequence_numbers_distinct [THEN conjunct1]) simp_all

text \<open>
  C27. A direct sender as it is built, with a handler registered, and whatever messages arrive, from whatever connected
  peers, in whatever order and at whatever times: the handler is called for the same sender and sequence number a second
  time only when at least the 120 seconds have passed for which the cache of seen messages remembers, and only with
  messages that were sent by the connected peer itself, without a key, and whose signature, if there is one, is verified
  over the message the handler gets.
\<close>

theorem direct_messages_once_and_authentic:
  assumes "remembers newTimeCache tc view span"
    and "NewDirectSender now0 newTimeCache newCache nilHost nilCtx signer marshaller log = Inr ds0"
    and "RegisterDirectMessageProcessor (Some (recording f)) ds0 = (e, ds)"
    and "sorted (map fst ms)" and "deliver_all ps tc ms (ds, []) = (ds', calls)"
  shows "(\<forall>i j. i < j \<and> j < length calls \<longrightarrow> (case calls ! i of (t, m, p) \<Rightarrow> case calls ! j of (t', m', p') \<Rightarrow>
            FromField m' = FromField m \<and> SeqNoField m' = SeqNoField m \<longrightarrow> 120 * 10 ^ 9 \<le> t' - t)) \<and>
         (\<forall>(t, x) \<in> set calls. authentic ps (ds_signer ds') x)"
proof -
  have ds: "ds_messageHandler ds = Some (recording f)" "ds_seenMessages ds = newTimeCache timeSeenMessages"
    using assms(2,3) by (auto simp: NewDirectSender_def RegisterDirectMessageProcessor_def andThen_Inr_iff split: if_splits option.splits)
  have span: "span (ds_seenMessages ds) = timeSeenMessages" using assms(1) by (simp add: ds(2) remembers_def)
  have start: "sorted ((case ms of [] \<Rightarrow> 0 | x # xs \<Rightarrow> fst x) # map fst ms)" using assms(4) by (cases ms) auto
  have "log_ok ps view span now (ds, [])" for now by (simp add: log_ok_def apart_def)
  from log_ok_run [OF assms(1) this ds(1) start assms(5)] obtain now' where "log_ok ps view span now' (ds', calls)"
    and "span (ds_seenMessages ds') = timeSeenMessages" using span by auto
  then have wrt: "apart timeSeenMessages calls" and auth: "\<forall>(t, x) \<in> set calls. authentic ps (ds_signer ds') x"
    by (simp_all add: log_ok_def)
  have "(\<lambda>(t, m, p) (t', m', p'). msg_id m = msg_id m' \<longrightarrow> timeSeenMessages \<le> t' - t) (calls ! i) (calls ! j)"
    if "i < j" "j < length calls" for i j
    using wrt [unfolded apart_def] that by (rule sorted_wrt_nth_less)
  note nth = this
  have gap: "case calls ! i of (t, m, p) \<Rightarrow> case calls ! j of (t', m', p') \<Rightarrow>
      FromField m' = FromField m \<and> SeqNoField m' = SeqNoField m \<longrightarrow> 120 * 10 ^ 9 \<le> t' - t" if "i < j" "j < length calls" for i j
    using nth [OF that] by (cases "calls ! i"; cases "calls ! j") (simp add: msg_id_def timeSeenMessages_def)
  show ?thesis by (rule conjI [OF allI [OF allI [OF impI]] auth], elim conjE, rule gap)
qed

lemma example_NewMessage_direct:
  "NewMessage plain_pubsub (Some plain_marshaller) (Some (example_pb\<lparr>pb_Signature := []\<rparr>)) Direct =
      Inr (example_message\<lparr>SignatureField := [], BroadcastMethodField := Direct\<rparr>)"
  using example_NewMessage
  by (auto simp: NewMessage_def example_pb_def example_message_def split: sum.splits if_splits)

lemma example_process:
  "processReceivedDirectMessage plain_pubsub example_tc now (Some (example_pb\<lparr>pb_Signature := []\<rparr>)) [9]
     ((example_ds (recording f))\<lparr>ds_seenMessages := c\<rparr>) (now, calls) =
     (if tc_Has example_tc now [9, 1] c then (Some ErrAlreadySeenMessage, (example_ds (recording f))\<lparr>ds_seenMessages := c\<rparr>, (now, calls))
      else (f (example_message\<lparr>SignatureField := [], BroadcastMethodField := Direct\<rparr>) [9],
        (example_ds (recording f))\<lparr>ds_seenMessages := tc_Add example_tc now [9, 1] c\<rparr>,
        (now, calls @ [(now, example_message\<lparr>SignatureField := [], BroadcastMethodField := Direct\<rparr>, [9])])))"
  using example_NewMessage_direct
  by (cases "tc_Has example_tc now [9, 1] c")
    (simp_all add: processReceivedDirectMessage_def checkAndSetSeenMessage_def checkSig_def example_ds_def example_pb_def
      recording_def sequenceNumberSize_def)

text \<open>The same message three times: after 60 seconds it is refused, after 200 seconds it is handled again.\<close>

theorem direct_messages_once_and_authentic_witness:
  "\<exists>(ds :: (int \<times> (bytes \<times> int) list, cached_value CacherMock, int \<times> timed_log) directSender) ds' m. NewDirectSender 0 example_newTimeCache (\<lambda>n. Inr NewCacherMock) False False (Some example_sv) (Some plain_marshaller)
       (Some \<lparr>isLevelTrace = False\<rparr>) = Inr ds \<and>
     deliver_all plain_pubsub example_tc (map (\<lambda>t. (t * 10 ^ 9, Some (example_pb\<lparr>pb_Signature := []\<rparr>), [9])) [0, 60, 200])
       (snd (RegisterDirectMessageProcessor (Some (recording (\<lambda>m p. None))) ds), []) = (ds', [(0, m, [9]), (200 * 10 ^ 9, m, [9])]) \<and>
     authentic plain_pubsub (ds_signer ds') (m, [9]) \<and> (120 * 10 ^ 9 :: int) \<le> 200 * 10 ^ 9 - 0"
proof -
  let ?new = "NewDirectSender 0 example_newTimeCache (\<lambda>n. Inr NewCacherMock) False False (Some example_sv) (Some plain_marshaller)
       (Some \<lparr>isLevelTrace = False\<rparr>)"
  let ?ds = "(example_ds (recording (\<lambda>m p. None)))\<lparr>ds_seenMessages := example_newTimeCache timeSeenMessages\<rparr>"
  let ?ms = "map (\<lambda>t. (t * 10 ^ 9, Some (example_pb\<lparr>pb_Signature := []\<rparr>), [9])) [0, 60, 200] :: (int \<times> pb_Message option \<times> peerid) list"
  let ?m = "example_message\<lparr>SignatureField := [], BroadcastMethodField := Direct\<rparr>"
  have new: "?new = Inr (?ds\<lparr>ds_messageHandler := None\<rparr>)"
    by (simp add: NewDirectSender_def NewMutexHolder_def example_ds_def)
  have reg: "RegisterDirectMessageProcessor (Some (recording (\<lambda>m p. None))) (?ds\<lparr>ds_messageHandler := None\<rparr>) = (None, ?ds)"
    by (simp add: RegisterDirectMessageProcessor_def example_ds_def)
  obtain ds' where d: "deliver_all plain_pubsub example_tc ?ms (?ds, []) = (ds', [(0, ?m, [9]), (200 * 10 ^ 9, ?m, [9])])"
    by (simp add: example_process example_tc_simps example_newTimeCache_def timeSeenMessages_def)
  have "sorted (map fst ?ms)" by simp
  note c = direct_messages_once_and_authentic [OF example_tc_remembers new reg this d]
  have "authentic plain_pubsub (ds_signer ds') (?m, [9])" using c by simp
  moreover have "(120 * 10 ^ 9 :: int) \<le> 200 * 10 ^ 9 - 0" using c [THEN conjunct1, rule_format, of 0 1] by simp
  ultimately show ?thesis using new reg d by (intro exI [of _ "?ds\<lparr>ds_messageHandler := None\<rparr>"] exI [of _ ds'] exI [of _ ?m]) simp
qed


definition example_tm :: TopicMessage where
  "example_tm = \<lparr>tm_Version = 1, tm_Payload = [5, 6], tm_Timestamp = 100, tm_Pk = [], tm_SignatureOnPid = []\<rparr>"

lemma example_tm_bytes: "tm_Marshal plain_marshaller example_tm = Inr example_topic_bytes"
proof -
  have "TopicMessage_Size example_tm < 2 ^ 63" using TopicMessage_Size_le [of example_tm] by (simp add: example_tm_def)
  from plain_tm_Unmarshal(1) [OF this] show ?thesis by (simp add: example_tm_def example_topic_bytes_def)
qed

lemma example_topic_bytes_short: "length example_topic_bytes \<le> 100"
  using TopicMessage_Size_le [of example_tm] by (simp add: example_topic_bytes_def example_tm_def TopicMessage_Size_length)

text \<open>The send of the examples, with a frame that is short.\<close>

lemma example_direct_send:
  "\<exists>st msg ds' frame. Send plain_pubsub example_host CacherMock_ops ''t'' example_topic_bytes [8] (example_ds hnd) =
     (None, Flushed st msg, ds') \<and> pb_Marshal plain_pubsub msg = Inr frame \<and> length frame \<le> maxSendBuffSize"
proof -
  have "length example_topic_bytes < maxSendBuffSize"
    using example_topic_bytes_short by (simp add: maxSendBuffSize_def messageHeader_def)
  then show ?thesis
    using example_topic_bytes_short
    by (simp add: Send_def example_host_def getConnection_def getOrCreateStream_def createMessage_def NextSequenceNumber_def
        plain_pubsub_def example_ds_def example_sv_def withSignPrefix_def unary_def bytes_of_string_def maxSendBuffSize_def messageHeader_def
        split: prod.split)
qed


end
