(* ===== verification/LoadBalancer.thy ===== *)
theory LoadBalancer
  imports Prelude
begin

text \<open>
  The outgoing channel load balancer (\<^verbatim>\<open>p2p/libp2p/outgoingChannelLoadBalancer.go\<close>): named channels
  that go routines forward into one main channel. A channel is a number; for each channel that was
  made the state has what its go routine is doing. Indexing out of range, sending on a closed
  channel and closing it twice panic: \<^const>\<open>None\<close>.
\<close>

section \<open>State\<close>

text \<open>
  The loop of the go routine of a channel: it waits for an object or the end of the context, or it
  holds an object and waits until the main channel takes it. A closed channel gives nil.
\<close>

datatype 'd worker = Waiting | Holding "'d option" | Stopped

record 'd outgoingChannelLoadBalancer =
  chans :: "nat list"
  names :: "string list"
  namesChans :: "string \<rightharpoonup> nat"
  nextChan :: nat
  closedChans :: "nat set"
  ctxDone :: bool
  workers :: "nat \<rightharpoonup> 'd worker"

definition defaultSendChannel :: string where
  "defaultSendChannel = ''default send channel''"

section \<open>Operations\<close>

definition appendChannel :: "string \<Rightarrow> 'd outgoingChannelLoadBalancer \<Rightarrow> 'd outgoingChannelLoadBalancer" where
  "appendChannel channel oplb =
     (let ch = nextChan oplb
      in oplb\<lparr>names := names oplb @ [channel], nextChan := Suc ch, chans := chans oplb @ [ch],
              namesChans := (namesChans oplb)(channel \<mapsto> ch), workers := (workers oplb)(ch \<mapsto> Waiting)\<rparr>)"

definition NewOutgoingChannelLoadBalancer :: "logger option \<Rightarrow> 'd outgoingChannelLoadBalancer res" where
  "NewOutgoingChannelLoadBalancer log =
     (case log of
        None \<Rightarrow> Inl ErrNilLogger
      | Some _ \<Rightarrow>
          Inr (appendChannel defaultSendChannel
            \<lparr>chans = [], names = [], namesChans = Map.empty, nextChan = 0, closedChans = {}, ctxDone = False,
             workers = Map.empty\<rparr>))"

definition AddChannel :: "string \<Rightarrow> 'd outgoingChannelLoadBalancer \<Rightarrow> p2p_error option \<times> 'd outgoingChannelLoadBalancer" where
  "AddChannel channel oplb =
     (if channel = defaultSendChannel then (Some ErrChannelCanNotBeReAdded, oplb)
      else if namesChans oplb channel \<noteq> None then (None, oplb)
      else (None, appendChannel channel oplb))"

fun indexOf :: "string \<Rightarrow> nat \<Rightarrow> string list \<Rightarrow> int" where
  "indexOf channel idx [] = -1"
| "indexOf channel idx (name # ns) = (if name = channel then int idx else indexOf channel (Suc idx) ns)"

definition closeChan :: "nat \<Rightarrow> 'd outgoingChannelLoadBalancer \<Rightarrow> 'd outgoingChannelLoadBalancer option" where
  "closeChan ch oplb =
     (if ch \<in> closedChans oplb then None else Some (oplb\<lparr>closedChans := insert ch (closedChans oplb)\<rparr>))"

definition RemoveChannel ::
  "string \<Rightarrow> 'd outgoingChannelLoadBalancer \<Rightarrow> (p2p_error option \<times> 'd outgoingChannelLoadBalancer) option" where
  "RemoveChannel channel oplb =
     (if channel = defaultSendChannel then Some (Some ErrChannelCanNotBeDeleted, oplb)
      else
        (let index = indexOf channel 0 (names oplb)
         in if index = -1 then Some (Some ErrChannelDoesNotExist, oplb)
            else if nat index \<ge> length (chans oplb) then None
            else
              (let sendableChan = chans oplb ! nat index;
                   oplb = oplb\<lparr>chans := take (nat index) (chans oplb) @ drop (Suc (nat index)) (chans oplb),
                               names := take (nat index) (names oplb) @ drop (Suc (nat index)) (names oplb)\<rparr>
               in case closeChan sendableChan oplb of
                    None \<Rightarrow> None
                  | Some oplb \<Rightarrow> Some (None, oplb\<lparr>namesChans := (namesChans oplb)(channel := None)\<rparr>))))"

definition GetChannelOrDefault :: "string \<Rightarrow> 'd outgoingChannelLoadBalancer \<Rightarrow> nat option" where
  "GetChannelOrDefault channel oplb =
     (case namesChans oplb channel of
        Some ch \<Rightarrow> Some ch
      | None \<Rightarrow> (case chans oplb of [] \<Rightarrow> None | ch # _ \<Rightarrow> Some ch))"

definition oclb_Close :: "'d outgoingChannelLoadBalancer \<Rightarrow> p2p_error option \<times> 'd outgoingChannelLoadBalancer" where
  "oclb_Close oplb = (None, oplb\<lparr>ctxDone := True\<rparr>)"

section \<open>The go routines\<close>

definition put_worker :: "nat \<Rightarrow> 'd worker \<Rightarrow> 'd outgoingChannelLoadBalancer \<Rightarrow> 'd outgoingChannelLoadBalancer" where
  "put_worker ch w oplb = oplb\<lparr>workers := (workers oplb)(ch \<mapsto> w)\<rparr>"

text \<open>
  The \<^verbatim>\<open>select\<close> of the go routine of a channel: an object that a sender hands over, the nil of a closed channel, or the end
  of the context; \<^const>\<open>None\<close> when this case cannot be taken.
\<close>

datatype 'd worker_event = Receive 'd | ReadClosed | ContextEnds

fun worker_select :: "'d worker_event \<Rightarrow> nat \<Rightarrow> 'd outgoingChannelLoadBalancer \<Rightarrow> 'd outgoingChannelLoadBalancer option" where
  "worker_select (Receive d) ch oplb =
     (if workers oplb ch = Some Waiting \<and> ch \<notin> closedChans oplb then Some (put_worker ch (Holding (Some d)) oplb) else None)"
| "worker_select ReadClosed ch oplb =
     (if workers oplb ch = Some Waiting \<and> ch \<in> closedChans oplb then Some (put_worker ch (Holding None) oplb) else None)"
| "worker_select ContextEnds ch oplb =
     (if workers oplb ch = Some Waiting \<and> ctxDone oplb then Some (put_worker ch Stopped oplb) else None)"

text \<open>
  The \<^verbatim>\<open>select\<close> of a collector: what the go routine of the chosen channel holds, through the main channel, or nil at the
  end of the context.
\<close>

definition CollectOneElementFromChannels ::
  "nat option \<Rightarrow> 'd outgoingChannelLoadBalancer \<Rightarrow> ('d option \<times> 'd outgoingChannelLoadBalancer) option" where
  "CollectOneElementFromChannels choice oplb =
     (case choice of
        None \<Rightarrow> (if ctxDone oplb then Some (None, oplb) else None)
      | Some ch \<Rightarrow>
          (case workers oplb ch of
             Some (Holding obj) \<Rightarrow> Some (obj, put_worker ch Waiting oplb)
           | _ \<Rightarrow> None))"

section \<open>The abstract registry of channels\<close>

text \<open>
  What the operations promise, over a map from names to channels: the default name is always there
  and cannot be added or removed; an unknown name stands for the default channel.
\<close>

type_synonym registry = "string \<rightharpoonup> nat"

definition reg_add :: "string \<Rightarrow> nat \<Rightarrow> registry \<Rightarrow> p2p_error option \<times> registry" where
  "reg_add channel fresh r =
     (if channel = defaultSendChannel then (Some ErrChannelCanNotBeReAdded, r)
      else if channel \<in> dom r then (None, r) else (None, r(channel \<mapsto> fresh)))"

definition reg_remove :: "string \<Rightarrow> registry \<Rightarrow> p2p_error option \<times> registry" where
  "reg_remove channel r =
     (if channel = defaultSendChannel then (Some ErrChannelCanNotBeDeleted, r)
      else if channel \<notin> dom r then (Some ErrChannelDoesNotExist, r) else (None, r(channel := None)))"

definition reg_get :: "string \<Rightarrow> registry \<Rightarrow> nat option" where
  "reg_get channel r = (if channel \<in> dom r then r channel else r defaultSendChannel)"

text \<open>The invariant that relates the slices, the map and the go routines.\<close>

definition oclb_ok :: "'d outgoingChannelLoadBalancer \<Rightarrow> bool" where
  "oclb_ok oplb \<longleftrightarrow> length (chans oplb) = length (names oplb) \<and> distinct (names oplb) \<and> distinct (chans oplb) \<and>
     names oplb \<noteq> [] \<and> hd (names oplb) = defaultSendChannel \<and> namesChans oplb = map_of (zip (names oplb) (chans oplb)) \<and>
     (\<forall>ch \<in> set (chans oplb). ch < nextChan oplb \<and> ch \<notin> closedChans oplb) \<and>
     (\<forall>ch \<in> closedChans oplb. ch < nextChan oplb) \<and>
     (\<forall>ch. workers oplb ch \<noteq> None \<longleftrightarrow> ch < nextChan oplb)"

lemma oclb_ok_new [wf_intros]: "NewOutgoingChannelLoadBalancer log = Inr oplb \<Longrightarrow> oclb_ok oplb"
  by (auto simp: NewOutgoingChannelLoadBalancer_def appendChannel_def oclb_ok_def split: option.splits if_splits)

lemma oclb_ok_dom:
  assumes "oclb_ok oplb"
  shows "dom (namesChans oplb) = set (names oplb)"
  using assms by (auto simp: oclb_ok_def dom_map_of_zip)

lemma map_of_zip_snoc:
  assumes "length ns = length cs" and "n \<notin> set ns"
  shows "map_of (zip (ns @ [n]) (cs @ [c])) = (map_of (zip ns cs))(n \<mapsto> c)"
  using assms by (induction ns cs rule: list_induct2) (auto simp: fun_upd_twist)

lemma map_of_zip_remove:
  assumes "length ns = length cs" and "distinct ns" and "i < length ns"
  shows "map_of (zip (take i ns @ drop (Suc i) ns) (take i cs @ drop (Suc i) cs)) = (map_of (zip ns cs))(ns ! i := None)"
  using assms
proof (induction ns cs arbitrary: i rule: list_induct2)
  case (Cons n ns c cs)
  show ?case
  proof (cases i)
    case 0
    with Cons have "map_of (zip ns cs) n = None" by (simp add: map_of_zip_is_None)
    with 0 show ?thesis by (auto simp: fun_upd_idem)
  next
    case (Suc j)
    with Cons have "n \<noteq> ns ! j" by auto
    with Suc Cons show ?thesis by (auto simp: fun_eq_iff)
  qed
qed simp

lemma oclb_ok_append [wf_intros]:
  assumes "oclb_ok oplb" and "channel \<notin> set (names oplb)"
  shows "oclb_ok (appendChannel channel oplb)"
  using assms map_of_zip_snoc [of "names oplb" "chans oplb" channel "nextChan oplb"]
  by (auto simp: oclb_ok_def appendChannel_def Let_def less_Suc_eq)

lemma oclb_ok_Add [wf_intros]:
  assumes "oclb_ok oplb"
  shows "oclb_ok (snd (AddChannel channel oplb))"
  using assms oclb_ok_append oclb_ok_dom [OF assms] by (auto simp: AddChannel_def)

lemma indexOf_eq:
  "indexOf channel i ns = (if channel \<in> set ns then int (i + length (takeWhile (\<lambda>n. n \<noteq> channel) ns)) else -1)"
  by (induction ns arbitrary: i) auto

lemma indexOf_nth:
  assumes "channel \<in> set ns"
  shows "nat (indexOf channel 0 ns) < length ns" "ns ! nat (indexOf channel 0 ns) = channel" "indexOf channel 0 ns \<noteq> -1"
proof -
  let ?t = "takeWhile (\<lambda>n. n \<noteq> channel) ns"
  have "length ?t < length ns" using assms by (metis length_takeWhile_le le_neq_implies_less set_takeWhileD takeWhile_eq_take take_all_iff order_refl)
  with assms show "nat (indexOf channel 0 ns) < length ns" "ns ! nat (indexOf channel 0 ns) = channel" "indexOf channel 0 ns \<noteq> -1"
    using nth_length_takeWhile [of "\<lambda>n. n \<noteq> channel" ns] by (simp_all add: indexOf_eq)
qed

text \<open>Removal cuts the name and its channel from both slices, and closes an open channel.\<close>

lemma RemoveChannel_eq:
  assumes "oclb_ok oplb" and "channel \<noteq> defaultSendChannel" and "channel \<in> set (names oplb)"
  obtains i where "i < length (names oplb)" "names oplb ! i = channel" "0 < i" "namesChans oplb channel = Some (chans oplb ! i)"
    and "RemoveChannel channel oplb = Some (None, oplb\<lparr>
      chans := take i (chans oplb) @ drop (Suc i) (chans oplb), names := take i (names oplb) @ drop (Suc i) (names oplb),
      closedChans := insert (chans oplb ! i) (closedChans oplb), namesChans := (namesChans oplb)(channel := None)\<rparr>)"
proof -
  let ?i = "nat (indexOf channel 0 (names oplb))"
  note i = indexOf_nth [OF assms(3)]
  have len: "length (chans oplb) = length (names oplb)" using assms(1) by (simp add: oclb_ok_def)
  then have open_ch: "chans oplb ! ?i \<notin> closedChans oplb" using assms(1) i by (simp add: oclb_ok_def)
  have "names oplb \<noteq> []" "hd (names oplb) = defaultSendChannel" using assms(1) by (simp_all add: oclb_ok_def)
  then have "names oplb ! 0 = defaultSendChannel" by (simp add: hd_conv_nth)
  then have "0 < ?i" using assms(2) i(2) by (metis gr_zeroI)
  moreover have "namesChans oplb channel = Some (chans oplb ! ?i)"
    using map_of_zip_nth [of "names oplb" "chans oplb" ?i] assms(1) i len by (simp add: oclb_ok_def)
  moreover have "RemoveChannel channel oplb = Some (None, oplb\<lparr>
      chans := take ?i (chans oplb) @ drop (Suc ?i) (chans oplb), names := take ?i (names oplb) @ drop (Suc ?i) (names oplb),
      closedChans := insert (chans oplb ! ?i) (closedChans oplb), namesChans := (namesChans oplb)(channel := None)\<rparr>)"
    using assms(2) i len open_ch by (simp add: RemoveChannel_def closeChan_def Let_def)
  ultimately show ?thesis using that i by blast
qed

lemma set_remove_nth: "set (take i xs @ drop (Suc i) xs) \<subseteq> set xs"
  by (auto dest: in_set_takeD in_set_dropD)

lemma distinct_remove_nth:
  assumes "distinct xs" and "i < length xs"
  shows "distinct (take i xs @ drop (Suc i) xs)" and "xs ! i \<notin> set (take i xs @ drop (Suc i) xs)"
proof -
  have "xs = take i xs @ xs ! i # drop (Suc i) xs" using assms(2) by (simp add: id_take_nth_drop)
  with assms(1) have "distinct (take i xs @ xs ! i # drop (Suc i) xs)" by simp
  then show "distinct (take i xs @ drop (Suc i) xs)" "xs ! i \<notin> set (take i xs @ drop (Suc i) xs)" by auto
qed

lemma oclb_ok_Remove [wf_intros]:
  assumes "oclb_ok oplb" and "RemoveChannel channel oplb = Some (r, oplb')"
  shows "oclb_ok oplb'"
proof (cases "channel = defaultSendChannel \<or> channel \<notin> set (names oplb)")
  case True
  then have "\<exists>e. RemoveChannel channel oplb = Some (Some e, oplb)" by (auto simp: RemoveChannel_def indexOf_eq)
  with assms show ?thesis by auto
next
  case False
  then have f: "channel \<noteq> defaultSendChannel" "channel \<in> set (names oplb)" by simp_all
  obtain i where i: "i < length (names oplb)" "names oplb ! i = channel" "0 < i"
    and e: "RemoveChannel channel oplb = Some (None, oplb\<lparr>
      chans := take i (chans oplb) @ drop (Suc i) (chans oplb), names := take i (names oplb) @ drop (Suc i) (names oplb),
      closedChans := insert (chans oplb ! i) (closedChans oplb), namesChans := (namesChans oplb)(channel := None)\<rparr>)"
    by (rule RemoveChannel_eq [OF assms(1) f])
  have ok: "length (chans oplb) = length (names oplb)" "distinct (names oplb)" "distinct (chans oplb)"
    "namesChans oplb = map_of (zip (names oplb) (chans oplb))" "names oplb \<noteq> []" "hd (names oplb) = defaultSendChannel"
    "\<And>ch. ch \<in> set (chans oplb) \<Longrightarrow> ch < nextChan oplb \<and> ch \<notin> closedChans oplb"
    using assms(1) by (simp_all add: oclb_ok_def)
  have lt: "i < length (chans oplb)" using i ok by simp
  have "hd (take i (names oplb) @ drop (Suc i) (names oplb)) = defaultSendChannel"
    using ok(5,6) i(3) by (simp add: hd_append)
  moreover have "take i (names oplb) @ drop (Suc i) (names oplb) \<noteq> []" using i ok(5) by simp
  moreover have "chans oplb ! i < nextChan oplb" using ok(7) lt by simp
  moreover note map_of_zip_remove [OF ok(1) [symmetric] ok(2) i(1)] distinct_remove_nth [OF ok(2) i(1)]
    distinct_remove_nth [OF ok(3) lt] set_remove_nth [of i "chans oplb"]
  ultimately show ?thesis
    using assms e i ok by (auto simp: oclb_ok_def subset_iff)
qed

lemma oclb_ok_Close [wf_intros]: "oclb_ok oplb \<Longrightarrow> oclb_ok (snd (oclb_Close oplb))"
  by (simp add: oclb_ok_def oclb_Close_def)

lemma GetChannelOrDefault_reg:
  assumes "oclb_ok oplb"
  shows "GetChannelOrDefault channel oplb = reg_get channel (namesChans oplb)"
    and "\<exists>ch. GetChannelOrDefault channel oplb = Some ch \<and> ch \<in> set (chans oplb)"
proof -
  obtain ns c cs where n: "names oplb = defaultSendChannel # ns" and c: "chans oplb = c # cs" and l: "length cs = length ns"
    using assms by (cases "names oplb"; cases "chans oplb") (auto simp: oclb_ok_def)
  have m: "namesChans oplb = map_of (zip (names oplb) (chans oplb))" using assms by (simp add: oclb_ok_def)
  show "GetChannelOrDefault channel oplb = reg_get channel (namesChans oplb)"
    by (auto simp: GetChannelOrDefault_def reg_get_def m n c split: option.split)
  show "\<exists>ch. GetChannelOrDefault channel oplb = Some ch \<and> ch \<in> set (chans oplb)"
  proof (cases "namesChans oplb channel")
    case None
    then show ?thesis by (simp add: GetChannelOrDefault_def c)
  next
    case (Some ch)
    then have "ch \<in> set (chans oplb)" using m by (auto dest!: map_of_SomeD set_zip_rightD)
    with Some show ?thesis by (simp add: GetChannelOrDefault_def)
  qed
qed

text \<open>The contract of the registry, which the messages handler relies on.\<close>

locale channel_registry =
  fixes ok :: "'s \<Rightarrow> bool" and abs :: "'s \<Rightarrow> registry" and fresh :: "'s \<Rightarrow> nat"
    and add :: "string \<Rightarrow> 's \<Rightarrow> p2p_error option \<times> 's"
    and remove :: "string \<Rightarrow> 's \<Rightarrow> (p2p_error option \<times> 's) option"
    and get :: "string \<Rightarrow> 's \<Rightarrow> nat option"
  assumes add_refines: "ok s \<Longrightarrow> ok (snd (add n s)) \<and> apsnd abs (add n s) = reg_add n (fresh s) (abs s)"
    and remove_refines: "ok s \<Longrightarrow> \<exists>r s'. remove n s = Some (r, s') \<and> ok s' \<and> (r, abs s') = reg_remove n (abs s)"
    and get_refines: "ok s \<Longrightarrow> get n s = reg_get n (abs s)"
    and get_total: "ok s \<Longrightarrow> get n s \<noteq> None"
begin

lemma added_is_found:
  assumes "ok s" and "n \<noteq> defaultSendChannel" and "n \<notin> dom (abs s)"
  shows "get n (snd (add n s)) = Some (fresh s)"
proof -
  have "abs (snd (add n s)) = (abs s)(n \<mapsto> fresh s)"
    using add_refines [OF assms(1), of n] assms(2,3) by (cases "add n s") (auto simp: reg_add_def)
  then show ?thesis using get_refines [of "snd (add n s)" n] add_refines [OF assms(1)] by (simp add: reg_get_def)
qed

lemma removed_is_default:
  assumes "ok s" and "remove n s = Some (None, s')"
  shows "get n s' = get defaultSendChannel s"
proof -
  have s': "ok s'" "(None, abs s') = reg_remove n (abs s)"
    using remove_refines [OF assms(1), of n] assms(2) by auto
  then have "n \<noteq> defaultSendChannel" "abs s' = (abs s)(n := None)" by (auto simp: reg_remove_def split: if_splits)
  then show ?thesis using get_refines [OF s'(1)] get_refines [OF assms(1)] by (simp add: reg_get_def)
qed

end

interpretation oclb: channel_registry oclb_ok namesChans nextChan AddChannel RemoveChannel GetChannelOrDefault
proof
  fix s :: "'d outgoingChannelLoadBalancer" and n
  assume ok: "oclb_ok s"
  note dom = oclb_ok_dom [OF ok]
  show "oclb_ok (snd (AddChannel n s)) \<and> apsnd namesChans (AddChannel n s) = reg_add n (nextChan s) (namesChans s)"
    using oclb_ok_Add [OF ok] by (auto simp: AddChannel_def reg_add_def appendChannel_def Let_def)
  show "\<exists>r s'. RemoveChannel n s = Some (r, s') \<and> oclb_ok s' \<and> (r, namesChans s') = reg_remove n (namesChans s)"
  proof (cases "n = defaultSendChannel \<or> n \<notin> set (names s)")
    case True
    with ok dom show ?thesis by (auto simp: RemoveChannel_def indexOf_eq reg_remove_def)
  next
    case False
    then have f: "n \<noteq> defaultSendChannel" "n \<in> set (names s)" by simp_all
    obtain s' where s': "RemoveChannel n s = Some (None, s')" "namesChans s' = (namesChans s)(n := None)"
      by (rule RemoveChannel_eq [OF ok f]) simp
    with oclb_ok_Remove [OF ok] dom f show ?thesis by (auto simp: reg_remove_def)
  qed
  show "GetChannelOrDefault n s = reg_get n (namesChans s)" by (rule GetChannelOrDefault_reg [OF ok])
  show "GetChannelOrDefault n s \<noteq> None" using GetChannelOrDefault_reg(2) [OF ok, of n] by auto
qed

section \<open>Runs\<close>

text \<open>
  The steps of the whole balancer: the go routine of a channel takes an object from a sender, reads nil from a
  closed channel or stops at the end of the context, a collector takes what a go routine holds, and the
  operations above. \<open>sent\<close> and \<open>collected\<close> record what went
  into each channel and what came out of it.
\<close>

record 'd oclb_system =
  bal :: "'d outgoingChannelLoadBalancer"
  sent :: "nat \<Rightarrow> 'd list"
  collected :: "nat \<Rightarrow> 'd option list"

inductive oclb_step :: "'d oclb_system \<Rightarrow> 'd oclb_system \<Rightarrow> bool" where
  receive: "worker_select (Receive d) ch (bal s) = Some b \<Longrightarrow> oclb_step s (s\<lparr>bal := b, sent := (sent s)(ch := sent s ch @ [d])\<rparr>)"
| read_closed: "worker_select ReadClosed ch (bal s) = Some b \<Longrightarrow> oclb_step s (s\<lparr>bal := b\<rparr>)"
| stop: "worker_select ContextEnds ch (bal s) = Some b \<Longrightarrow> oclb_step s (s\<lparr>bal := b\<rparr>)"
| collect: "CollectOneElementFromChannels (Some ch) (bal s) = Some (obj, b) \<Longrightarrow>
    oclb_step s (s\<lparr>bal := b, collected := (collected s)(ch := collected s ch @ [obj])\<rparr>)"
| add: "AddChannel channel (bal s) = (r, b) \<Longrightarrow> oclb_step s (s\<lparr>bal := b\<rparr>)"
| remove: "RemoveChannel channel (bal s) = Some (r, b) \<Longrightarrow> oclb_step s (s\<lparr>bal := b\<rparr>)"
| close: "oclb_Close (bal s) = (r, b) \<Longrightarrow> oclb_step s (s\<lparr>bal := b\<rparr>)"

definition oclb_init :: "'d oclb_system \<Rightarrow> bool" where
  "oclb_init s \<longleftrightarrow> (\<exists>log. NewOutgoingChannelLoadBalancer log = Inr (bal s)) \<and> sent s = (\<lambda>_. []) \<and> collected s = (\<lambda>_. [])"

inductive oclb_reach :: "'d oclb_system \<Rightarrow> 'd oclb_system \<Rightarrow> bool" for s0 where
  start: "oclb_reach s0 s0"
| step: "oclb_reach s0 s \<Longrightarrow> oclb_step s s' \<Longrightarrow> oclb_reach s0 s'"

fun held :: "'d worker option \<Rightarrow> 'd list" where
  "held (Some (Holding (Some d))) = [d]"
| "held w = []"

text \<open>Per channel: what was sent is what was collected, in order, and what its go routine holds.\<close>

definition fifo_ok :: "'d oclb_system \<Rightarrow> bool" where
  "fifo_ok s \<longleftrightarrow> oclb_ok (bal s) \<and>
     (\<forall>ch. sent s ch = List.map_filter id (collected s ch) @ held (workers (bal s) ch)) \<and>
     (\<forall>ch. nextChan (bal s) \<le> ch \<longrightarrow> sent s ch = [] \<and> collected s ch = [])"

lemma put_worker_simps [simp]:
  "workers (put_worker ch w b) = (workers b)(ch \<mapsto> w)" "nextChan (put_worker ch w b) = nextChan b" "closedChans (put_worker ch w b) = closedChans b"
  "ctxDone (put_worker ch w b) = ctxDone b" "namesChans (put_worker ch w b) = namesChans b" "chans (put_worker ch w b) = chans b"
  by (simp_all add: put_worker_def)

lemma oclb_ok_worker:
  assumes "oclb_ok b" and "workers b ch \<noteq> None"
  shows "oclb_ok (put_worker ch w b)"
  using assms by (auto simp: oclb_ok_def put_worker_def)

text \<open>What a \<^verbatim>\<open>select\<close> does to the state of the go routine.\<close>

lemma worker_select_Some:
  assumes "worker_select ev ch b = Some b'"
  shows "workers b ch = Some Waiting"
    "b' = put_worker ch (case ev of Receive d \<Rightarrow> Holding (Some d) | ReadClosed \<Rightarrow> Holding None | ContextEnds \<Rightarrow> Stopped) b"
  using assms by (cases ev; auto split: if_splits)+

lemma Collect_Some:
  assumes "CollectOneElementFromChannels (Some ch) b = Some (obj, b')"
  shows "workers b ch = Some (Holding obj)" "b' = put_worker ch Waiting b"
  using assms by (auto simp: CollectOneElementFromChannels_def split: option.splits worker.splits)

lemma AddChannel_workers:
  assumes "oclb_ok b" and "AddChannel channel b = (r, b')"
  shows "held (workers b' ch) = held (workers b ch)" "nextChan b \<le> nextChan b'"
proof -
  have "workers b (nextChan b) = None" using assms(1) by (auto simp: oclb_ok_def)
  then show "held (workers b' ch) = held (workers b ch)" "nextChan b \<le> nextChan b'"
    using assms(2) by (auto simp: AddChannel_def appendChannel_def Let_def split: if_splits)
qed

lemma RemoveChannel_workers:
  "RemoveChannel channel b = Some (r, b') \<Longrightarrow> workers b' = workers b \<and> nextChan b' = nextChan b"
  by (auto simp: RemoveChannel_def closeChan_def Let_def split: if_splits option.splits)

lemma map_filter_snoc: "List.map_filter id (xs @ [x]) = List.map_filter id xs @ (case x of None \<Rightarrow> [] | Some d \<Rightarrow> [d])"
  by (simp add: map_filter_def split: option.split)

lemma fifo_ok_step:
  assumes "oclb_step s s'" and "fifo_ok s"
  shows "fifo_ok s'"
  using assms
proof (cases rule: oclb_step.cases)
  case (add channel r b)
  then show ?thesis
    using assms(2) AddChannel_workers [of "bal s" channel r b] oclb_ok_Add [of "bal s" channel] by (auto simp: fifo_ok_def)
next
  case (remove channel r b)
  then show ?thesis
    using assms(2) RemoveChannel_workers [of channel "bal s" r b] oclb_ok_Remove by (auto simp: fifo_ok_def)
next
  case (close r b)
  then show ?thesis
    using assms(2) oclb_ok_Close [of "bal s"] by (auto simp: fifo_ok_def oclb_Close_def)
next
  case (collect ch obj b)
  note w = Collect_Some [OF collect(2)]
  with assms(2) have "ch < nextChan (bal s)" by (auto simp: fifo_ok_def oclb_ok_def)
  with collect(1) w assms(2) show ?thesis by (cases obj) (auto simp: fifo_ok_def oclb_ok_worker map_filter_snoc)
next
  case (receive d ch b)
  note w = worker_select_Some [OF receive(2)]
  with assms(2) have "ch < nextChan (bal s)" by (auto simp: fifo_ok_def oclb_ok_def)
  with receive(1) w assms(2) show ?thesis by (auto simp: fifo_ok_def oclb_ok_worker)
qed (use assms(2) in \<open>auto simp: fifo_ok_def oclb_ok_worker split: if_splits\<close>)

lemma new_workers: "NewOutgoingChannelLoadBalancer log = Inr b \<Longrightarrow> workers b = [0 \<mapsto> Waiting]"
  by (auto simp: NewOutgoingChannelLoadBalancer_def appendChannel_def split: option.splits)

lemma fifo_ok_reach:
  assumes "oclb_reach s0 s" and "oclb_init s0"
  shows "fifo_ok s"
  using assms(1)
proof induction
  case start
  from assms(2) obtain log where "NewOutgoingChannelLoadBalancer log = Inr (bal s0)" "sent s0 = (\<lambda>_. [])" "collected s0 = (\<lambda>_. [])"
    by (auto simp: oclb_init_def)
  moreover from new_workers [OF this(1)] have "held (workers (bal s0) ch) = []" for ch by simp
  ultimately show ?case by (auto simp: fifo_ok_def map_filter_def intro: oclb_ok_new)
next
  case (step s s')
  then show ?case by (blast intro: fifo_ok_step)
qed

section \<open>Properties\<close>

text \<open>
  C29. The slices and the map of the balancer implement the registry: in every state reached by its
  operations, adding, removing and looking up a channel has the result the registry prescribes, no
  operation panics, and the channel found is never a closed one.
\<close>

theorem balancer_refines_registry:
  assumes "oclb_init s0" and "oclb_reach s0 s"
  shows "apsnd namesChans (AddChannel n (bal s)) = reg_add n (nextChan (bal s)) (namesChans (bal s)) \<and>
         (\<exists>r b. RemoveChannel n (bal s) = Some (r, b) \<and> (r, namesChans b) = reg_remove n (namesChans (bal s))) \<and>
         GetChannelOrDefault n (bal s) = reg_get n (namesChans (bal s)) \<and>
         (\<exists>ch. GetChannelOrDefault n (bal s) = Some ch \<and> ch \<notin> closedChans (bal s))"
proof -
  have ok: "oclb_ok (bal s)" using fifo_ok_reach [OF assms(2,1)] by (simp add: fifo_ok_def)
  obtain ch where "GetChannelOrDefault n (bal s) = Some ch" "ch \<in> set (chans (bal s))"
    using GetChannelOrDefault_reg(2) [OF ok] by blast
  moreover from this(2) have "ch \<notin> closedChans (bal s)" using ok by (simp add: oclb_ok_def)
  ultimately show ?thesis
    using oclb.add_refines [OF ok, of n] oclb.remove_refines [OF ok, of n] oclb.get_refines [OF ok, of n] by blast
qed

definition example_bal :: "nat outgoingChannelLoadBalancer" where
  "example_bal = \<lparr>chans = [0], names = [defaultSendChannel], namesChans = [defaultSendChannel \<mapsto> 0], nextChan = 1,
     closedChans = {}, ctxDone = False, workers = [0 \<mapsto> Waiting]\<rparr>"

definition example_oclb :: "nat oclb_system" where
  "example_oclb = \<lparr>bal = example_bal, sent = (\<lambda>_. []), collected = (\<lambda>_. [])\<rparr>"

lemma example_oclb_init: "oclb_init example_oclb"
  by (auto simp: oclb_init_def example_oclb_def example_bal_def NewOutgoingChannelLoadBalancer_def appendChannel_def
      intro!: exI [of _ "Some \<lparr>isLevelTrace = False\<rparr>"])

theorem balancer_refines_registry_witness:
  "\<exists>r b. RemoveChannel ''x'' (snd (AddChannel ''x'' example_bal)) = Some (r, b) \<and>
     (r, namesChans b) = reg_remove ''x'' (namesChans (snd (AddChannel ''x'' example_bal)))"
proof -
  let ?s = "example_oclb\<lparr>bal := snd (AddChannel ''x'' example_bal)\<rparr>"
  have "oclb_step example_oclb ?s"
    by (rule oclb_step.add [of "''x''" _ "fst (AddChannel ''x'' example_bal)"]) (simp add: example_oclb_def)
  with oclb_reach.start have "oclb_reach example_oclb ?s" by (rule oclb_reach.step)
  from balancer_refines_registry [OF example_oclb_init this, of "''x''"] show ?thesis by simp
qed

text \<open>
  C31. Removing a channel does not end its go routine: when the go routine waits on the removed
  channel, it reads nil from it, the collector gets nil, and the balancer is again in the state it
  was in, so this repeats without end while the context lasts.
\<close>

theorem removed_channel_gives_nil_forever:
  assumes "oclb_ok (bal s)" and "RemoveChannel channel (bal s) = Some (None, b)"
    and "namesChans (bal s) channel = Some ch" and "workers (bal s) ch = Some Waiting"
    and "s' = s\<lparr>bal := b\<rparr>"
  shows "\<exists>s1. oclb_step s' s1 \<and> oclb_step s1 (s'\<lparr>collected := (collected s')(ch := collected s' ch @ [None])\<rparr>)"
proof -
  have f: "channel \<noteq> defaultSendChannel" "channel \<in> set (names (bal s))"
    using assms(2) oclb_ok_dom [OF assms(1)] assms(3) by (auto simp: RemoveChannel_def)
  obtain i where "namesChans (bal s) channel = Some (chans (bal s) ! i)"
    and "RemoveChannel channel (bal s) = Some (None, (bal s)\<lparr>
      chans := take i (chans (bal s)) @ drop (Suc i) (chans (bal s)), names := take i (names (bal s)) @ drop (Suc i) (names (bal s)),
      closedChans := insert (chans (bal s) ! i) (closedChans (bal s)), namesChans := (namesChans (bal s))(channel := None)\<rparr>)"
    by (rule RemoveChannel_eq [OF assms(1) f])
  with assms have b: "ch \<in> closedChans (bal s')" "workers (bal s') ch = Some Waiting" by auto
  let ?b = "put_worker ch (Holding None) (bal s')"
  have 1: "oclb_step s' (s'\<lparr>bal := ?b\<rparr>)" using b by (intro oclb_step.read_closed [of ch]) simp
  have "CollectOneElementFromChannels (Some ch) ?b = Some (None, put_worker ch Waiting ?b)" by (simp add: CollectOneElementFromChannels_def)
  then have "oclb_step (s'\<lparr>bal := ?b\<rparr>) (s'\<lparr>bal := put_worker ch Waiting ?b, collected := (collected s')(ch := collected s' ch @ [None])\<rparr>)"
    using oclb_step.collect [of ch "s'\<lparr>bal := ?b\<rparr>"] by simp
  moreover have "put_worker ch Waiting ?b = bal s'" using b(2) by (simp add: put_worker_def fun_upd_idem)
  ultimately show ?thesis using 1 by (metis oclb_system.surjective oclb_system.update_convs(1))
qed

theorem removed_channel_gives_nil_forever_witness:
  "\<exists>b s1. RemoveChannel ''x'' (snd (AddChannel ''x'' example_bal)) = Some (None, b) \<and> oclb_step (example_oclb\<lparr>bal := b\<rparr>) s1 \<and>
     oclb_step s1 (example_oclb\<lparr>bal := b, collected := (\<lambda>_. [])(1 := [None])\<rparr>)"
proof -
  let ?s = "example_oclb\<lparr>bal := snd (AddChannel ''x'' example_bal)\<rparr>"
  have ok: "oclb_ok (bal ?s)"
    using oclb_ok_Add [of example_bal] fifo_ok_reach [OF oclb_reach.start example_oclb_init]
    by (simp add: fifo_ok_def example_oclb_def)
  have add: "snd (AddChannel ''x'' example_bal) = \<lparr>chans = [0, 1], names = [defaultSendChannel, ''x''],
     namesChans = [defaultSendChannel \<mapsto> 0, ''x'' \<mapsto> 1], nextChan = 2, closedChans = {}, ctxDone = False,
     workers = [0 \<mapsto> Waiting, 1 \<mapsto> Waiting]\<rparr>"
    by (simp add: AddChannel_def appendChannel_def example_bal_def defaultSendChannel_def)
  obtain b where b: "RemoveChannel ''x'' (bal ?s) = Some (None, b)"
    by (simp add: add RemoveChannel_def closeChan_def defaultSendChannel_def)
  have "\<exists>s1. oclb_step (?s\<lparr>bal := b\<rparr>) s1 \<and>
     oclb_step s1 (?s\<lparr>bal := b\<rparr>\<lparr>collected := (collected (?s\<lparr>bal := b\<rparr>))(1 := collected (?s\<lparr>bal := b\<rparr>) 1 @ [None])\<rparr>)"
    by (rule removed_channel_gives_nil_forever [OF ok b _ _ refl]) (simp_all add: add)
  then obtain s1 where "oclb_step (?s\<lparr>bal := b\<rparr>) s1"
    "oclb_step s1 (?s\<lparr>bal := b\<rparr>\<lparr>collected := (collected (?s\<lparr>bal := b\<rparr>))(1 := collected (?s\<lparr>bal := b\<rparr>) 1 @ [None])\<rparr>)" by blast
  with b show ?thesis by (intro exI [of _ b] exI [of _ s1]) (simp add: example_oclb_def)
qed

end
