(* ===== verification/MessagesHandler.thy ===== *)
theory MessagesHandler
  imports TopicPeers DirectSender LoadBalancer
begin

text \<open>
  The messages handler (\<^verbatim>\<open>p2p/libp2p/messagesHandler.go\<close>): broadcasting, direct messages, the processors
  of topics and the validation of received messages. Its collaborators (pubsub, the direct sender, the
  throttler, the peer denial evaluator, the rating handler, the registered processors) act on one
  state \<open>'e\<close> through the record of operations \<open>handler_ops\<close>. Objects that are shared through pointers,
  the processors of a topic, live in a heap of numbered objects. The current time is the Unix time in
  seconds.
\<close>

section \<open>State\<close>

type_synonym 'e processor = "Message \<Rightarrow> peerid \<Rightarrow> 'e \<Rightarrow> (bytes \<times> p2p_error option) \<times> 'e"

record 'sk SendableData =
  sd_Buff :: bytes
  sd_Topic :: string
  sd_Sk :: "'sk option"
  sd_ID :: peerid

datatype debug_call = AddOutgoingMessage string nat bool | AddIncomingMessage string nat bool

record ('e, 'c, 'sk) handler_ops =
  ho_pubsub :: pubsub_ops
  ho_RegisterTopicValidator :: "string \<Rightarrow> (string \<rightharpoonup> nat) \<Rightarrow> p2p_error option"
  ho_UnregisterTopicValidator :: "string \<Rightarrow> (string \<rightharpoonup> nat) \<Rightarrow> p2p_error option"
  ho_Join :: "string \<Rightarrow> nat res"
  ho_Subscribe :: "nat \<Rightarrow> nat res"
  ho_TopicClose :: "nat \<Rightarrow> p2p_error option"
  ho_Publish :: "nat \<Rightarrow> bytes \<Rightarrow> ('sk \<times> peerid) option \<Rightarrow> 'e \<Rightarrow> p2p_error option \<times> 'e"
  ho_DirectSend :: "string \<Rightarrow> bytes \<Rightarrow> peerid \<Rightarrow> 'e \<Rightarrow> p2p_error option \<times> 'e"
  ho_NextSequenceNumber :: "'e \<Rightarrow> bytes \<times> 'e"
  ho_CanProcess :: "'e \<Rightarrow> bool"
  ho_StartProcessing :: "'e \<Rightarrow> 'e"
  ho_EndProcessing :: "'e \<Rightarrow> 'e"
  ho_IsDenied :: "peerid \<Rightarrow> 'e \<Rightarrow> bool"
  ho_UpsertPeerID :: "peerid \<Rightarrow> int \<Rightarrow> 'e \<Rightarrow> p2p_error option \<times> 'e"
  ho_IncreaseRating :: "peerid \<Rightarrow> 'e \<Rightarrow> 'e"
  ho_UnmarshalSk :: "bytes \<Rightarrow> 'sk res"
  ho_NewCache :: "int \<Rightarrow> 'c res"
  ho_cache :: "('c, unit) cacher_ops"
  ho_iter :: "(string \<times> 'e processor) list \<Rightarrow> (string \<times> 'e processor) list"

record ('e, 'c, 'sk) messagesHandler =
  h_env :: 'e
  h_objects :: "nat \<rightharpoonup> 'e processor topicProcessors"
  h_nextObject :: nat
  h_processors :: "string \<rightharpoonup> nat option"
  h_validators :: "string \<rightharpoonup> nat"
  h_topics :: "string \<rightharpoonup> nat"
  h_subscriptions :: "string \<rightharpoonup> nat"
  h_cancelled :: "nat set"
  h_equivalentMessages :: "string \<rightharpoonup> 'c"
  h_outgoingCLB :: "'sk SendableData outgoingChannelLoadBalancer"
  h_marshaller :: p2p_Marshaller
  h_debugger :: "debug_call list"
  h_peerID :: peerid
  h_ctxDone :: bool

text \<open>
  The constants of \<^verbatim>\<open>netMessenger.go\<close> and \<^verbatim>\<open>constants.go\<close>, in seconds. \<open>TopicRequestSuffix\<close> is a constant of
  \<^verbatim>\<open>mx-chain-core-go\<close> and a parameter where it is used.
\<close>

definition pubsubTimeCacheDuration :: int where "pubsubTimeCacheDuration = 10 * 60"
definition acceptMessagesInAdvanceDuration :: int where "acceptMessagesInAdvanceDuration = 20"
definition WrongP2PMessageBlacklistDuration :: int where "WrongP2PMessageBlacklistDuration = 7200"
definition equivalentMessagesCacheSize :: int where "equivalentMessagesCacheSize = 1000"

text \<open>The arguments: which of the collaborators are nil, and the ones the model keeps.\<close>

record 'sk ArgMessagesHandler =
  am_nilPubSub :: bool
  am_nilDirectSender :: bool
  am_nilThrottler :: bool
  am_OutgoingCLB :: "'sk SendableData outgoingChannelLoadBalancer option"
  am_Marshaller :: "p2p_Marshaller option"
  am_nilConnMonitor :: bool
  am_nilPeersRatingHandler :: bool
  am_nilSyncTimer :: bool
  am_PeerID :: peerid
  am_Logger :: "logger option"

definition checkArgMessagesHandler :: "'sk ArgMessagesHandler \<Rightarrow> p2p_error option" where
  "checkArgMessagesHandler args =
     (if am_nilPubSub args then Some ErrNilPubSub
      else if am_nilDirectSender args then Some ErrNilDirectSender
      else if am_nilThrottler args then Some ErrNilThrottler
      else if am_OutgoingCLB args = None then Some ErrNilChannelLoadBalancer
      else if am_Marshaller args = None then Some ErrNilMarshaller
      else if am_nilConnMonitor args then Some ErrNilConnectionMonitor
      else if am_nilPeersRatingHandler args then Some ErrNilPeersRatingHandler
      else if am_nilSyncTimer args then Some ErrNilSyncTimer
      else if am_Logger args = None then Some ErrNilLogger
      else None)"

text \<open>\<open>register\<close> is what \<^verbatim>\<open>RegisterDirectMessageProcessor\<close> of the direct sender answers.\<close>

definition NewMessagesHandler :: "p2p_error option \<Rightarrow> 'e \<Rightarrow> 'sk ArgMessagesHandler \<Rightarrow> ('e, 'c, 'sk) messagesHandler res" where
  "NewMessagesHandler register env args =
     (case checkArgMessagesHandler args of
        Some err \<Rightarrow> Inl err
      | None \<Rightarrow>
          (case register of
             Some err \<Rightarrow> Inl err
           | None \<Rightarrow>
          (case (am_OutgoingCLB args, am_Marshaller args) of
             (Some oclb, Some mars) \<Rightarrow>
               Inr \<lparr>h_env = env, h_objects = Map.empty, h_nextObject = 0, h_processors = Map.empty, h_validators = Map.empty,
                    h_topics = Map.empty, h_subscriptions = Map.empty, h_cancelled = {}, h_equivalentMessages = Map.empty,
                    h_outgoingCLB = oclb, h_marshaller = mars, h_debugger = [],
                    h_peerID = am_PeerID args, h_ctxDone = False\<rparr>
           | _ \<Rightarrow> Inl ErrNilMarshaller)))"

section \<open>Sending\<close>

definition checkSendableData :: "bytes \<Rightarrow> p2p_error option" where
  "checkSendableData buff =
     (if length buff > maxSendBuffSize then Some ErrMessageTooLarge
      else if length buff = 0 then Some ErrEmptyBufferToSend
      else None)"

definition createMessageBytes :: "int \<Rightarrow> ('e, 'c, 'sk) messagesHandler \<Rightarrow> bytes \<Rightarrow> bytes" where
  "createMessageBytes now handler buff =
     (let message = TopicMessage_zero\<lparr>tm_Version := currentTopicMessageVersion, tm_Payload := buff, tm_Timestamp := word_of_int now\<rparr>
      in case tm_Marshal (h_marshaller handler) message of
           Inl errMarshal \<Rightarrow> []
         | Inr buffToSend \<Rightarrow> buffToSend)"

text \<open>
  A broadcast runs until it hands its data to the channel, where it blocks until the go routine of
  the channel takes it; then \<^verbatim>\<open>EndProcessing\<close> follows. \<^const>\<open>None\<close> for the channel is a panic.
\<close>

datatype 'sk broadcast_state = BroadcastFailed p2p_error | BroadcastOn "nat option" "'sk SendableData"

definition broadcastSendable :: "('e, 'c, 'sk) handler_ops \<Rightarrow> string \<Rightarrow> 'sk SendableData \<Rightarrow> ('e, 'c, 'sk) messagesHandler
  \<Rightarrow> 'sk broadcast_state \<times> ('e, 'c, 'sk) messagesHandler" where
  "broadcastSendable ops channel sendable handler =
     (case checkSendableData (sd_Buff sendable) of
        Some err \<Rightarrow> (BroadcastFailed err, handler)
      | None \<Rightarrow>
          (if \<not> ho_CanProcess ops (h_env handler) then (BroadcastFailed ErrTooManyGoroutines, handler)
           else (BroadcastOn (GetChannelOrDefault channel (h_outgoingCLB handler)) sendable,
                 handler\<lparr>h_env := ho_StartProcessing ops (h_env handler)\<rparr>)))"

definition broadcastOnChannelBlocking :: "('e, 'c, 'sk) handler_ops \<Rightarrow> string \<Rightarrow> string \<Rightarrow> bytes \<Rightarrow> ('e, 'c, 'sk) messagesHandler
  \<Rightarrow> 'sk broadcast_state \<times> ('e, 'c, 'sk) messagesHandler" where
  "broadcastOnChannelBlocking ops channel topic buff handler =
     broadcastSendable ops channel \<lparr>sd_Buff = buff, sd_Topic = topic, sd_Sk = None, sd_ID = h_peerID handler\<rparr> handler"

text \<open>
  The go routine of \<^verbatim>\<open>BroadcastOnChannel\<close> only prints the error. The call runs up to the channel; what follows when the
  channel has taken the data is \<open>broadcastTaken\<close>.
\<close>

definition BroadcastOnChannel :: "('e, 'c, 'sk) handler_ops \<Rightarrow> string \<Rightarrow> string \<Rightarrow> bytes \<Rightarrow> ('e, 'c, 'sk) messagesHandler
  \<Rightarrow> 'sk broadcast_state \<times> ('e, 'c, 'sk) messagesHandler" where
  "BroadcastOnChannel ops channel topic buff handler = broadcastOnChannelBlocking ops channel topic buff handler"

definition broadcastTaken :: "('e, 'c, 'sk) handler_ops \<Rightarrow> ('e, 'c, 'sk) messagesHandler \<Rightarrow> ('e, 'c, 'sk) messagesHandler" where
  "broadcastTaken ops handler = handler\<lparr>h_env := ho_EndProcessing ops (h_env handler)\<rparr>"

definition Broadcast_topic :: "('e, 'c, 'sk) handler_ops \<Rightarrow> string \<Rightarrow> bytes \<Rightarrow> ('e, 'c, 'sk) messagesHandler
  \<Rightarrow> 'sk broadcast_state \<times> ('e, 'c, 'sk) messagesHandler" where
  "Broadcast_topic ops topic buff handler = BroadcastOnChannel ops topic topic buff handler"

definition broadcastOnChannelBlockingUsingPrivateKey ::
  "('e, 'c, 'sk) handler_ops \<Rightarrow> string \<Rightarrow> string \<Rightarrow> bytes \<Rightarrow> peerid \<Rightarrow> bytes \<Rightarrow> ('e, 'c, 'sk) messagesHandler
   \<Rightarrow> 'sk broadcast_state \<times> ('e, 'c, 'sk) messagesHandler" where
  "broadcastOnChannelBlockingUsingPrivateKey ops channel topic buff pid skBytes handler =
     (case ho_UnmarshalSk ops skBytes of
        Inl err \<Rightarrow> (BroadcastFailed err, handler)
      | Inr sk \<Rightarrow>
          broadcastSendable ops channel \<lparr>sd_Buff = buff, sd_Topic = topic, sd_Sk = Some sk, sd_ID = pid\<rparr> handler)"

definition BroadcastOnChannelUsingPrivateKey ::
  "('e, 'c, 'sk) handler_ops \<Rightarrow> string \<Rightarrow> string \<Rightarrow> bytes \<Rightarrow> peerid \<Rightarrow> bytes \<Rightarrow> ('e, 'c, 'sk) messagesHandler
   \<Rightarrow> 'sk broadcast_state \<times> ('e, 'c, 'sk) messagesHandler" where
  "BroadcastOnChannelUsingPrivateKey ops channel topic buff pid skBytes handler =
     broadcastOnChannelBlockingUsingPrivateKey ops channel topic buff pid skBytes handler"

definition BroadcastUsingPrivateKey ::
  "('e, 'c, 'sk) handler_ops \<Rightarrow> string \<Rightarrow> bytes \<Rightarrow> peerid \<Rightarrow> bytes \<Rightarrow> ('e, 'c, 'sk) messagesHandler
   \<Rightarrow> 'sk broadcast_state \<times> ('e, 'c, 'sk) messagesHandler" where
  "BroadcastUsingPrivateKey ops topic buff pid skBytes handler =
     BroadcastOnChannelUsingPrivateKey ops topic topic buff pid skBytes handler"

definition publish :: "('e, 'c, 'sk) handler_ops \<Rightarrow> nat \<Rightarrow> 'sk SendableData \<Rightarrow> bytes \<Rightarrow> ('e, 'c, 'sk) messagesHandler
  \<Rightarrow> p2p_error option \<times> ('e, 'c, 'sk) messagesHandler" where
  "publish ops topic data packedSendableDataBuff handler =
     (let options = map_option (\<lambda>sk. (sk, sd_ID data)) (sd_Sk data);
          (err, env) = ho_Publish ops topic packedSendableDataBuff options (h_env handler)
      in (err, handler\<lparr>h_env := env\<rparr>))"

text \<open>One turn of the loop of \<^verbatim>\<open>processChannelLoadBalancer\<close>, with what was collected.\<close>

definition processSendable :: "('e, 'c, 'sk) handler_ops \<Rightarrow> int \<Rightarrow> 'sk SendableData option \<Rightarrow> ('e, 'c, 'sk) messagesHandler
  \<Rightarrow> ('e, 'c, 'sk) messagesHandler" where
  "processSendable ops now obj handler =
     (case obj of
        None \<Rightarrow> handler
      | Some sendableData \<Rightarrow>
     (case h_topics handler (sd_Topic sendableData) of
        None \<Rightarrow> handler
      | Some topic \<Rightarrow>
          (let packedSendableDataBuff = createMessageBytes now handler (sd_Buff sendableData)
           in if packedSendableDataBuff = [] then handler
              else snd (publish ops topic sendableData packedSendableDataBuff handler))))"

section \<open>Checking received messages\<close>

definition processDebugMessage :: "string \<Rightarrow> peerid \<Rightarrow> nat \<Rightarrow> bool \<Rightarrow> ('e, 'c, 'sk) messagesHandler \<Rightarrow> ('e, 'c, 'sk) messagesHandler" where
  "processDebugMessage topic fromConnectedPeer sz isRejected handler =
     (if fromConnectedPeer = h_peerID handler
      then handler\<lparr>h_debugger := h_debugger handler @ [AddOutgoingMessage topic sz isRejected]\<rparr>
      else handler\<lparr>h_debugger := h_debugger handler @ [AddIncomingMessage topic sz isRejected]\<rparr>)"

definition validateMessageByTimestamp :: "int \<Rightarrow> Message \<Rightarrow> p2p_error option" where
  "validateMessageByTimestamp now msg =
     (if now + acceptMessagesInAdvanceDuration < sint (TimestampField msg) then Some ErrMessageTooNew
      else
        (let past = now - pubsubTimeCacheDuration
         in if sint (TimestampField msg) < past then Some ErrMessageTooOld else None))"

definition checkMessage :: "int \<Rightarrow> Message \<Rightarrow> peerid \<Rightarrow> string \<Rightarrow> ('e, 'c, 'sk) messagesHandler
  \<Rightarrow> p2p_error option \<times> ('e, 'c, 'sk) messagesHandler" where
  "checkMessage now msg pid topic handler =
     (case validateMessageByTimestamp now msg of
        Some err \<Rightarrow> (Some err, processDebugMessage topic pid (length (DataField msg)) True handler)
      | None \<Rightarrow> (None, handler))"

definition blacklistPid :: "('e, 'c, 'sk) handler_ops \<Rightarrow> peerid \<Rightarrow> int \<Rightarrow> ('e, 'c, 'sk) messagesHandler \<Rightarrow> ('e, 'c, 'sk) messagesHandler" where
  "blacklistPid ops pid banDuration handler =
     (if ho_IsDenied ops pid (h_env handler) then handler
      else if pid = [] then handler
      else handler\<lparr>h_env := snd (ho_UpsertPeerID ops pid banDuration (h_env handler))\<rparr>)"

definition transformAndCheckMessage :: "('e, 'c, 'sk) handler_ops \<Rightarrow> int \<Rightarrow> pb_Message option \<Rightarrow> peerid \<Rightarrow> string
  \<Rightarrow> ('e, 'c, 'sk) messagesHandler \<Rightarrow> Message res \<times> ('e, 'c, 'sk) messagesHandler" where
  "transformAndCheckMessage ops now pbMsg pid topic handler =
     (case NewMessage (ho_pubsub ops) (Some (h_marshaller handler)) pbMsg Broadcast of
        Inl errUnmarshal \<Rightarrow>
          (let handler = blacklistPid ops pid WrongP2PMessageBlacklistDuration handler;
               handler = (case pbMsg of
                            None \<Rightarrow> handler
                          | Some pm \<Rightarrow> (if length (pb_From pm) > 0 then blacklistPid ops (pb_From pm) WrongP2PMessageBlacklistDuration handler
                                        else handler))
           in (Inl errUnmarshal, handler))
      | Inr msg \<Rightarrow>
          (case checkMessage now msg pid topic handler of
             (Some err, handler) \<Rightarrow> (Inl err, handler)
           | (None, handler) \<Rightarrow> (Inr msg, handler)))"

definition isEquivalentMessageFirstBroadcast :: "('e, 'c, 'sk) handler_ops \<Rightarrow> bytes \<Rightarrow> string \<Rightarrow> ('e, 'c, 'sk) messagesHandler
  \<Rightarrow> bool \<times> ('e, 'c, 'sk) messagesHandler" where
  "isEquivalentMessageFirstBroadcast ops messageId topic handler =
     (if length messageId > 0 then
        (case h_equivalentMessages handler topic of
           None \<Rightarrow> (True, handler)
         | Some cache \<Rightarrow>
             (case Get (ho_cache ops) messageId cache of
                (Some _, cache) \<Rightarrow> (False, handler\<lparr>h_equivalentMessages := (h_equivalentMessages handler)(topic \<mapsto> cache)\<rparr>)
              | (None, cache) \<Rightarrow>
                  (True, handler\<lparr>h_equivalentMessages := (h_equivalentMessages handler)(topic \<mapsto> snd (Put (ho_cache ops) messageId () 0 cache))\<rparr>)))
      else (True, handler))"

text \<open>The processors are called one after the other; the identifier of the last call is kept.\<close>

fun callProcessors :: "'e processor list \<Rightarrow> Message \<Rightarrow> peerid \<Rightarrow> bytes \<Rightarrow> bool \<Rightarrow> 'e \<Rightarrow> bytes \<times> bool \<times> 'e" where
  "callProcessors [] msg fromConnectedPeer msgId messageOk e = (msgId, messageOk, e)"
| "callProcessors (msgProc # msgProcessors) msg fromConnectedPeer msgId messageOk e =
     (let ((msgId, err), e) = msgProc msg fromConnectedPeer e
      in callProcessors msgProcessors msg fromConnectedPeer msgId (messageOk \<and> err = None) e)"

definition objectAt :: "('e, 'c, 'sk) messagesHandler \<Rightarrow> nat \<Rightarrow> 'e processor topicProcessors" where
  "objectAt handler a = (case h_objects handler a of None \<Rightarrow> [] | Some tp \<Rightarrow> tp)"

definition pubsubCallback :: "('e, 'c, 'sk) handler_ops \<Rightarrow> nat \<Rightarrow> string \<Rightarrow> int \<Rightarrow> peerid \<Rightarrow> pb_Message \<Rightarrow> ('e, 'c, 'sk) messagesHandler
  \<Rightarrow> bool \<times> ('e, 'c, 'sk) messagesHandler" where
  "pubsubCallback ops topicProcs topic now pid message handler =
     (let fromConnectedPeer = pid
      in case transformAndCheckMessage ops now (Some message) fromConnectedPeer topic handler of
           (Inl err, handler) \<Rightarrow> (False, handler)
         | (Inr msg, handler) \<Rightarrow>
             (let (identifiers, msgProcessors) = GetList (ho_iter ops) (objectAt handler topicProcs);
                  (msgId, messageOk, e) = callProcessors msgProcessors msg fromConnectedPeer [] True (h_env handler);
                  handler = handler\<lparr>h_env := e\<rparr>;
                  handler = processDebugMessage topic fromConnectedPeer (length (pb_Data message)) (\<not> messageOk) handler
              in if messageOk then isEquivalentMessageFirstBroadcast ops msgId topic handler
                 else (False, handler)))"

section \<open>Registering processors\<close>

definition addProcessorAt :: "nat \<Rightarrow> string \<Rightarrow> 'e processor \<Rightarrow> ('e, 'c, 'sk) messagesHandler
  \<Rightarrow> p2p_error option \<times> ('e, 'c, 'sk) messagesHandler" where
  "addProcessorAt a identifier msgProcessor handler =
     (let (err, tp) = AddTopicProcessor identifier msgProcessor (objectAt handler a)
      in (err, handler\<lparr>h_objects := (h_objects handler)(a \<mapsto> tp)\<rparr>))"

definition RegisterMessageProcessor :: "('e, 'c, 'sk) handler_ops \<Rightarrow> string \<Rightarrow> string \<Rightarrow> 'e processor option
  \<Rightarrow> ('e, 'c, 'sk) messagesHandler \<Rightarrow> p2p_error option \<times> ('e, 'c, 'sk) messagesHandler" where
  "RegisterMessageProcessor ops topic identifier msgProcessor handler =
     (case msgProcessor of
        None \<Rightarrow> (Some ErrNilValidator, handler)
      | Some msgProcessor \<Rightarrow>
     (case h_processors handler topic of
        Some (Some topicProcs) \<Rightarrow> addProcessorAt topicProcs identifier msgProcessor handler
      | _ \<Rightarrow>
          (let topicProcs = h_nextObject handler;
               handler = handler\<lparr>h_nextObject := Suc topicProcs, h_objects := (h_objects handler)(topicProcs \<mapsto> newTopicProcessors),
                                 h_processors := (h_processors handler)(topic \<mapsto> Some topicProcs)\<rparr>
           in case ho_RegisterTopicValidator ops topic (h_validators handler) of
                Some err \<Rightarrow> (Some err, handler)
              | None \<Rightarrow>
                  (let handler = handler\<lparr>h_validators := (h_validators handler)(topic \<mapsto> topicProcs)\<rparr>
                   in case ho_NewCache ops equivalentMessagesCacheSize of
                        Inl err \<Rightarrow> (Some err, handler)
                      | Inr cache \<Rightarrow>
                          addProcessorAt topicProcs identifier msgProcessor
                            (handler\<lparr>h_equivalentMessages := (h_equivalentMessages handler)(topic \<mapsto> cache)\<rparr>)))))"

definition unregisterValidator :: "('e, 'c, 'sk) handler_ops \<Rightarrow> string \<Rightarrow> ('e, 'c, 'sk) messagesHandler
  \<Rightarrow> p2p_error option \<times> ('e, 'c, 'sk) messagesHandler" where
  "unregisterValidator ops topic handler =
     (case ho_UnregisterTopicValidator ops topic (h_validators handler) of
        Some err \<Rightarrow> (Some err, handler)
      | None \<Rightarrow> (None, handler\<lparr>h_validators := (h_validators handler)(topic := None)\<rparr>))"

definition UnregisterMessageProcessor :: "('e, 'c, 'sk) handler_ops \<Rightarrow> string \<Rightarrow> string \<Rightarrow> ('e, 'c, 'sk) messagesHandler
  \<Rightarrow> p2p_error option \<times> ('e, 'c, 'sk) messagesHandler" where
  "UnregisterMessageProcessor ops topic identifier handler =
     (case h_processors handler topic of
        Some (Some topicProcs) \<Rightarrow>
          (case RemoveTopicProcessor identifier (objectAt handler topicProcs) of
             (Some err, tp) \<Rightarrow> (Some err, handler)
           | (None, tp) \<Rightarrow>
               (let handler = handler\<lparr>h_objects := (h_objects handler)(topicProcs \<mapsto> tp)\<rparr>;
                    (identifiers, _) = GetList (ho_iter ops) tp
                in if length identifiers = 0
                   then unregisterValidator ops topic (handler\<lparr>h_processors := (h_processors handler)(topic \<mapsto> None)\<rparr>)
                   else (None, handler)))
      | _ \<Rightarrow> (None, handler))"

text \<open>\<open>topics\<close> lists the keys of the map \<^verbatim>\<open>processors\<close> in the order of the iteration.\<close>

fun UnregisterAllMessageProcessors :: "('e, 'c, 'sk) handler_ops \<Rightarrow> string list \<Rightarrow> ('e, 'c, 'sk) messagesHandler
  \<Rightarrow> p2p_error option \<times> ('e, 'c, 'sk) messagesHandler" where
  "UnregisterAllMessageProcessors ops [] handler = (None, handler)"
| "UnregisterAllMessageProcessors ops (topic # topics) handler =
     (case unregisterValidator ops topic handler of
        (Some err, handler) \<Rightarrow> (Some err, handler)
      | (None, handler) \<Rightarrow>
          UnregisterAllMessageProcessors ops topics (handler\<lparr>h_processors := (h_processors handler)(topic := None)\<rparr>))"

section \<open>Direct messages\<close>

definition increaseRatingIfNeeded :: "('e, 'c, 'sk) handler_ops \<Rightarrow> string \<Rightarrow> Message \<Rightarrow> peerid \<Rightarrow> ('e, 'c, 'sk) messagesHandler
  \<Rightarrow> ('e, 'c, 'sk) messagesHandler" where
  "increaseRatingIfNeeded ops TopicRequestSuffix msg fromConnectedPeer handler =
     (let isDirectMessage = (BroadcastMethodField msg = Direct);
          isRequestMessage = strings_Contains (TopicField msg) TopicRequestSuffix;
          shouldIncreaseRating = (isDirectMessage \<and> \<not> isRequestMessage)
      in if shouldIncreaseRating then handler\<lparr>h_env := ho_IncreaseRating ops fromConnectedPeer (h_env handler)\<rparr> else handler)"

text \<open>The go routine that \<^verbatim>\<open>ProcessReceivedMessage\<close> starts.\<close>

definition processDirect :: "('e, 'c, 'sk) handler_ops \<Rightarrow> string \<Rightarrow> 'e processor list \<Rightarrow> Message \<Rightarrow> peerid \<Rightarrow> ('e, 'c, 'sk) messagesHandler
  \<Rightarrow> ('e, 'c, 'sk) messagesHandler" where
  "processDirect ops TopicRequestSuffix msgProcessors msg fromConnectedPeer handler =
     (let (_, messageOk, e) = callProcessors msgProcessors msg fromConnectedPeer [] True (h_env handler);
          handler = handler\<lparr>h_env := e\<rparr>;
          handler = handler\<lparr>h_debugger := h_debugger handler @ [AddIncomingMessage (TopicField msg) (length (DataField msg)) (\<not> messageOk)]\<rparr>
      in if messageOk then increaseRatingIfNeeded ops TopicRequestSuffix msg fromConnectedPeer handler else handler)"

text \<open>The result has the processors of the go routine that is started, if one is.\<close>

definition ProcessReceivedMessage :: "('e, 'c, 'sk) handler_ops \<Rightarrow> int \<Rightarrow> Message option \<Rightarrow> peerid \<Rightarrow> bool \<Rightarrow> ('e, 'c, 'sk) messagesHandler
  \<Rightarrow> p2p_error option \<times> 'e processor list option \<times> ('e, 'c, 'sk) messagesHandler" where
  "ProcessReceivedMessage ops now message fromConnectedPeer nilSource handler =
     (case message of
        None \<Rightarrow> (None, None, handler)
      | Some message \<Rightarrow>
          (if nilSource then (None, None, handler)
           else
             (let topic = TopicField message
              in case checkMessage now message fromConnectedPeer topic handler of
                   (Some err, handler) \<Rightarrow> (Some err, None, handler)
                 | (None, handler) \<Rightarrow>
                     (case h_processors handler topic of
                        Some (Some topicProcs) \<Rightarrow> (None, Some (snd (GetList (ho_iter ops) (objectAt handler topicProcs))), handler)
                      | _ \<Rightarrow> (Some ErrNilValidator, None, handler)))))"

text \<open>The whole: the checks, and then the go routine.\<close>

definition processReceived :: "('e, 'c, 'sk) handler_ops \<Rightarrow> string \<Rightarrow> int \<Rightarrow> Message \<Rightarrow> peerid \<Rightarrow> ('e, 'c, 'sk) messagesHandler
  \<Rightarrow> p2p_error option \<times> ('e, 'c, 'sk) messagesHandler" where
  "processReceived ops TopicRequestSuffix now message fromConnectedPeer handler =
     (case ProcessReceivedMessage ops now (Some message) fromConnectedPeer False handler of
        (err, None, handler) \<Rightarrow> (err, handler)
      | (err, Some msgProcessors, handler) \<Rightarrow>
          (err, processDirect ops TopicRequestSuffix msgProcessors message fromConnectedPeer handler))"

definition sendDirectToSelf :: "('e, 'c, 'sk) handler_ops \<Rightarrow> string \<Rightarrow> int \<Rightarrow> string \<Rightarrow> bytes \<Rightarrow> ('e, 'c, 'sk) messagesHandler
  \<Rightarrow> p2p_error option \<times> ('e, 'c, 'sk) messagesHandler" where
  "sendDirectToSelf ops TopicRequestSuffix now topic buff handler =
     (let (seqno, e) = ho_NextSequenceNumber ops (h_env handler);
          handler = handler\<lparr>h_env := e\<rparr>;
          pubSubMsg = \<lparr>pb_From = h_peerID handler, pb_Data = buff, pb_Seqno = seqno, pb_Topic = Some topic,
                       pb_Signature = h_peerID handler, pb_Key = None\<rparr>
      in case NewMessage (ho_pubsub ops) (Some (h_marshaller handler)) (Some pubSubMsg) Direct of
           Inl err \<Rightarrow> (Some err, handler)
         | Inr msg \<Rightarrow> processReceived ops TopicRequestSuffix now msg (h_peerID handler) handler)"

definition SendToConnectedPeer :: "('e, 'c, 'sk) handler_ops \<Rightarrow> string \<Rightarrow> int \<Rightarrow> string \<Rightarrow> bytes \<Rightarrow> peerid \<Rightarrow> ('e, 'c, 'sk) messagesHandler
  \<Rightarrow> p2p_error option \<times> ('e, 'c, 'sk) messagesHandler" where
  "SendToConnectedPeer ops TopicRequestSuffix now topic buff peerID handler =
     (case checkSendableData buff of
        Some err \<Rightarrow> (Some err, handler)
      | None \<Rightarrow>
          (let buffToSend = createMessageBytes now handler buff
           in if buffToSend = [] then (None, handler)
              else if peerID = h_peerID handler then sendDirectToSelf ops TopicRequestSuffix now topic buffToSend handler
              else
                (let (err, e) = ho_DirectSend ops topic buffToSend peerID (h_env handler)
                 in (err, handler\<lparr>h_env := e,
                     h_debugger := h_debugger handler @ [AddOutgoingMessage topic (length buffToSend) (err \<noteq> None)]\<rparr>))))"

section \<open>Topics\<close>

definition CreateTopic :: "('e, 'c, 'sk) handler_ops \<Rightarrow> string \<Rightarrow> bool \<Rightarrow> ('e, 'c, 'sk) messagesHandler
  \<Rightarrow> p2p_error option \<times> ('e, 'c, 'sk) messagesHandler" where
  "CreateTopic ops name createChannelForTopic handler =
     (case h_topics handler name of
        Some _ \<Rightarrow> (None, handler)
      | None \<Rightarrow>
     (case ho_Join ops name of
        Inl err \<Rightarrow> (Some err, handler)
      | Inr topic \<Rightarrow>
          (let handler = handler\<lparr>h_topics := (h_topics handler)(name \<mapsto> topic)\<rparr>
           in case ho_Subscribe ops topic of
                Inl err \<Rightarrow> (Some err, handler)
              | Inr subscrRequest \<Rightarrow>
                  (let handler = handler\<lparr>h_subscriptions := (h_subscriptions handler)(name \<mapsto> subscrRequest)\<rparr>
                   in if createChannelForTopic then
                        (let (err, oclb) = AddChannel name (h_outgoingCLB handler) in (err, handler\<lparr>h_outgoingCLB := oclb\<rparr>))
                      else (None, handler)))))"

definition HasTopic :: "string \<Rightarrow> ('e, 'c, 'sk) messagesHandler \<Rightarrow> bool" where
  "HasTopic name handler = (h_topics handler name \<noteq> None)"

text \<open>\<open>topicNames\<close> lists the keys of the map \<^verbatim>\<open>topics\<close> in the order of the iteration.\<close>

fun UnJoinAllTopics_loop :: "('e, 'c, 'sk) handler_ops \<Rightarrow> string list \<Rightarrow> p2p_error option \<Rightarrow> ('e, 'c, 'sk) messagesHandler
  \<Rightarrow> p2p_error option \<times> ('e, 'c, 'sk) messagesHandler" where
  "UnJoinAllTopics_loop ops [] errFound handler = (errFound, handler)"
| "UnJoinAllTopics_loop ops (topicName # topicNames) errFound handler =
     (case h_topics handler topicName of
        None \<Rightarrow> UnJoinAllTopics_loop ops topicNames errFound handler
      | Some t \<Rightarrow>
          (let handler = (case h_subscriptions handler topicName of
                            None \<Rightarrow> handler
                          | Some subscription \<Rightarrow> handler\<lparr>h_cancelled := insert subscription (h_cancelled handler)\<rparr>);
               err = ho_TopicClose ops t;
               errFound = (if err \<noteq> None then err else errFound)
           in UnJoinAllTopics_loop ops topicNames errFound (handler\<lparr>h_topics := (h_topics handler)(topicName := None)\<rparr>)))"

definition UnJoinAllTopics :: "('e, 'c, 'sk) handler_ops \<Rightarrow> string list \<Rightarrow> ('e, 'c, 'sk) messagesHandler
  \<Rightarrow> p2p_error option \<times> ('e, 'c, 'sk) messagesHandler" where
  "UnJoinAllTopics ops topicNames handler = UnJoinAllTopics_loop ops topicNames None handler"

text \<open>A debugger is represented by the calls it has received.\<close>

definition SetDebugger :: "debug_call list option \<Rightarrow> ('e, 'c, 'sk) messagesHandler \<Rightarrow> p2p_error option \<times> ('e, 'c, 'sk) messagesHandler" where
  "SetDebugger debugger handler =
     (case debugger of None \<Rightarrow> (Some ErrNilDebugger, handler) | Some d \<Rightarrow> (None, handler\<lparr>h_debugger := d\<rparr>))"

text \<open>\<^verbatim>\<open>Close\<close>; \<open>closeDebugger\<close> is what \<^verbatim>\<open>debugger.Close\<close> answers.\<close>

definition handler_Close :: "p2p_error option \<Rightarrow> ('e, 'c, 'sk) messagesHandler \<Rightarrow> p2p_error option \<times> ('e, 'c, 'sk) messagesHandler" where
  "handler_Close closeDebugger handler =
     (let handler = handler\<lparr>h_ctxDone := True\<rparr>;
          (errOCLB, oclb) = oclb_Close (h_outgoingCLB handler);
          handler = handler\<lparr>h_outgoingCLB := oclb\<rparr>;
          err = errOCLB;
          err = (if closeDebugger \<noteq> None then closeDebugger else err)
      in (err, handler))"

section \<open>Validation of received messages\<close>

lemma validate_iff:
  "validateMessageByTimestamp now msg = None \<longleftrightarrow>
     now - pubsubTimeCacheDuration \<le> sint (TimestampField msg) \<and> sint (TimestampField msg) \<le> now + acceptMessagesInAdvanceDuration"
  by (auto simp: validateMessageByTimestamp_def Let_def)

text \<open>The answers of the processors, each called in the state the previous one left.\<close>

fun answers :: "'e processor list \<Rightarrow> Message \<Rightarrow> peerid \<Rightarrow> 'e \<Rightarrow> (bytes \<times> p2p_error option) list" where
  "answers [] msg pid e = []"
| "answers (p # ps) msg pid e = fst (p msg pid e) # answers ps msg pid (snd (p msg pid e))"

lemma callProcessors_ok:
  "fst (snd (callProcessors ps msg pid i ok e)) \<longleftrightarrow> ok \<and> (\<forall>a \<in> set (answers ps msg pid e). snd a = None)"
  by (induction ps arbitrary: i ok e) (auto split: prod.splits)

lemma callProcessors_id:
  "fst (callProcessors ps msg pid i ok e) = (if ps = [] then i else fst (last (answers ps msg pid e)))"
proof (induction ps arbitrary: i ok e)
  case (Cons p ps)
  obtain i1 err e1 where p: "p msg pid e = ((i1, err), e1)" by (metis prod.exhaust)
  have "answers ps msg pid e1 = [] \<longleftrightarrow> ps = []" by (cases ps) simp_all
  with Cons.IH p show ?case by simp
qed simp

lemma transform_Inr:
  assumes "transformAndCheckMessage ops now (Some pm) pid topic h = (Inr msg, h')"
  shows "h' = h" "NewMessage (ho_pubsub ops) (Some (h_marshaller h)) (Some pm) Broadcast = Inr msg" "validateMessageByTimestamp now msg = None"
  using assms
  by (auto simp: transformAndCheckMessage_def checkMessage_def Let_def split: sum.splits prod.splits option.splits)

text \<open>A message that passes the checks goes to all processors of the topic, and is then looked up among the equivalent ones.\<close>

lemma pubsubCallback_delivers:
  assumes "NewMessage (ho_pubsub ops) (Some (h_marshaller h)) (Some pm) Broadcast = Inr msg" and "validateMessageByTimestamp now msg = None"
    and "callProcessors (snd (GetList (ho_iter ops) (objectAt h a))) msg p [] True (h_env h) = (i, ok, e)"
  shows "pubsubCallback ops a topic now p pm h =
    (if ok then isEquivalentMessageFirstBroadcast ops i topic (processDebugMessage topic p (length (pb_Data pm)) False (h\<lparr>h_env := e\<rparr>))
     else (False, processDebugMessage topic p (length (pb_Data pm)) True (h\<lparr>h_env := e\<rparr>)))"
proof -
  have "transformAndCheckMessage ops now (Some pm) p topic h = (Inr msg, h)"
    using assms(1,2) by (simp add: transformAndCheckMessage_def checkMessage_def)
  with assms(3) show ?thesis by (auto simp: pubsubCallback_def Let_def split: prod.split)
qed

lemma processDebug_fields:
  "h_equivalentMessages (processDebugMessage t p n r h) = h_equivalentMessages h"
  "h_processors (processDebugMessage t p n r h) = h_processors h" "h_validators (processDebugMessage t p n r h) = h_validators h"
  "h_objects (processDebugMessage t p n r h) = h_objects h" "h_nextObject (processDebugMessage t p n r h) = h_nextObject h"
  "h_env (processDebugMessage t p n r h) = h_env h"
  by (simp_all add: processDebugMessage_def)

lemma first_broadcast_once:
  assumes "cacher (ho_cache ops) view" and "isEquivalentMessageFirstBroadcast ops i topic h = (True, h')" and "i \<noteq> []"
    and "h_equivalentMessages h topic = Some c"
  shows "view c i = None" and "fst (isEquivalentMessageFirstBroadcast ops i topic h') = False"
proof -
  obtain c1 where g: "Get (ho_cache ops) i c = (view c i, c1)"
    by (metis cacher.get_val [OF assms(1)] prod.collapse)
  with assms(2-4) show n: "view c i = None"
    by (auto simp: isEquivalentMessageFirstBroadcast_def split: option.splits)
  let ?c2 = "snd (Put (ho_cache ops) i () 0 c1)"
  have h': "h_equivalentMessages h' topic = Some ?c2"
    using assms(2-4) g n by (auto simp: isEquivalentMessageFirstBroadcast_def)
  have "fst (Get (ho_cache ops) i ?c2) = Some ()"
    by (simp add: cacher.get_val [OF assms(1)] cacher.put_same [OF assms(1)])
  with h' assms(3) show "fst (isEquivalentMessageFirstBroadcast ops i topic h') = False"
    by (auto simp: isEquivalentMessageFirstBroadcast_def split: prod.splits)
qed

section \<open>Processors and validators\<close>

text \<open>
  Of pubsub: a topic has at most one validator, and only a registered one can be unregistered.
  \<open>lrucache.NewCache\<close> succeeds with the fixed positive size.
\<close>

definition handler_laws :: "('e, 'c, 'sk) handler_ops \<Rightarrow> bool" where
  "handler_laws ops \<longleftrightarrow>
     (\<forall>topic v. ho_RegisterTopicValidator ops topic v = None \<longleftrightarrow> v topic = None) \<and>
     (\<forall>topic v. ho_UnregisterTopicValidator ops topic v = None \<longleftrightarrow> v topic \<noteq> None) \<and>
     (\<exists>c. ho_NewCache ops equivalentMessagesCacheSize = Inr c) \<and> iterates (ho_iter ops)"

definition handler_ok :: "('e, 'c, 'sk) messagesHandler \<Rightarrow> bool" where
  "handler_ok h \<longleftrightarrow>
     (\<forall>topic. h_validators h topic = (case h_processors h topic of Some (Some a) \<Rightarrow> Some a | _ \<Rightarrow> None)) \<and>
     (\<forall>topic a. h_validators h topic = Some a \<longrightarrow> a < h_nextObject h \<and> objectAt h a \<noteq> [] \<and> distinct (map fst (objectAt h a))) \<and>
     (\<forall>topic topic' a. h_validators h topic = Some a \<longrightarrow> h_validators h topic' = Some a \<longrightarrow> topic = topic')"

text \<open>
  Of pubsub, whatever else makes its calls fail (its context has ended, say): a registration that succeeds was of a topic
  without a validator, an unregistration that succeeds of a topic with one.
\<close>

definition pubsub_laws :: "('e, 'c, 'sk) handler_ops \<Rightarrow> bool" where
  "pubsub_laws ops \<longleftrightarrow>
     (\<forall>topic v. ho_RegisterTopicValidator ops topic v = None \<longrightarrow> v topic = None) \<and>
     (\<forall>topic v. ho_UnregisterTopicValidator ops topic v = None \<longrightarrow> v topic \<noteq> None) \<and> iterates (ho_iter ops)"

lemma handler_pubsub_laws: "handler_laws ops \<Longrightarrow> pubsub_laws ops"
  by (simp add: handler_laws_def pubsub_laws_def)

definition has_processors :: "('e, 'c, 'sk) messagesHandler \<Rightarrow> string \<Rightarrow> bool" where
  "has_processors h topic \<longleftrightarrow> (case h_processors h topic of Some (Some a) \<Rightarrow> True | _ \<Rightarrow> False)"

text \<open>
  The steps: the operations on processors, and whatever leaves these parts of the state alone. Each step has
  collaborators of its own, so that pubsub may answer differently at each call. The second part of the state records the
  topics for which pubsub refused a call: the first registration for a topic without processors, or the
  unregistration after its last processor was removed.
\<close>

inductive handler_step :: "('e, 'c, 'sk) messagesHandler \<times> string set \<Rightarrow> ('e, 'c, 'sk) messagesHandler \<times> string set \<Rightarrow> bool" where
  register: "pubsub_laws ops \<Longrightarrow> RegisterMessageProcessor ops topic identifier p h = (r, h')
    \<Longrightarrow> handler_step (h, refused) (h', if r \<noteq> None \<and> p \<noteq> None \<and> \<not> has_processors h topic then insert topic refused else refused)"
| unregister: "pubsub_laws ops \<Longrightarrow> UnregisterMessageProcessor ops topic identifier h = (r, h')
    \<Longrightarrow> handler_step (h, refused) (h', if r \<noteq> None \<and> has_processors h topic \<and> \<not> has_processors h' topic then insert topic refused else refused)"
| unregister_all: "pubsub_laws ops \<Longrightarrow> UnregisterAllMessageProcessors ops topics h = (r, h') \<Longrightarrow> handler_step (h, refused) (h', refused)"
| callback: "h_validators h topic = Some a \<Longrightarrow> pubsubCallback ops a topic now pid pm h = (r, h') \<Longrightarrow> handler_step (h, refused) (h', refused)"
| direct: "processReceived ops suffix now m pid h = (r, h') \<Longrightarrow> handler_step (h, refused) (h', refused)"

inductive handler_reach :: "('e, 'c, 'sk) messagesHandler \<Rightarrow> ('e, 'c, 'sk) messagesHandler \<times> string set \<Rightarrow> bool" for h0 where
  start: "handler_reach h0 (h0, {})"
| step: "handler_reach h0 s \<Longrightarrow> handler_step s s' \<Longrightarrow> handler_reach h0 s'"

text \<open>The objects that a topic refers to, through pubsub or through the map of processors, and what holds outside \<open>refused\<close>.\<close>

definition refs :: "('e, 'c, 'sk) messagesHandler \<Rightarrow> string \<Rightarrow> nat set" where
  "refs h topic = {a. h_validators h topic = Some a \<or> h_processors h topic = Some (Some a)}"

definition matched :: "('e, 'c, 'sk) messagesHandler \<Rightarrow> string \<Rightarrow> bool" where
  "matched h topic \<longleftrightarrow> h_validators h topic = (case h_processors h topic of Some (Some a) \<Rightarrow> Some a | _ \<Rightarrow> None) \<and>
     (\<forall>a. h_validators h topic = Some a \<longrightarrow> objectAt h a \<noteq> [])"

definition ok_except :: "string set \<Rightarrow> ('e, 'c, 'sk) messagesHandler \<Rightarrow> bool" where
  "ok_except refused h \<longleftrightarrow> (\<forall>t. t \<notin> refused \<longrightarrow> matched h t) \<and> (\<forall>a. distinct (map fst (objectAt h a))) \<and>
     (\<forall>t a. a \<in> refs h t \<longrightarrow> a < h_nextObject h) \<and> (\<forall>t t' a. a \<in> refs h t \<longrightarrow> a \<in> refs h t' \<longrightarrow> t = t')"

lemma ok_except_cong:
  assumes "ok_except refused h" and "h_processors h' = h_processors h" "h_validators h' = h_validators h" "h_objects h' = h_objects h"
    "h_nextObject h' = h_nextObject h"
  shows "ok_except refused h'"
  using assms by (simp add: ok_except_def matched_def refs_def objectAt_def)

lemma ok_except_new: "NewMessagesHandler r env args = Inr h \<Longrightarrow> ok_except {} h"
  by (auto simp: NewMessagesHandler_def ok_except_def matched_def refs_def objectAt_def split: option.splits)

lemma AddTopicProcessor_result:
  "AddTopicProcessor i p tp = (r, tp') \<Longrightarrow> tp' \<noteq> []" 
  by (cases tp) (auto simp: AddTopicProcessor_def split: if_splits)

text \<open>A change at one topic: it may only touch the objects of that topic and one new object.\<close>

lemma ok_except_local:
  assumes "ok_except refused h" and "refused \<subseteq> refused'"
    and other: "\<And>t. t \<noteq> topic \<Longrightarrow> h_validators h' t = h_validators h t \<and> h_processors h' t = h_processors h t"
    and refs: "refs h' topic \<subseteq> refs h topic \<union> {h_nextObject h}" "\<And>a. a \<in> refs h' topic \<Longrightarrow> a < h_nextObject h'" "h_nextObject h \<le> h_nextObject h'"
    and obj: "\<And>b. b \<notin> refs h topic \<Longrightarrow> b \<noteq> h_nextObject h \<Longrightarrow> objectAt h' b = objectAt h b" "\<And>b. distinct (map fst (objectAt h' b))"
    and here: "topic \<notin> refused' \<Longrightarrow> matched h' topic"
  shows "ok_except refused' h'"
proof -
  have other_refs: "refs h' t = refs h t" if "t \<noteq> topic" for t using other [OF that] by (simp add: refs_def)
  have less: "a < h_nextObject h" if "a \<in> refs h t" for t a using assms(1) that by (auto simp: ok_except_def)
  have apart: "t = t'" if "a \<in> refs h t" "a \<in> refs h t'" for t t' a using assms(1) that by (auto simp: ok_except_def)
  have away: "matched h' t" if t: "t \<noteq> topic" "t \<notin> refused'" for t
  proof -
    have m: "matched h t" using assms(1,2) t(2) by (auto simp: ok_except_def)
    have "objectAt h' a = objectAt h a" if "h_validators h t = Some a" for a
    proof (rule obj(1))
      have a: "a \<in> refs h t" using that by (simp add: refs_def)
      then show "a \<noteq> h_nextObject h" "a \<notin> refs h topic" using less apart t(1) by blast+
    qed
    with m other [OF t(1)] show ?thesis by (auto simp: matched_def)
  qed
  have "matched h' t" if "t \<notin> refused'" for t
    using that away here by (cases "t = topic") blast+
  moreover have "a < h_nextObject h'" if "a \<in> refs h' t" for t a
    using that refs(2,3) less other_refs by (cases "t = topic") (auto intro: less_le_trans)
  moreover have "t = t'" if "a \<in> refs h' t" "a \<in> refs h' t'" for t t' a
  proof -
    have "a \<in> refs h u \<or> u = topic \<and> a = h_nextObject h" if "a \<in> refs h' u" for u
      using that refs(1) other_refs by (cases "u = topic") auto
    with that less apart show ?thesis by (metis less_irrefl)
  qed
  ultimately show ?thesis using obj(2) unfolding ok_except_def by blast
qed

lemma ok_except_object:
  assumes "ok_except refused h" and "a \<in> refs h topic" and "tp \<noteq> []" "distinct (map fst tp)"
  shows "ok_except refused (h\<lparr>h_objects := (h_objects h)(a \<mapsto> tp)\<rparr>)"
  using assms
  by (intro ok_except_local [OF assms(1) subset_refl, of topic]) (auto simp: refs_def objectAt_def ok_except_def matched_def)

lemma has_processors_iff: "has_processors h topic \<longleftrightarrow> (\<exists>a. h_processors h topic = Some (Some a))"
  by (auto simp: has_processors_def split: option.splits)

lemma Register_live:
  assumes "ok_except refused h" and "h_processors h topic = Some (Some a)" and "RegisterMessageProcessor ops topic i (Some p) h = (r, h')"
  shows "ok_except refused h'"
proof -
  obtain err tp where tp: "AddTopicProcessor i p (objectAt h a) = (err, tp)" by fastforce
  with assms(2,3) have h': "h' = h\<lparr>h_objects := (h_objects h)(a \<mapsto> tp)\<rparr>"
    by (simp add: RegisterMessageProcessor_def addProcessorAt_def)
  have "distinct (map fst (objectAt h a))" using assms(1) by (simp add: ok_except_def)
  from distinct_processors_Add [OF this tp] show ?thesis
    unfolding h' using assms(2) by (intro ok_except_object [OF assms(1) _ AddTopicProcessor_result [OF tp], of _ topic]) (simp_all add: refs_def)
qed

text \<open>The first registration: a new object for the topic, which is in pubsub and not empty when no error is returned.\<close>

lemma Register_first_result:
  assumes "\<not> has_processors h topic" and "RegisterMessageProcessor ops topic i (Some p) h = (r, h')"
  obtains tp where "h_processors h' = (h_processors h)(topic \<mapsto> Some (h_nextObject h))" "h_nextObject h' = Suc (h_nextObject h)"
    "h_objects h' = (h_objects h)(h_nextObject h \<mapsto> tp)" "distinct (map fst tp)"
    "h_validators h' = h_validators h \<and> r \<noteq> None \<and> tp = [] \<or>
     h_validators h' = (h_validators h)(topic \<mapsto> h_nextObject h) \<and> (r = None \<longrightarrow> tp \<noteq> []) \<and>
       ho_RegisterTopicValidator ops topic (h_validators h) = None"
proof (cases "ho_RegisterTopicValidator ops topic (h_validators h)")
  case None
  with assms that show ?thesis
    by (auto simp: RegisterMessageProcessor_def has_processors_def addProcessorAt_def AddTopicProcessor_def newTopicProcessors_def
        objectAt_def Let_def split: option.splits sum.splits)
next
  case (Some err)
  with assms have "r = Some err" "h' = h\<lparr>h_nextObject := Suc (h_nextObject h), h_objects := (h_objects h)(h_nextObject h \<mapsto> []),
      h_processors := (h_processors h)(topic \<mapsto> Some (h_nextObject h))\<rparr>"
    by (auto simp: RegisterMessageProcessor_def has_processors_def newTopicProcessors_def Let_def split: option.splits)
  then show ?thesis by (intro that [of "[]"]) simp_all
qed

lemma Register_first:
  assumes "pubsub_laws ops" and "ok_except refused h" and "\<not> has_processors h topic"
    and "RegisterMessageProcessor ops topic i (Some p) h = (r, h')"
  shows "ok_except (if r \<noteq> None then insert topic refused else refused) h'"
proof -
  obtain tp where h': "h_processors h' = (h_processors h)(topic \<mapsto> Some (h_nextObject h))" "h_nextObject h' = Suc (h_nextObject h)"
    "h_objects h' = (h_objects h)(h_nextObject h \<mapsto> tp)" "distinct (map fst tp)"
    "h_validators h' = h_validators h \<and> r \<noteq> None \<and> tp = [] \<or>
     h_validators h' = (h_validators h)(topic \<mapsto> h_nextObject h) \<and> (r = None \<longrightarrow> tp \<noteq> []) \<and>
       ho_RegisterTopicValidator ops topic (h_validators h) = None"
    by (rule Register_first_result [OF assms(3,4)])
  have old: "a < h_nextObject h" if "h_validators h topic = Some a" for a using assms(2) that by (auto simp: ok_except_def refs_def)
  have obj: "objectAt h' b = (if b = h_nextObject h then tp else objectAt h b)" for b by (simp add: objectAt_def h'(3))
  show ?thesis
  proof (rule ok_except_local [OF assms(2), of _ topic])
    fix b
    show "distinct (map fst (objectAt h' b))" using assms(2) h'(4) by (simp add: obj ok_except_def)
  qed (use h' old in \<open>auto simp: refs_def obj matched_def split: if_splits intro: less_SucI\<close>)
qed

lemma Unregister_ok:
  assumes "pubsub_laws ops" and "ok_except refused h" and "UnregisterMessageProcessor ops topic i h = (r, h')"
  shows "ok_except (if r \<noteq> None \<and> has_processors h topic \<and> \<not> has_processors h' topic then insert topic refused else refused) h'"
proof (cases "has_processors h topic")
  case False
  with assms(2,3) show ?thesis by (auto simp: UnregisterMessageProcessor_def has_processors_def split: option.splits)
next
  case True
  then obtain a where a: "h_processors h topic = Some (Some a)" by (auto simp: has_processors_iff)
  have d: "distinct (map fst (objectAt h b))" for b using assms(2) by (simp add: ok_except_def)
  obtain err tp where tp: "RemoveTopicProcessor i (objectAt h a) = (err, tp)" by fastforce
  note dtp = distinct_processors_Remove [OF d tp]
  show ?thesis
  proof (cases "err = None \<and> tp = []")
    case last: True
    let ?h = "h\<lparr>h_objects := (h_objects h)(a \<mapsto> tp), h_processors := (h_processors h)(topic \<mapsto> None)\<rparr>"
    have "ho_iter ops tp = []" using assms(1) last by (simp add: pubsub_laws_def iterates_Nil)
    with assms(3) a tp last have h': "r \<noteq> None \<and> h' = ?h \<or> r = None \<and> h' = ?h\<lparr>h_validators := (h_validators h)(topic := None)\<rparr>"
      by (auto simp: UnregisterMessageProcessor_def unregisterValidator_def GetList_def Let_def split: option.splits)
    have obj: "objectAt h' b = (if b = a then [] else objectAt h b)" for b using h' last by (auto simp: objectAt_def)
    have mine: "a \<in> refs h topic" using a by (simp add: refs_def)
    have less: "b < h_nextObject h" if "b \<in> refs h topic" for b using assms(2) that by (auto simp: ok_except_def)
    have sub: "refs h' topic \<subseteq> refs h topic" using h' by (auto simp: refs_def)
    have gone: "\<not> has_processors h' topic" using h' by (auto simp: has_processors_def)
    show ?thesis
    proof (rule ok_except_local [OF assms(2), of _ topic])
      show "distinct (map fst (objectAt h' b))" for b using d by (simp add: obj)
      show "objectAt h' b = objectAt h b" if "b \<notin> refs h topic" for b using that mine by (auto simp: obj)
      show "b < h_nextObject h'" if "b \<in> refs h' topic" for b using less [of b] sub that h' by auto
      show "matched h' topic" if "topic \<notin> (if r \<noteq> None \<and> has_processors h topic \<and> \<not> has_processors h' topic then insert topic refused else refused)"
        using that h' True gone by (auto simp: matched_def split: if_splits)
    qed (use h' sub in auto)
  next
    case False
    then have "ho_iter ops tp \<noteq> []" if "err = None" using assms(1) that by (simp add: pubsub_laws_def iterates_Nil)
    with assms(3) a tp have h': "h' = h \<or> h' = h\<lparr>h_objects := (h_objects h)(a \<mapsto> tp)\<rparr> \<and> tp \<noteq> []"
      using False by (auto simp: UnregisterMessageProcessor_def GetList_def split: option.splits)
    then have "ok_except refused h'" using ok_except_object [OF assms(2) _ _ dtp, of a topic] assms(2) a by (auto simp: refs_def)
    moreover have "has_processors h' topic" using h' a by (auto simp: has_processors_def)
    ultimately show ?thesis by simp
  qed
qed

lemma UnregisterAll_ok:
  assumes "pubsub_laws ops"
  shows "ok_except refused h \<Longrightarrow> UnregisterAllMessageProcessors ops topics h = (r, h') \<Longrightarrow> ok_except refused h'"
proof (induction topics arbitrary: h)
  case (Cons topic topics)
  show ?case
  proof (cases "ho_UnregisterTopicValidator ops topic (h_validators h)")
    case (Some err)
    with Cons.prems show ?thesis by (auto simp: unregisterValidator_def)
  next
    case None
    have "ok_except refused (h\<lparr>h_validators := (h_validators h)(topic := None), h_processors := (h_processors h)(topic := None)\<rparr>)"
      using Cons.prems(1)
      by (intro ok_except_local [OF Cons.prems(1) subset_refl, of topic]) (auto simp: refs_def objectAt_def matched_def ok_except_def)
    with None Cons show ?thesis by (simp add: unregisterValidator_def)
  qed
qed simp

lemma blacklistPid_fields:
  "h_processors (blacklistPid ops p d h) = h_processors h" "h_validators (blacklistPid ops p d h) = h_validators h"
  "h_objects (blacklistPid ops p d h) = h_objects h" "h_nextObject (blacklistPid ops p d h) = h_nextObject h"
  by (simp_all add: blacklistPid_def)

lemma isEquivalent_fields:
  assumes "isEquivalentMessageFirstBroadcast ops i topic h = (r, h')"
  shows "h_processors h' = h_processors h" "h_validators h' = h_validators h" "h_objects h' = h_objects h" "h_nextObject h' = h_nextObject h"
  using assms by (auto simp: isEquivalentMessageFirstBroadcast_def split: if_splits option.splits prod.splits)

lemma transform_ok:
  assumes "ok_except refused h" and "transformAndCheckMessage ops now pm pid topic h = (r, h')"
  shows "ok_except refused h'"
  using assms(2)
  by (intro ok_except_cong [OF assms(1)])
    (auto simp: transformAndCheckMessage_def checkMessage_def Let_def blacklistPid_fields processDebug_fields
      split: sum.splits option.splits if_splits)

lemma callback_ok:
  assumes "ok_except refused h" and "pubsubCallback ops a topic now pid pm h = (r, h')"
  shows "ok_except refused h'"
proof -
  obtain r1 h1 where t: "transformAndCheckMessage ops now (Some pm) pid topic h = (r1, h1)" by fastforce
  note ok1 = transform_ok [OF assms(1) t]
  show ?thesis
  proof (cases r1)
    case (Inl e)
    with assms(2) t ok1 show ?thesis by (simp add: pubsubCallback_def)
  next
    case (Inr msg)
    obtain i ok e where c: "callProcessors (snd (GetList (ho_iter ops) (objectAt h1 a))) msg pid [] True (h_env h1) = (i, ok, e)"
      by (metis prod_cases3)
    let ?h2 = "processDebugMessage topic pid (length (pb_Data pm)) (\<not> ok) (h1\<lparr>h_env := e\<rparr>)"
    have "ok_except refused ?h2" by (rule ok_except_cong [OF ok1]) (simp_all add: processDebug_fields)
    moreover have "h' = ?h2 \<or> (\<exists>r. isEquivalentMessageFirstBroadcast ops i topic ?h2 = (r, h'))"
      using assms(2) t Inr c by (auto simp: pubsubCallback_def Let_def split: if_splits prod.splits)
    ultimately show ?thesis using isEquivalent_fields ok_except_cong by metis
  qed
qed

lemma direct_ok:
  assumes "ok_except refused h" and "processReceived ops suffix now m pid h = (r, h')"
  shows "ok_except refused h'"
  using assms(2)
  by (intro ok_except_cong [OF assms(1)])
    (auto simp: processReceived_def ProcessReceivedMessage_def checkMessage_def processDirect_def increaseRatingIfNeeded_def Let_def
      processDebug_fields split: option.splits prod.splits if_splits)

lemma ok_except_step:
  assumes "handler_step (h, refused) (h', refused')" and "ok_except refused h"
  shows "ok_except refused' h'"
  using assms(1)
proof cases
  case (register ops topic i p r)
  show ?thesis
  proof (cases p)
    case None
    with register assms(2) show ?thesis by (auto simp: RegisterMessageProcessor_def)
  next
    case (Some q)
    show ?thesis
    proof (cases "has_processors h topic")
      case True
      then obtain a where "h_processors h topic = Some (Some a)" by (auto simp: has_processors_iff)
      from Register_live [OF assms(2) this] register Some True show ?thesis by simp
    next
      case False
      with Register_first [OF _ assms(2) False] register Some show ?thesis by (auto split: if_splits)
    qed
  qed
next
  case (unregister ops topic i r)
  with Unregister_ok [OF _ assms(2)] show ?thesis by simp
next
  case (unregister_all ops topics r)
  with UnregisterAll_ok [OF _ assms(2)] show ?thesis by simp
next
  case (callback topic a ops now pid pm r)
  with callback_ok [OF assms(2)] show ?thesis by blast
next
  case (direct ops suffix now m pid r)
  with direct_ok [OF assms(2)] show ?thesis by blast
qed

lemma ok_except_reach: "handler_reach h0 s \<Longrightarrow> ok_except {} h0 \<Longrightarrow> ok_except (snd s) (fst s)"
proof (induction rule: handler_reach.induct)
  case (step s s')
  then show ?case using ok_except_step [of "fst s" "snd s" "fst s'" "snd s'"] by simp
qed simp

text \<open>A registration that pubsub refuses: the map of processors keeps the topic, and every later registration succeeds without pubsub.\<close>

lemma refused_registration:
  assumes "\<not> has_processors h topic" and "ho_RegisterTopicValidator ops topic (h_validators h) = Some err"
    and "RegisterMessageProcessor ops topic i (Some p) h = (r, h')"
  shows "r = Some err" "has_processors h' topic" "h_validators h' = h_validators h"
    "fst (RegisterMessageProcessor ops' topic j (Some q) h') = None" "h_validators (snd (RegisterMessageProcessor ops' topic j (Some q) h')) = h_validators h"
proof -
  have h': "r = Some err" "h_processors h' = (h_processors h)(topic \<mapsto> Some (h_nextObject h))" "h_validators h' = h_validators h"
    "objectAt h' (h_nextObject h) = []"
    using assms
    by (auto simp: RegisterMessageProcessor_def has_processors_def newTopicProcessors_def objectAt_def Let_def split: option.splits)
  then show "r = Some err" "has_processors h' topic" "h_validators h' = h_validators h"
    "fst (RegisterMessageProcessor ops' topic j (Some q) h') = None" "h_validators (snd (RegisterMessageProcessor ops' topic j (Some q) h')) = h_validators h"
    by (auto simp: has_processors_def RegisterMessageProcessor_def addProcessorAt_def AddTopicProcessor_def)
qed

lemma UnregisterAll_stops:
  assumes "handler_laws ops"
  shows "topic \<in> set topics \<Longrightarrow> h_validators h topic = None \<Longrightarrow> fst (UnregisterAllMessageProcessors ops topics h) \<noteq> None"
proof (induction topics arbitrary: h)
  case (Cons t topics)
  show ?case
  proof (cases "h_validators h t")
    case None
    with assms have "ho_UnregisterTopicValidator ops t (h_validators h) \<noteq> None" by (simp add: handler_laws_def)
    then show ?thesis by (auto simp: unregisterValidator_def)
  next
    case (Some a)
    with assms have "ho_UnregisterTopicValidator ops t (h_validators h) = None" by (simp add: handler_laws_def)
    with Cons Some show ?thesis by (auto simp: unregisterValidator_def)
  qed
qed simp

section \<open>Examples\<close>

text \<open>Collaborators that count the calls of the processors and of the rating.\<close>

definition example_ops :: "(nat list, unit CacherMock, unit) handler_ops" where
  "example_ops = \<lparr>ho_pubsub = plain_pubsub,
     ho_RegisterTopicValidator = (\<lambda>t v. if v t = None then None else Some (ErrExternal ''duplicate validator'')),
     ho_UnregisterTopicValidator = (\<lambda>t v. if v t = None then Some (ErrExternal ''no validator'') else None),
     ho_Join = (\<lambda>t. Inr 0), ho_Subscribe = (\<lambda>t. Inr 0), ho_TopicClose = (\<lambda>t. None),
     ho_Publish = (\<lambda>t b sk e. (None, e)), ho_DirectSend = (\<lambda>t b p e. (None, e)), ho_NextSequenceNumber = (\<lambda>e. ([1], e)),
     ho_CanProcess = (\<lambda>e. True), ho_StartProcessing = (\<lambda>e. e), ho_EndProcessing = (\<lambda>e. e), ho_IsDenied = (\<lambda>p e. False),
     ho_UpsertPeerID = (\<lambda>p d e. (None, e)), ho_IncreaseRating = (\<lambda>p e. e @ [2]), ho_UnmarshalSk = (\<lambda>b. Inr ()),
     ho_NewCache = (\<lambda>n. Inr NewCacherMock), ho_cache = CacherMock_ops, ho_iter = (\<lambda>xs. xs)\<rparr>"

lemma example_ops_laws: "handler_laws example_ops"
  by (simp add: handler_laws_def example_ops_def iterates_id)

definition example_processor :: "nat list processor" where
  "example_processor msg pid e = (([7], None), e @ [1])"

definition example_handler :: "(nat list, unit CacherMock, unit) messagesHandler" where
  "example_handler = \<lparr>h_env = [], h_objects = Map.empty, h_nextObject = 0, h_processors = Map.empty, h_validators = Map.empty,
     h_topics = Map.empty, h_subscriptions = Map.empty, h_cancelled = {}, h_equivalentMessages = Map.empty,
     h_outgoingCLB = \<lparr>chans = [0], names = [defaultSendChannel], namesChans = [defaultSendChannel \<mapsto> 0], nextChan = 1,
       closedChans = {}, ctxDone = False, workers = [0 \<mapsto> Waiting]\<rparr>,
     h_marshaller = plain_marshaller, h_debugger = [], h_peerID = [8], h_ctxDone = False\<rparr>"

definition example_registered :: "(nat list, unit CacherMock, unit) messagesHandler" where
  "example_registered = snd (RegisterMessageProcessor example_ops ''t'' ''id'' (Some example_processor) example_handler)"

lemma example_registered_eq:
  "RegisterMessageProcessor example_ops ''t'' ''id'' (Some example_processor) example_handler = (None, example_registered)"
  "h_processors example_registered = [''t'' \<mapsto> Some 0]" "h_validators example_registered = [''t'' \<mapsto> 0]"
  "objectAt example_registered 0 = [(''id'', example_processor)]" "h_env example_registered = []"
  "h_marshaller example_registered = plain_marshaller" "h_equivalentMessages example_registered = [''t'' \<mapsto> NewCacherMock]"
  "h_peerID example_registered = [8]" "h_nextObject example_registered = 1"
  by (simp_all add: example_registered_def RegisterMessageProcessor_def example_handler_def example_ops_def addProcessorAt_def
      AddTopicProcessor_def newTopicProcessors_def objectAt_def)

lemma example_registered_ok: "handler_ok example_registered"
  by (simp add: handler_ok_def example_registered_eq)

lemma example_reach: "handler_reach example_handler (example_registered, {})"
  using handler_reach.step [OF handler_reach.start handler_step.register [OF handler_pubsub_laws [OF example_ops_laws] example_registered_eq(1)]]
  by simp

section \<open>Properties\<close>

text \<open>
  A message passes the check of its timestamp exactly from ten minutes before to twenty seconds
  after the local time, so two acceptances of one message are at most 620 seconds apart; and a
  message stamped twenty seconds ahead is accepted at both ends of this interval, although pubsub
  remembers messages for 600 seconds only.
\<close>

lemma timestamp_window:
  "(validateMessageByTimestamp now msg = None \<longleftrightarrow> now - 600 \<le> sint (TimestampField msg) \<and> sint (TimestampField msg) \<le> now + 20) \<and>
   (validateMessageByTimestamp now msg = None \<and> validateMessageByTimestamp now' msg = None \<longrightarrow>
      now' - now \<le> pubsubTimeCacheDuration + acceptMessagesInAdvanceDuration) \<and>
   (sint (TimestampField msg) = now + acceptMessagesInAdvanceDuration \<longrightarrow> validateMessageByTimestamp now msg = None \<and>
      validateMessageByTimestamp (now + pubsubTimeCacheDuration + acceptMessagesInAdvanceDuration) msg = None)"
  by (auto simp: validate_iff pubsubTimeCacheDuration_def acceptMessagesInAdvanceDuration_def)

text \<open>
  C34. The validator of a topic lets a message pass to other peers only when it is well formed and in
  time, every processor of the topic accepts it, and its identifier, the one the last processor
  returned, is not in the cache of equivalent messages; and it does not let a second message with
  that identifier pass while the cache keeps it.
\<close>

theorem relayed_only_when_accepted:
  assumes "cacher (ho_cache ops) view" and "pubsubCallback ops a topic now pid pm h = (True, h')"
  shows "\<exists>msg. NewMessage (ho_pubsub ops) (Some (h_marshaller h)) (Some pm) Broadcast = Inr msg \<and>
     validateMessageByTimestamp now msg = None \<and>
     (let procs = snd (GetList (ho_iter ops) (objectAt h a));
          as = answers procs msg pid (h_env h);
          i = (if procs = [] then [] else fst (last as))
      in (\<forall>x \<in> set as. snd x = None) \<and>
         (\<forall>c. i \<noteq> [] \<longrightarrow> h_equivalentMessages h topic = Some c \<longrightarrow>
              view c i = None \<and> fst (isEquivalentMessageFirstBroadcast ops i topic h') = False))"
proof -
  obtain r h1 where t: "transformAndCheckMessage ops now (Some pm) pid topic h = (r, h1)" by fastforce
  with assms(2) obtain msg where r: "r = Inr msg" by (cases r) (auto simp: pubsubCallback_def)
  note msg = transform_Inr [OF t [unfolded r]]
  let ?procs = "snd (GetList (ho_iter ops) (objectAt h a))"
  obtain i ok e where c: "callProcessors ?procs msg pid [] True (h_env h) = (i, ok, e)" by (metis prod_cases3)
  let ?h2 = "processDebugMessage topic pid (length (pb_Data pm)) (\<not> ok) (h\<lparr>h_env := e\<rparr>)"
  have cb: "ok" "isEquivalentMessageFirstBroadcast ops i topic ?h2 = (True, h')"
    using assms(2) t r msg(1) c by (auto simp: pubsubCallback_def Let_def split: if_splits prod.splits)
  have "i = (if ?procs = [] then [] else fst (last (answers ?procs msg pid (h_env h))))"
    using callProcessors_id [of ?procs msg pid "[]" True "h_env h"] c by simp
  moreover have "\<forall>x \<in> set (answers ?procs msg pid (h_env h)). snd x = None"
    using callProcessors_ok [of ?procs msg pid "[]" True "h_env h"] c cb(1) by simp
  moreover have "view x i = None \<and> fst (isEquivalentMessageFirstBroadcast ops i topic h') = False"
    if "i \<noteq> []" "h_equivalentMessages h topic = Some x" for x
    using first_broadcast_once [OF assms(1) cb(2) that(1)] that(2) by (simp add: processDebug_fields)
  ultimately show ?thesis using msg by (auto simp: Let_def)
qed

lemma example_callback:
  "pubsubCallback example_ops 0 ''t'' 100 [3] example_pb example_registered =
     (True, snd (pubsubCallback example_ops 0 ''t'' 100 [3] example_pb example_registered))"
proof -
  have "validateMessageByTimestamp 100 example_message = None"
    by (simp add: validate_iff example_message_def pubsubTimeCacheDuration_def acceptMessagesInAdvanceDuration_def)
  then have "checkMessage 100 example_message [3] ''t'' example_registered = (None, example_registered)" by (simp add: checkMessage_def)
  moreover have "ho_pubsub example_ops = plain_pubsub" by (simp add: example_ops_def)
  ultimately have "transformAndCheckMessage example_ops 100 (Some example_pb) [3] ''t'' example_registered =
      (Inr example_message, example_registered)"
    using example_NewMessage by (simp add: transformAndCheckMessage_def example_registered_eq)
  then show ?thesis
    by (simp add: pubsubCallback_def GetList_def example_registered_eq example_processor_def isEquivalentMessageFirstBroadcast_def
        processDebugMessage_def example_ops_def CacherMock_defs NewCacherMock_def)
qed

theorem relayed_only_when_accepted_witness:
  "\<exists>h'. pubsubCallback example_ops 0 ''t'' 100 [3] example_pb example_registered = (True, h') \<and>
     fst (isEquivalentMessageFirstBroadcast example_ops [7] ''t'' h') = False"
proof -
  have "cacher (ho_cache example_ops) dataMap" by (simp add: example_ops_def CacherMock_cacher)
  from relayed_only_when_accepted [OF this example_callback] show ?thesis
    using example_callback
    by (auto simp: Let_def GetList_def example_registered_eq example_processor_def) (auto simp: example_ops_def example_registered_eq example_processor_def)
qed

text \<open>
  C35. Processors are registered and unregistered, broadcasts validated and direct messages processed in any order, while
  pubsub may refuse any call. In every state that is reached, a topic for which pubsub refused no call has a validator in
  pubsub exactly when it has processors: the validator runs the registered list, which is not empty and has distinct
  identifiers, and no two topics share one. When pubsub refuses the registration for a topic, the topic keeps its entry
  in the map of processors without a validator, and the next registration for it returns no error although the topic
  still has none.
\<close>

theorem validators_match_processors:
  assumes "NewMessagesHandler None env args = Inr h0" and "handler_reach h0 (h, refused)"
  shows "(topic \<notin> refused \<longrightarrow>
       h_validators h topic = (case h_processors h topic of Some (Some a) \<Rightarrow> Some a | _ \<Rightarrow> None) \<and>
       (\<forall>a. h_validators h topic = Some a \<longrightarrow> objectAt h a \<noteq> [] \<and> distinct (map fst (objectAt h a)) \<and>
          (\<forall>topic'. h_validators h topic' = Some a \<longrightarrow> topic' = topic))) \<and>
     (topic \<notin> refused \<and> \<not> has_processors h topic \<and> ho_RegisterTopicValidator ops topic (h_validators h) = Some err \<and>
       RegisterMessageProcessor ops topic i (Some p) h = (r, h') \<longrightarrow>
         r = Some err \<and> has_processors h' topic \<and> h_validators h' topic = None \<and>
         fst (RegisterMessageProcessor ops' topic j (Some q) h') = None \<and>
         h_validators (snd (RegisterMessageProcessor ops' topic j (Some q) h')) topic = None)"
proof -
  have "ok_except refused h" using ok_except_reach [OF assms(2) ok_except_new [OF assms(1)]] by simp
  then have match: "topic \<notin> refused \<longrightarrow> matched h topic" and d: "distinct (map fst (objectAt h a))"
    and one: "h_validators h topic = Some a \<longrightarrow> h_validators h topic' = Some a \<longrightarrow> topic' = topic" for a topic'
    by (auto simp: ok_except_def refs_def)
  have "h_validators h topic = None" if "topic \<notin> refused" "\<not> has_processors h topic"
    using match that by (auto simp: matched_def has_processors_def split: option.splits)
  with refused_registration [of h topic ops err i p r h'] match d one show ?thesis
    unfolding matched_def by auto
qed

theorem validators_match_processors_witness:
  "h_validators example_registered ''t'' = Some 0 \<and> objectAt example_registered 0 \<noteq> [] \<and>
   h_validators (snd (RegisterMessageProcessor example_ops ''u'' ''id'' (Some example_processor)
     (snd (RegisterMessageProcessor (example_ops\<lparr>ho_RegisterTopicValidator := (\<lambda>t v. Some (ErrExternal ''context canceled''))\<rparr>) ''u'' ''id''
       (Some example_processor) example_registered)))) ''u'' = None"
proof -
  let ?ops = "example_ops\<lparr>ho_RegisterTopicValidator := (\<lambda>t v. Some (ErrExternal ''context canceled''))\<rparr>"
  obtain r h' where h': "RegisterMessageProcessor ?ops ''u'' ''id'' (Some example_processor) example_registered = (r, h')" by fastforce
  have "NewMessagesHandler None [] \<lparr>am_nilPubSub = False, am_nilDirectSender = False, am_nilThrottler = False,
      am_OutgoingCLB = Some (h_outgoingCLB example_handler), am_Marshaller = Some plain_marshaller, am_nilConnMonitor = False,
      am_nilPeersRatingHandler = False, am_nilSyncTimer = False, am_PeerID = [8], am_Logger = Some \<lparr>isLevelTrace = False\<rparr>\<rparr> = Inr example_handler"
    by (simp add: NewMessagesHandler_def checkArgMessagesHandler_def example_handler_def)
  note v = validators_match_processors [OF this example_reach]
  have "h_validators example_registered ''t'' = Some 0 \<and> objectAt example_registered 0 \<noteq> []"
    using v [of "''t''", THEN conjunct1] by (simp add: example_registered_eq)
  moreover have "\<not> has_processors example_registered ''u''" by (simp add: has_processors_def example_registered_eq)
  ultimately show ?thesis
    using v [of "''u''" ?ops "ErrExternal ''context canceled''" "''id''" example_processor r h' example_ops "''id''" example_processor] h' by simp
qed

text \<open>
  C36. Unregistering the last processor of a topic keeps the topic as a key with a nil value:
  afterwards unregistering all processors fails, in whatever order the topics are visited, because
  the validator of that topic is unregistered a second time.
\<close>

theorem unregister_all_fails_after_unregister:
  assumes "handler_laws ops" and "handler_ok h" and "h_processors h topic = Some (Some a)" and "objectAt h a = [(i, p)]"
    and "UnregisterMessageProcessor ops topic i h = (r, h')" and "topic \<in> set topics"
  shows "r = None \<and> h_processors h' topic = Some None \<and> fst (UnregisterAllMessageProcessors ops topics h') \<noteq> None"
proof -
  have "h_validators h topic = Some a" using assms(2,3) by (simp add: handler_ok_def)
  then have u: "ho_UnregisterTopicValidator ops topic (h_validators h) = None" using assms(1) by (simp add: handler_laws_def)
  have "ho_iter ops [] = []" using assms(1) by (simp add: handler_laws_def iterates_Nil)
  with u assms(3-5) have "r = None" "h_processors h' topic = Some None" "h_validators h' topic = None"
    by (auto simp: UnregisterMessageProcessor_def RemoveTopicProcessor_def GetList_def unregisterValidator_def)
  with UnregisterAll_stops [OF assms(1,6)] show ?thesis by blast
qed

theorem unregister_all_fails_after_unregister_witness:
  "fst (UnregisterAllMessageProcessors example_ops [''t''] (snd (UnregisterMessageProcessor example_ops ''t'' ''id'' example_registered))) \<noteq> None"
proof -
  obtain r h' where u: "UnregisterMessageProcessor example_ops ''t'' ''id'' example_registered = (r, h')" by fastforce
  from unregister_all_fails_after_unregister [OF example_ops_laws example_registered_ok _ _ u, of 0 example_processor "[''t'']"] u show ?thesis
    by (simp add: example_registered_eq)
qed

end
