(* ===== verification/P2PCrypto.thy ===== *)
theory P2PCrypto
  imports Prelude
begin

text \<open>
  Keys, identities and signatures: \<^verbatim>\<open>p2p/libp2p/crypto/\<close>. The elliptic curve code of
  \<^verbatim>\<open>mx-chain-crypto-go\<close> and \<^verbatim>\<open>go-libp2p\<close> and SHA-256 are parameters, records of the operations the
  code calls. What is proved of the wrappers rests on the documented laws of these packages, stated
  as the predicates \<open>key_laws\<close> and \<open>signature_laws\<close>.
\<close>

section \<open>Errors and external operations\<close>

datatype crypto_error =
    ErrNilPrivateKey
  | ErrNilPublicKey
  | ErrNilSingleSigner
  | ErrNilKeyGenerator
  | ErrNilP2PKeyConverter
  | CryptoNilLogger
  | CryptoExternal string

record ('sk, 'pk) SingleSigner =
  ss_Sign :: "'sk \<Rightarrow> bytes \<Rightarrow> crypto_error + bytes"
  ss_Verify :: "'pk \<Rightarrow> bytes \<Rightarrow> bytes \<Rightarrow> crypto_error option"

record ('sk, 'pk) KeyGenerator =
  PrivateKeyFromByteArray :: "bytes \<Rightarrow> crypto_error + 'sk"
  PublicKeyFromByteArray :: "bytes \<Rightarrow> crypto_error + 'pk"

text \<open>The methods of the keys, and what is used of \<^verbatim>\<open>go-libp2p\<close>: its keys and its peer identifiers.\<close>

record ('sk, 'pk, 'lsk, 'lpk) key_ops =
  pk_ToByteArray :: "'pk \<Rightarrow> crypto_error + bytes"
  sk_ToByteArray :: "'sk \<Rightarrow> crypto_error + bytes"
  IDFromBytes :: "bytes \<Rightarrow> crypto_error + peerid"
  ExtractPublicKey :: "peerid \<Rightarrow> crypto_error + 'lpk"
  lpk_Raw :: "'lpk \<Rightarrow> crypto_error + bytes"
  UnmarshalSecp256k1PublicKey :: "bytes \<Rightarrow> crypto_error + 'lpk"
  UnmarshalSecp256k1PrivateKey :: "bytes \<Rightarrow> crypto_error + 'lsk"
  IDFromPublicKey :: "'lpk \<Rightarrow> crypto_error + peerid"
  lsk_Raw :: "'lsk \<Rightarrow> crypto_error + bytes"
  GetPublic :: "'lsk \<Rightarrow> 'lpk"

section \<open>The key converter\<close>

definition ConvertPeerIDToPublicKey ::
  "('sk, 'pk, 'lsk, 'lpk) key_ops \<Rightarrow> ('sk, 'pk) KeyGenerator \<Rightarrow> peerid \<Rightarrow> crypto_error + 'pk" where
  "ConvertPeerIDToPublicKey ops keyGen pid =
     andThen (IDFromBytes ops pid) (\<lambda>libp2pPid.
     (case ExtractPublicKey ops libp2pPid of
        Inl err \<Rightarrow> Inl (CryptoExternal ''cannot extract signing key'')
      | Inr pubk \<Rightarrow> andThen (lpk_Raw ops pubk) (\<lambda>pubKeyBytes. PublicKeyFromByteArray keyGen pubKeyBytes)))"

definition ConvertPublicKeyToPeerID :: "('sk, 'pk, 'lsk, 'lpk) key_ops \<Rightarrow> 'pk option \<Rightarrow> crypto_error + peerid" where
  "ConvertPublicKeyToPeerID ops pk =
     (case pk of
        None \<Rightarrow> Inl ErrNilPublicKey
      | Some pk \<Rightarrow>
          andThen (pk_ToByteArray ops pk) (\<lambda>pkBytes.
          andThen (UnmarshalSecp256k1PublicKey ops pkBytes) (\<lambda>libp2pPk.
          andThen (IDFromPublicKey ops libp2pPk) Inr)))"

definition ConvertPrivateKeyToLibp2pPrivateKey ::
  "('sk, 'pk, 'lsk, 'lpk) key_ops \<Rightarrow> 'sk option \<Rightarrow> crypto_error + 'lsk" where
  "ConvertPrivateKeyToLibp2pPrivateKey ops privateKey =
     (case privateKey of
        None \<Rightarrow> Inl ErrNilPrivateKey
      | Some sk \<Rightarrow>
          andThen (sk_ToByteArray ops sk) (\<lambda>p2pPrivateKeyBytes.
          UnmarshalSecp256k1PrivateKey ops p2pPrivateKeyBytes))"

section \<open>The signer\<close>

text \<open>The interface \<^verbatim>\<open>p2p.P2PKeyConverter\<close> and its implementation.\<close>

record ('sk, 'pk) P2PKeyConverter =
  kc_ConvertPeerIDToPublicKey :: "('sk, 'pk) KeyGenerator \<Rightarrow> peerid \<Rightarrow> crypto_error + 'pk"
  kc_ConvertPublicKeyToPeerID :: "'pk option \<Rightarrow> crypto_error + peerid"

definition NewP2PKeyConverter :: "('sk, 'pk, 'lsk, 'lpk) key_ops \<Rightarrow> ('sk, 'pk) P2PKeyConverter" where
  "NewP2PKeyConverter ops =
     \<lparr>kc_ConvertPeerIDToPublicKey = ConvertPeerIDToPublicKey ops,
      kc_ConvertPublicKeyToPeerID = ConvertPublicKeyToPeerID ops\<rparr>"

record ('sk, 'pk) ArgsP2pSignerWrapper =
  sa_PrivateKey :: "'sk option"
  sa_Signer :: "('sk, 'pk) SingleSigner option"
  sa_KeyGen :: "('sk, 'pk) KeyGenerator option"
  sa_P2PKeyConverter :: "('sk, 'pk) P2PKeyConverter option"

record ('sk, 'pk) p2pSignerWrapper =
  sw_privateKey :: 'sk
  sw_signer :: "('sk, 'pk) SingleSigner"
  sw_keyGen :: "('sk, 'pk) KeyGenerator"
  sw_p2pKeyConv :: "('sk, 'pk) P2PKeyConverter"

fun NewP2PSignerWrapper :: "('sk, 'pk) ArgsP2pSignerWrapper \<Rightarrow> crypto_error + ('sk, 'pk) p2pSignerWrapper" where
  "NewP2PSignerWrapper \<lparr>sa_PrivateKey = sk, sa_Signer = signer, sa_KeyGen = keyGen, sa_P2PKeyConverter = conv\<rparr> =
     (case sk of
        None \<Rightarrow> Inl ErrNilPrivateKey
      | Some sk \<Rightarrow>
     (case signer of
        None \<Rightarrow> Inl ErrNilSingleSigner
      | Some signer \<Rightarrow>
     (case keyGen of
        None \<Rightarrow> Inl ErrNilKeyGenerator
      | Some keyGen \<Rightarrow>
     (case conv of
        None \<Rightarrow> Inl ErrNilP2PKeyConverter
      | Some conv \<Rightarrow>
          Inr \<lparr>sw_privateKey = sk, sw_signer = signer, sw_keyGen = keyGen, sw_p2pKeyConv = conv\<rparr>))))"

text \<open>\<open>sha256\<close> is \<^verbatim>\<open>sha256.Sum256\<close>.\<close>

definition Sign :: "(bytes \<Rightarrow> bytes) \<Rightarrow> ('sk, 'pk) p2pSignerWrapper \<Rightarrow> bytes \<Rightarrow> crypto_error + bytes" where
  "Sign sha256 psw payload = (let hash = sha256 payload in ss_Sign (sw_signer psw) (sw_privateKey psw) hash)"

definition Verify :: "(bytes \<Rightarrow> bytes) \<Rightarrow> ('sk, 'pk) p2pSignerWrapper \<Rightarrow> bytes \<Rightarrow> peerid \<Rightarrow> bytes \<Rightarrow> crypto_error option" where
  "Verify sha256 psw payload pid signature =
     (case kc_ConvertPeerIDToPublicKey (sw_p2pKeyConv psw) (sw_keyGen psw) pid of
        Inl err \<Rightarrow> Some err
      | Inr pubKey \<Rightarrow> (let hash = sha256 payload in ss_Verify (sw_signer psw) pubKey hash signature))"

definition SignUsingPrivateKey ::
  "(bytes \<Rightarrow> bytes) \<Rightarrow> ('sk, 'pk) p2pSignerWrapper \<Rightarrow> bytes \<Rightarrow> bytes \<Rightarrow> crypto_error + bytes" where
  "SignUsingPrivateKey sha256 psw skBytes payload =
     andThen (PrivateKeyFromByteArray (sw_keyGen psw) skBytes) (\<lambda>sk.
     (let hash = sha256 payload in ss_Sign (sw_signer psw) sk hash))"

section \<open>The identity generator\<close>

text \<open>The generator of random keys: \<open>gen\<close> is what \<^verbatim>\<open>GenerateSecp256k1Key(rand.Reader)\<close> answers.\<close>

definition NewIdentityGenerator :: "logger option \<Rightarrow> crypto_error + logger" where
  "NewIdentityGenerator log = (case log of None \<Rightarrow> Inl CryptoNilLogger | Some l \<Rightarrow> Inr l)"

definition CreateP2PPrivateKey ::
  "('sk, 'pk, 'lsk, 'lpk) key_ops \<Rightarrow> (crypto_error + 'lsk) \<Rightarrow> bytes \<Rightarrow> crypto_error + 'lsk" where
  "CreateP2PPrivateKey ops gen privateKeyBytes =
     (if length privateKeyBytes = 0 then andThen gen Inr
      else andThen (UnmarshalSecp256k1PrivateKey ops privateKeyBytes) Inr)"

definition emptyPrivateKeyBytes :: bytes where
  "emptyPrivateKeyBytes = bytes_of_string ''''"

definition CreateRandomP2PIdentity ::
  "('sk, 'pk, 'lsk, 'lpk) key_ops \<Rightarrow> (crypto_error + 'lsk) \<Rightarrow> crypto_error + bytes \<times> peerid" where
  "CreateRandomP2PIdentity ops gen =
     andThen (CreateP2PPrivateKey ops gen emptyPrivateKeyBytes) (\<lambda>sk.
     andThen (lsk_Raw ops sk) (\<lambda>skBuff.
     andThen (IDFromPublicKey ops (GetPublic ops sk)) (\<lambda>pid. Inr (skBuff, pid))))"

section \<open>The laws of the packages\<close>

text \<open>
  \<open>secp\<close> tells the secp256k1 keys of \<^verbatim>\<open>go-libp2p\<close>, which also has other and larger keys: \<^verbatim>\<open>UnmarshalSecp256k1PublicKey\<close>
  gives such keys only. The identifier of such a key is made of the key itself, which is read back from it. A public key
  whose bytes were read by \<^verbatim>\<open>UnmarshalSecp256k1PublicKey\<close> (compressed or not) is given back by the key generator from the
  raw bytes of the key that was read, whichever form they have. The key generator and \<^verbatim>\<open>go-libp2p\<close> agree on the public key of
  a private key, \<open>pub\<close> and \<^const>\<open>GetPublic\<close>.
\<close>

definition key_laws :: "('sk, 'pk, 'lsk, 'lpk) key_ops \<Rightarrow> ('lpk \<Rightarrow> bool) \<Rightarrow> ('sk, 'pk) KeyGenerator \<Rightarrow> ('sk \<Rightarrow> 'pk) \<Rightarrow> bool" where
  "key_laws ops secp keyGen pub \<longleftrightarrow>
     (\<forall>b lpk. UnmarshalSecp256k1PublicKey ops b = Inr lpk \<longrightarrow> secp lpk) \<and>
     (\<forall>lpk pid. secp lpk \<and> IDFromPublicKey ops lpk = Inr pid \<longrightarrow> IDFromBytes ops pid = Inr pid \<and> ExtractPublicKey ops pid = Inr lpk) \<and>
     (\<forall>pk b lpk. pk_ToByteArray ops pk = Inr b \<and> UnmarshalSecp256k1PublicKey ops b = Inr lpk \<longrightarrow>
        (\<exists>b'. lpk_Raw ops lpk = Inr b' \<and> PublicKeyFromByteArray keyGen b' = Inr pk)) \<and>
     (\<forall>lsk b. secp (GetPublic ops lsk) \<and> lsk_Raw ops lsk = Inr b \<longrightarrow> (\<exists>sk pb. PrivateKeyFromByteArray keyGen b = Inr sk \<and>
        lpk_Raw ops (GetPublic ops lsk) = Inr pb \<and> PublicKeyFromByteArray keyGen pb = Inr (pub sk)))"

text \<open>A signature is verified with the public key of the private key it was made with.\<close>

definition signature_laws :: "('sk, 'pk) SingleSigner \<Rightarrow> ('sk \<Rightarrow> 'pk) \<Rightarrow> bool" where
  "signature_laws signer pub \<longleftrightarrow>
     (\<forall>sk h sig. ss_Sign signer sk h = Inr sig \<longrightarrow> ss_Verify signer (pub sk) h sig = None)"

lemma convert_round_trip:
  assumes "key_laws ops secp keyGen pub" and "ConvertPublicKeyToPeerID ops (Some pk) = Inr pid"
  shows "ConvertPeerIDToPublicKey ops keyGen pid = Inr pk"
proof -
  from assms(2) obtain b lpk where l: "pk_ToByteArray ops pk = Inr b" "UnmarshalSecp256k1PublicKey ops b = Inr lpk"
      "IDFromPublicKey ops lpk = Inr pid"
    by (auto simp: ConvertPublicKeyToPeerID_def andThen_Inr_iff)
  with assms(1) obtain b' where "lpk_Raw ops lpk = Inr b'" "PublicKeyFromByteArray keyGen b' = Inr pk"
    unfolding key_laws_def by blast
  moreover have "IDFromBytes ops pid = Inr pid" "ExtractPublicKey ops pid = Inr lpk"
    using assms(1) l(2,3) unfolding key_laws_def by blast+
  ultimately show ?thesis by (simp add: ConvertPeerIDToPublicKey_def)
qed

lemma random_identity_key:
  assumes "key_laws ops secp keyGen pub" and "CreateRandomP2PIdentity ops gen = Inr (skBuff, pid)"
    and "\<And>lsk. gen = Inr lsk \<Longrightarrow> secp (GetPublic ops lsk)"
  obtains sk where "PrivateKeyFromByteArray keyGen skBuff = Inr sk" "ConvertPeerIDToPublicKey ops keyGen pid = Inr (pub sk)"
proof -
  from assms(2) obtain lsk where lsk: "lsk_Raw ops lsk = Inr skBuff" "IDFromPublicKey ops (GetPublic ops lsk) = Inr pid" "gen = Inr lsk"
    by (auto simp: CreateRandomP2PIdentity_def CreateP2PPrivateKey_def emptyPrivateKeyBytes_def bytes_of_string_def andThen_Inr_iff)
  from lsk(3) have secp: "secp (GetPublic ops lsk)" by (rule assms(3))
  with assms(1) lsk(1) obtain sk pb where "PrivateKeyFromByteArray keyGen skBuff = Inr sk"
    "lpk_Raw ops (GetPublic ops lsk) = Inr pb" "PublicKeyFromByteArray keyGen pb = Inr (pub sk)"
    unfolding key_laws_def by blast
  moreover have "IDFromBytes ops pid = Inr pid" "ExtractPublicKey ops pid = Inr (GetPublic ops lsk)"
    using assms(1) lsk(2) secp unfolding key_laws_def by blast+
  ultimately show ?thesis using that by (simp add: ConvertPeerIDToPublicKey_def)
qed

section \<open>An instance of the packages\<close>

text \<open>
  Keys that are byte strings, where a signature is the key followed by the hash: it satisfies the
  laws and is used in the examples. A public key is also read in a longer form, with a byte 4 before it, and its raw
  form is always the short one.
\<close>

definition plain_keys :: "(bytes, bytes, bytes, bytes) key_ops" where
  "plain_keys = \<lparr>pk_ToByteArray = (\<lambda>k. Inr (4 # k)), sk_ToByteArray = Inr, IDFromBytes = Inr, ExtractPublicKey = Inr, lpk_Raw = Inr,
     UnmarshalSecp256k1PublicKey = (\<lambda>b. case b of [] \<Rightarrow> Inl (CryptoExternal ''key'') | x # k \<Rightarrow> Inr (if x = 4 then k else b)),
     UnmarshalSecp256k1PrivateKey = Inr, IDFromPublicKey = Inr, lsk_Raw = Inr, GetPublic = (\<lambda>k. k)\<rparr>"

definition plain_keyGen :: "(bytes, bytes) KeyGenerator" where
  "plain_keyGen = \<lparr>PrivateKeyFromByteArray = Inr, PublicKeyFromByteArray = Inr\<rparr>"

definition plain_signer :: "(bytes, bytes) SingleSigner" where
  "plain_signer = \<lparr>ss_Sign = (\<lambda>sk h. Inr (sk @ h)),
     ss_Verify = (\<lambda>pk h sig. if sig = pk @ h then None else Some (CryptoExternal ''signature''))\<rparr>"

lemma plain_laws: "key_laws plain_keys (\<lambda>k. True) plain_keyGen (\<lambda>k. k)" "signature_laws plain_signer (\<lambda>k. k)"
  by (auto simp: key_laws_def signature_laws_def plain_keys_def plain_keyGen_def plain_signer_def
      split: list.splits)

definition plain_wrapper :: "(bytes, bytes) p2pSignerWrapper" where
  "plain_wrapper = \<lparr>sw_privateKey = [1, 2], sw_signer = plain_signer, sw_keyGen = plain_keyGen,
     sw_p2pKeyConv = NewP2PKeyConverter plain_keys\<rparr>"

section \<open>Properties\<close>

text \<open>
  C23. With the documented laws of the packages (secp256k1 keys are read back from their identifiers, and a signature is
  verified with the public key of its private key): what the wrapper signs with its own key, a wrapper of another node
  with the same packages verifies for the peer identifier of that key; and what it signs with the key bytes of a random
  identity, whose generated key is a secp256k1 key, is verified for the peer identifier of that identity.
\<close>

theorem signed_payload_verifies:
  assumes "key_laws ops secp keyGen pub" and "signature_laws signer pub"
    and "NewP2PSignerWrapper \<lparr>sa_PrivateKey = Some sk, sa_Signer = Some signer, sa_KeyGen = Some keyGen,
           sa_P2PKeyConverter = Some (NewP2PKeyConverter ops)\<rparr> = Inr psw"
    and "sw_signer psw' = signer" "sw_keyGen psw' = keyGen" "sw_p2pKeyConv psw' = NewP2PKeyConverter ops"
    and "\<And>lsk. gen = Inr lsk \<Longrightarrow> secp (GetPublic ops lsk)"
  shows "(ConvertPublicKeyToPeerID ops (Some (pub sk)) = Inr pid \<and> Sign sha256 psw payload = Inr sig \<longrightarrow>
            Verify sha256 psw' payload pid sig = None) \<and>
         (CreateRandomP2PIdentity ops gen = Inr (skBuff, pid) \<and> SignUsingPrivateKey sha256 psw skBuff payload = Inr sig \<longrightarrow>
            Verify sha256 psw' payload pid sig = None)"
proof (intro conjI impI; elim conjE)
  from assms(3) have psw: "sw_privateKey psw = sk" "sw_signer psw = signer" "sw_keyGen psw = keyGen" by auto
  show "Verify sha256 psw' payload pid sig = None"
    if "ConvertPublicKeyToPeerID ops (Some (pub sk)) = Inr pid" "Sign sha256 psw payload = Inr sig"
    using convert_round_trip [OF assms(1) that(1)] that(2) assms(2,4-6) psw
    by (simp add: Verify_def Sign_def NewP2PKeyConverter_def signature_laws_def)
  assume id: "CreateRandomP2PIdentity ops gen = Inr (skBuff, pid)" "SignUsingPrivateKey sha256 psw skBuff payload = Inr sig"
  obtain sk' where "PrivateKeyFromByteArray keyGen skBuff = Inr sk'" "ConvertPeerIDToPublicKey ops keyGen pid = Inr (pub sk')"
    by (rule random_identity_key [OF assms(1) id(1) assms(7)])
  with id(2) assms(2,4-6) psw show "Verify sha256 psw' payload pid sig = None"
    by (simp add: Verify_def SignUsingPrivateKey_def NewP2PKeyConverter_def signature_laws_def)
qed

theorem signed_payload_verifies_witness:
  "Sign rev plain_wrapper [7, 8] = Inr [1, 2, 8, 7] \<and> Verify rev plain_wrapper [7, 8] [1, 2] [1, 2, 8, 7] = None \<and>
   SignUsingPrivateKey rev plain_wrapper [5] [7, 8] = Inr [5, 8, 7] \<and> Verify rev plain_wrapper [7, 8] [5] [5, 8, 7] = None"
proof -
  have new: "NewP2PSignerWrapper \<lparr>sa_PrivateKey = Some [1, 2], sa_Signer = Some plain_signer, sa_KeyGen = Some plain_keyGen,
           sa_P2PKeyConverter = Some (NewP2PKeyConverter plain_keys)\<rparr> = Inr plain_wrapper"
    by (simp add: plain_wrapper_def)
  have s: "Sign rev plain_wrapper [7, 8] = Inr [1, 2, 8, 7]" "SignUsingPrivateKey rev plain_wrapper [5] [7, 8] = Inr [5, 8, 7]"
    by (simp_all add: Sign_def SignUsingPrivateKey_def plain_wrapper_def plain_signer_def plain_keyGen_def)
  have "ConvertPublicKeyToPeerID plain_keys (Some [1, 2]) = Inr [1, 2]" "CreateRandomP2PIdentity plain_keys (Inr [5]) = Inr ([5], [5])"
    by (simp_all add: ConvertPublicKeyToPeerID_def CreateRandomP2PIdentity_def CreateP2PPrivateKey_def emptyPrivateKeyBytes_def
        bytes_of_string_def plain_keys_def)
  note ids = this
  note v = signed_payload_verifies [OF plain_laws new, of plain_wrapper "Inr [5]"]
  from v [of "[1, 2]" rev "[7, 8]" "[1, 2, 8, 7]"] v [of "[5]" rev "[7, 8]" "[5, 8, 7]" "[5]"] s ids
  show ?thesis by (simp add: plain_wrapper_def)
qed

end
