(* ===== verification/NetMessenger.thy ===== *)
theory NetMessenger
  imports Ports Discovery MonitorRun MessagesHandler P2PCrypto
begin

text \<open>
  The network messenger (\<^verbatim>\<open>p2p/libp2p/netMessenger.go\<close>), which builds all components of a node and closes them, with
  the options of its host: the transports, the resource limits (\<^verbatim>\<open>resourceLimiter/\<close>) and the stand-ins that
  are used until the node sets its own components. What \<^verbatim>\<open>go-libp2p\<close> builds of the options is a parameter.
\<close>

section \<open>Stand-ins\<close>

definition unknownPeerShardResolver :: PeerShardResolver where
  "unknownPeerShardResolver = (\<lambda>_. \<lparr>PeerType = UnknownPeer, ShardID = 0\<rparr>)"

definition disabled_IsDenied :: "peerid \<Rightarrow> bool" where
  "disabled_IsDenied p = False"

definition disabled_UpsertPeerID :: "peerid \<Rightarrow> int \<Rightarrow> p2p_error option" where
  "disabled_UpsertPeerID p duration = None"

text \<open>The debugger that does nothing (\<^verbatim>\<open>disabled/p2pDebugger.go\<close>), with the state \<open>'b\<close> of what it is called on.\<close>

definition disabled_AddIncomingMessage :: "string \<Rightarrow> uint64 \<Rightarrow> bool \<Rightarrow> 'b \<Rightarrow> 'b" where
  "disabled_AddIncomingMessage topic sz isRejected b = b"

definition disabled_AddOutgoingMessage :: "string \<Rightarrow> uint64 \<Rightarrow> bool \<Rightarrow> 'b \<Rightarrow> 'b" where
  "disabled_AddOutgoingMessage topic sz isRejected b = b"

definition disabled_Close :: "p2p_error option" where
  "disabled_Close = None"

text \<open>The timer of the local system reads the clock of the machine, a parameter.\<close>

definition local_CurrentTime :: "int \<Rightarrow> int" where
  "local_CurrentTime timeNow = timeNow"

section \<open>External loggers\<close>

text \<open>The levels that are set on the loggers of other packages; \<open>GetLoggerLogLevel\<close> and \<open>LogTrace\<close> are of \<^verbatim>\<open>mx-chain-logger-go\<close>.\<close>

definition externalPackages :: "string list" where
  "externalPackages = [''dht'', ''nat'', ''basichost'', ''pubsub'']"

definition setupExternalP2PLoggers :: "(string \<Rightarrow> int) \<Rightarrow> int \<Rightarrow> (string \<times> string) list" where
  "setupExternalP2PLoggers GetLoggerLogLevel LogTrace =
     (''*'', ''PANIC'') #
     map (\<lambda>external. (external, ''DEBUG''))
       (filter (\<lambda>external. \<not> GetLoggerLogLevel (''external/'' @ external) > LogTrace) externalPackages)"

text \<open>One turn of \<^verbatim>\<open>checkExternalLoggers\<close>: nothing once the context is done, else the levels are set again.\<close>

definition checkExternalLoggers_turn :: "(string \<Rightarrow> int) \<Rightarrow> int \<Rightarrow> bool \<Rightarrow> (string \<times> string) list option" where
  "checkExternalLoggers_turn GetLoggerLogLevel LogTrace isDone =
     (if isDone then None else Some (setupExternalP2PLoggers GetLoggerLogLevel LogTrace))"

section \<open>Resource limits\<close>

datatype Limits = AutoScale | InfiniteLimits | Scale int64 int

record ConnLimitPerSubnet =
  cl_PrefixLength :: int
  cl_ConnCount :: int

text \<open>\<^const>\<open>None\<close> is the nil slice, with which the resource manager takes its defaults.\<close>

definition parseConnLimit :: "ConnLimitConfig list \<Rightarrow> ConnLimitPerSubnet list option" where
  "parseConnLimit cfgConnLimit =
     (if length cfgConnLimit = 0 then None
      else Some (map (\<lambda>c. \<lparr>cl_PrefixLength = PrefixLength c, cl_ConnCount = ConnCount c\<rparr>) cfgConnLimit))"

definition oneMegabyteInBytes :: int64 where "oneMegabyteInBytes = 1024 * 1024"

text \<open>\<open>NewResourceManager\<close> is that of \<^verbatim>\<open>go-libp2p\<close>; the product of the memory has 64 bits.\<close>

definition CreateResourceLimiterOption ::
  "(Limits \<Rightarrow> ConnLimitPerSubnet list option \<Rightarrow> ConnLimitPerSubnet list option \<Rightarrow> 'r res) \<Rightarrow> ResourceLimiterConfig \<Rightarrow> 'r res" where
  "CreateResourceLimiterOption NewResourceManager cfg =
     (let ipv4ConnLimit = parseConnLimit (Ipv4ConnLimit cfg);
          ipv6ConnLimit = parseConnLimit (Ipv6ConnLimit cfg)
      in if rl_Type cfg = DefaultAutoscaleResourceLimiter then NewResourceManager AutoScale ipv4ConnLimit ipv6ConnLimit
         else if rl_Type cfg = InfiniteResourceLimiter then NewResourceManager InfiniteLimits ipv4ConnLimit ipv6ConnLimit
         else if rl_Type cfg = DefaultWithScaleResourceLimiter
         then (let memoryInBytes = oneMegabyteInBytes * ManualSystemMemoryInMB cfg
               in NewResourceManager (Scale memoryInBytes (ManualMaximumFD cfg)) ipv4ConnLimit ipv6ConnLimit)
         else Inl ErrUnknownResourceLimiterType)"

section \<open>Transports\<close>

datatype Transport = TransportTCP | TransportTCPDisableReuseport | TransportQUIC | TransportWebSocket | TransportWebTransport

text \<open>\<^verbatim>\<open>strings.Count\<close> of the markup, which does not overlap itself.\<close>

fun countMarkup :: "string \<Rightarrow> nat" where
  "countMarkup (c # d # s) = (if c = CHR ''%'' \<and> d = CHR ''d'' then Suc (countMarkup s) else countMarkup (d # s))"
| "countMarkup s = 0"

definition strictCheckStringForIntMarkup :: "string \<Rightarrow> bool" where
  "strictCheckStringForIntMarkup str \<longleftrightarrow> countMarkup str = 1"

text \<open>\<^verbatim>\<open>fmt.Sprintf\<close> of an address and the port, for an address without other verbs than the markup.\<close>

fun sprintf_d :: "string \<Rightarrow> int \<Rightarrow> string" where
  "sprintf_d (c # d # s) port =
     (if c = CHR ''%'' \<and> d = CHR ''d'' then decimal_int port @ s else c # sprintf_d (d # s) port)"
| "sprintf_d s port = s"

text \<open>One block of \<^verbatim>\<open>parseTransportOptions\<close>: an empty address is skipped, one without exactly one markup refused.\<close>

definition addTransport :: "string \<Rightarrow> p2p_error \<Rightarrow> Transport \<Rightarrow> int \<Rightarrow> Transport list \<times> string list \<Rightarrow> (Transport list \<times> string list) res" where
  "addTransport address err transport port acc =
     (case acc of (options, addresses) \<Rightarrow>
       (if length address > 0
        then (if \<not> strictCheckStringForIntMarkup address then Inl err
              else Inr (options @ [transport], addresses @ [sprintf_d address port]))
        else Inr acc))"

definition parseTransportOptions :: "TransportConfig \<Rightarrow> int \<Rightarrow> (Transport list \<times> string list) res" where
  "parseTransportOptions configs port =
     andThen (addTransport (ListenAddress (TCP configs)) ErrInvalidTCPAddress
                (if PreventPortReuse (TCP configs) then TransportTCPDisableReuseport else TransportTCP) port ([], [])) (\<lambda>acc.
     andThen (addTransport (QUICAddress configs) ErrInvalidQUICAddress TransportQUIC port acc) (\<lambda>acc.
     andThen (addTransport (WebSocketAddress configs) ErrInvalidWSAddress TransportWebSocket port acc) (\<lambda>acc.
     andThen (addTransport (WebTransportAddress configs) ErrInvalidWebTransportAddress TransportWebTransport port acc) (\<lambda>acc.
     if length (snd acc) = 0 then Inl ErrNoTransportsDefined else Inr acc))))"

section \<open>The node\<close>

text \<open>
  The environment of an attempt to build the host: \<open>mo_attempt k\<close> holds what the machine and the libraries
  answer at the attempt number \<open>k\<close> (\<open>at_maxCap\<close> is the largest slice of ports that the run time makes). The errors of the package
  \<^verbatim>\<open>crypto\<close> are kept apart. \<^const>\<open>None\<close> as a result of the construction is the panic of \<^const>\<open>getPort\<close>.
\<close>

datatype node_error = P2PError p2p_error | CryptoError crypto_error

record 'r host_attempt =
  at_maxCap :: int
  at_shuffle :: "int list \<Rightarrow> int list"
  at_checkFreePort :: "int \<Rightarrow> p2p_error option"
  at_NewHost :: "string list \<Rightarrow> Transport list \<Rightarrow> 'r \<Rightarrow> peerid res"

record ('r, 'k, 'sk, 'pk, 'lsk, 'lpk) messenger_ops =
  mo_attempt :: "nat \<Rightarrow> 'r host_attempt"
  mo_NewResourceManager :: "Limits \<Rightarrow> ConnLimitPerSubnet list option \<Rightarrow> ConnLimitPerSubnet list option \<Rightarrow> 'r res"
  mo_newTimeCache :: 'k
  mo_keys :: "('sk, 'pk, 'lsk, 'lpk) key_ops"
  mo_errorText :: "node_error \<Rightarrow> string"
  mo_ConvertPeerID :: "peerid \<Rightarrow> bytes"
  mo_Pretty :: "peerid \<Rightarrow> string"

record ('sk, 'pk) ArgsNetworkMessenger =
  nm_Marshaller :: "p2p_Marshaller option"
  nm_P2pConfig :: P2PConfig
  nm_nilSyncTimer :: bool
  nm_PreferredPeersHolder :: "peersHolder option"
  nm_nilPeersRatingHandler :: bool
  nm_ConnectionWatcherType :: string
  nm_P2pPrivateKey :: "'sk option"
  nm_P2pSingleSigner :: "('sk, 'pk) SingleSigner option"
  nm_P2pKeyGenerator :: "('sk, 'pk) KeyGenerator option"
  nm_Logger :: "logger option"

record ('k, 'sk, 'pk) p2pNode =
  node_signer :: "('sk, 'pk) p2pSignerWrapper"
  node_ID :: peerid
  node_port :: int
  node_watcher :: "'k ConnectionsWatcher"
  node_ctxDone :: bool

definition ttlConnectionsWatcher :: int where "ttlConnectionsWatcher = 7200000000000"
definition maxRetriesIfBindError :: nat where "maxRetriesIfBindError = 10"
definition msgBindError :: string where "msgBindError = ''address already in use''"

definition p2p_err :: "p2p_error + 'a \<Rightarrow> node_error + 'a" where
  "p2p_err r = map_sum P2PError (\<lambda>x. x) r"

definition crypto_err :: "crypto_error + 'a \<Rightarrow> node_error + 'a" where
  "crypto_err r = map_sum CryptoError (\<lambda>x. x) r"

definition constructNode :: "('r, 'k, 'sk, 'pk, 'lsk, 'lpk) messenger_ops \<Rightarrow> nat \<Rightarrow> ('sk, 'pk) ArgsNetworkMessenger
  \<Rightarrow> (node_error + ('k, 'sk, 'pk) p2pNode) option" where
  "constructNode mo attempt args =
     (let cfg = Node (nm_P2pConfig args); env = mo_attempt mo attempt
      in case getPort (at_maxCap env) (at_shuffle env) (Port cfg) (at_checkFreePort env) (nm_Logger args) of
         None \<Rightarrow> None
       | Some chosen \<Rightarrow> Some (
         andThen (p2p_err chosen) (\<lambda>port.
         andThen (p2p_err (NewConnectionsWatcher (mo_newTimeCache mo) (nm_ConnectionWatcherType args) ttlConnectionsWatcher (nm_Logger args))) (\<lambda>connWatcher.
         andThen (crypto_err (ConvertPrivateKeyToLibp2pPrivateKey (mo_keys mo) (nm_P2pPrivateKey args))) (\<lambda>p2pPrivateKey.
         andThen (p2p_err (parseTransportOptions (Transports cfg) port)) (\<lambda>(transportOptions, addresses).
         andThen (p2p_err (CreateResourceLimiterOption (mo_NewResourceManager mo) (ResourceLimiter cfg))) (\<lambda>resourceLimiterOption.
         andThen (p2p_err (at_NewHost env addresses transportOptions resourceLimiterOption)) (\<lambda>h.
         andThen (crypto_err (NewP2PSignerWrapper \<lparr>sa_PrivateKey = nm_P2pPrivateKey args, sa_Signer = nm_P2pSingleSigner args,
                    sa_KeyGen = nm_P2pKeyGenerator args,
                    sa_P2PKeyConverter = Some (NewP2PKeyConverter (mo_keys mo))\<rparr>)) (\<lambda>p2pSignerInstance.
         Inr \<lparr>node_signer = p2pSignerInstance, node_ID = h, node_port = port, node_watcher = connWatcher, node_ctxDone = False\<rparr>)))))))))"

text \<open>The loop over the attempts: \<open>i\<close> is the number of the attempt, \<open>left\<close> how many are left.\<close>

fun constructNodeWithPortRetry_loop :: "('r, 'k, 'sk, 'pk, 'lsk, 'lpk) messenger_ops \<Rightarrow> ('sk, 'pk) ArgsNetworkMessenger \<Rightarrow> nat \<Rightarrow> nat
  \<Rightarrow> node_error option \<Rightarrow> (node_error option + ('k, 'sk, 'pk) p2pNode) option" where
  "constructNodeWithPortRetry_loop mo args i 0 lastErr = Some (Inl lastErr)"
| "constructNodeWithPortRetry_loop mo args i (Suc left) lastErr =
     (case constructNode mo i args of
        None \<Rightarrow> None
      | Some (Inr p2pNode) \<Rightarrow> Some (Inr p2pNode)
      | Some (Inl err) \<Rightarrow>
          (if \<not> strings_Contains (mo_errorText mo err) msgBindError then Some (Inl (Some err))
           else constructNodeWithPortRetry_loop mo args (Suc i) left (Some err)))"

definition constructNodeWithPortRetry :: "('r, 'k, 'sk, 'pk, 'lsk, 'lpk) messenger_ops \<Rightarrow> ('sk, 'pk) ArgsNetworkMessenger
  \<Rightarrow> (node_error option + ('k, 'sk, 'pk) p2pNode) option" where
  "constructNodeWithPortRetry mo args = constructNodeWithPortRetry_loop mo args 0 maxRetriesIfBindError None"

definition validateSeeders :: "('r, 'k, 'sk, 'pk, 'lsk, 'lpk) messenger_ops \<Rightarrow> string list \<Rightarrow> ('k, 'sk, 'pk) p2pNode \<Rightarrow> p2p_error option" where
  "validateSeeders mo addrs netMes =
     (let selfID = mo_Pretty mo (node_ID netMes)
      in if list_ex (\<lambda>seeder. strings_Contains seeder selfID) addrs then Some ErrInvalidConfig else None)"

definition createSharder :: "('r, 'k, 'sk, 'pk, 'lsk, 'lpk) messenger_ops \<Rightarrow> ('sk, 'pk) ArgsNetworkMessenger \<Rightarrow> ('k, 'sk, 'pk) p2pNode
  \<Rightarrow> Sharder res" where
  "createSharder mo args netMes =
     NewSharder (mo_ConvertPeerID mo)
       \<lparr>PeerResolver = Some unknownPeerShardResolver, SelfPeerId = node_ID netMes, als_P2pConfig = nm_P2pConfig args,
        als_PreferredPeersHolder = map_option (\<lambda>ph p. Contains p ph) (nm_PreferredPeersHolder args), als_Logger = nm_Logger args\<rparr>"

text \<open>All sharders and discoverers of the library have the methods that the type assertions ask for.\<close>

definition createDiscoverers :: "('sk, 'pk) ArgsNetworkMessenger \<Rightarrow> Sharder \<Rightarrow> ('k, 'sk, 'pk) p2pNode \<Rightarrow> ('k, 'd) PeerDiscoverer list res" where
  "createDiscoverers args sh netMes =
     NewPeerDiscoverers \<lparr>apd_nilContext = False, apd_nilHost = False, apd_Sharder = Some sh, apd_isDiscoverySharder = True,
       apd_P2pConfig = nm_P2pConfig args, apd_ConnectionsWatcher = Some (node_watcher netMes), apd_Logger = nm_Logger args\<rparr>"

definition createConnectionMonitor :: "('sk, 'pk) ArgsNetworkMessenger \<Rightarrow> Sharder \<Rightarrow> ('k, 'd) PeerDiscoverer list \<Rightarrow> ('k, 'sk, 'pk) p2pNode
  \<Rightarrow> 'k connectionMonitor res" where
  "createConnectionMonitor args sh peerDiscoverers netMes =
     NewLibp2pConnectionMonitorSimple \<lparr>acm_nilReconnecters = map (\<lambda>_. False) peerDiscoverers,
       acm_ThresholdMinConnectedPeers = ThresholdMinConnectedPeers (Node (nm_P2pConfig args)), acm_Sharder = Some sh,
       acm_PreferredPeersHolder = nm_PreferredPeersHolder args, acm_ConnectionsWatcher = Some (node_watcher netMes),
       acm_nilNetwork = False, acm_Logger = nm_Logger args\<rparr>"

text \<open>
  The seeders that the discoverers set are set on the one sharder of the node, before the connection monitor gets it.
\<close>

definition shared_sharder :: "('k, 'd) PeerDiscoverer list \<Rightarrow> Sharder \<Rightarrow> Sharder" where
  "shared_sharder ds sh =
     fold (\<lambda>d s. case d of
              Continuous c \<Rightarrow> Sharder_SetSeeders (ckdd_initialPeersList c) s
            | Optimized c \<Rightarrow> Sharder_SetSeeders (okdd_initialPeersList c) s
            | NilDiscoverer \<Rightarrow> s) ds sh"

text \<open>
  The components of the node, in the order the code builds them. \<open>ca\<close> holds what other packages give: the
  result of \<^verbatim>\<open>pubsub.NewGossipSub\<close> with its \<^verbatim>\<open>ListPeers\<close>, the caches, the throttler, the hash function and the
  state of the collaborators of the messages handler around the direct sender.
\<close>

datatype pubsub_Option = WithMessageSignaturePolicy nat | WithMaxMessageSize int

record ('t, 'c, 'h, 'e) component_args =
  ca_GossipSub :: "pubsub_Option list \<Rightarrow> (string \<Rightarrow> peerid list) res"
  ca_now :: uint64
  ca_timeCache :: "int \<Rightarrow> 't"
  ca_newCache :: "int \<Rightarrow> 'c res"
  ca_Throttler :: "int \<Rightarrow> unit res"
  ca_sha256 :: "bytes \<Rightarrow> bytes"
  ca_directHandler :: "'h MessageHandler"
  ca_env :: "('t, 'c, 'h) directSender \<Rightarrow> 'e"

record ('k, 'd, 'e, 'mc, 'msk, 'sk, 'pk) networkMessenger =
  nme_node :: "('k, 'sk, 'pk) p2pNode"
  nme_messages :: "('e, 'mc, 'msk) messagesHandler"
  nme_connections :: "'k connectionsHandler"
  nme_discoverers :: "('k, 'd) PeerDiscoverer list"

definition refreshPeersOnTopicInterval :: int where "refreshPeersOnTopicInterval = 3000000000"
definition ttlPeersOnTopic :: int where "ttlPeersOnTopic = 10000000000"
definition broadcastGoRoutines :: int where "broadcastGoRoutines = 1000"

definition noSignPolicy :: nat where "noSignPolicy = 0"
definition pubSubMaxMessageSize :: int where "pubSubMaxMessageSize = 2 ^ 21"

definition createPubSub :: "('t, 'c, 'h, 'e) component_args \<Rightarrow> bool \<Rightarrow> (string \<Rightarrow> peerid list) res" where
  "createPubSub ca messageSigning =
     (let optsPS = (if \<not> messageSigning then [WithMessageSignaturePolicy noSignPolicy] else []);
          optsPS = optsPS @ [WithMaxMessageSize pubSubMaxMessageSize]
      in ca_GossipSub ca optsPS)"

text \<open>The messenger is the signer of its direct sender.\<close>

definition node_SignerVerifier :: "('r, 'k, 'sk, 'pk, 'lsk, 'lpk) messenger_ops \<Rightarrow> (bytes \<Rightarrow> bytes) \<Rightarrow> ('k, 'sk, 'pk) p2pNode \<Rightarrow> SignerVerifier" where
  "node_SignerVerifier mo sha256 node =
     \<lparr>sv_Sign = (\<lambda>payload. map_sum (\<lambda>e. ErrExternal (mo_errorText mo (CryptoError e))) (\<lambda>s. s) (Sign sha256 (node_signer node) payload)),
      sv_Verify = (\<lambda>payload p sig. map_option (\<lambda>e. ErrExternal (mo_errorText mo (CryptoError e))) (Verify sha256 (node_signer node) payload p sig))\<rparr>"

definition addComponentsToNode :: "('r, 'k, 'sk, 'pk, 'lsk, 'lpk) messenger_ops \<Rightarrow> ('t, 'c, 'h, 'e) component_args
  \<Rightarrow> ('sk, 'pk) ArgsNetworkMessenger \<Rightarrow> bool \<Rightarrow> ('k, 'sk, 'pk) p2pNode \<Rightarrow> ('k, 'd, 'e, 'mc, 'msk, 'sk, 'pk) networkMessenger res" where
  "addComponentsToNode mo ca args messageSigning node =
     andThen (createPubSub ca messageSigning) (\<lambda>ListPeers.
     andThen (newPeersOnChannel (Some ListPeers) refreshPeersOnTopicInterval ttlPeersOnTopic (nm_Logger args)) (\<lambda>peersOnChannelInstance.
     andThen (createSharder mo args node) (\<lambda>sh.
     andThen (createDiscoverers args sh node) (\<lambda>peerDiscoverers.
     let sh = shared_sharder peerDiscoverers sh in
     andThen (createConnectionMonitor args sh peerDiscoverers node) (\<lambda>connMonitor.
     andThen (NewDirectSender (ca_now ca) (ca_timeCache ca) (ca_newCache ca) False False
                (Some (node_SignerVerifier mo (ca_sha256 ca) node)) (nm_Marshaller args) (nm_Logger args)) (\<lambda>ds.
     andThen (ca_Throttler ca broadcastGoRoutines) (\<lambda>_.
     andThen (NewOutgoingChannelLoadBalancer (nm_Logger args)) (\<lambda>oclb.
     let (errRegister, ds) = RegisterDirectMessageProcessor (Some (ca_directHandler ca)) ds in
     andThen (NewMessagesHandler errRegister (ca_env ca ds)
                \<lparr>am_nilPubSub = False, am_nilDirectSender = False, am_nilThrottler = False, am_OutgoingCLB = Some oclb,
                 am_Marshaller = nm_Marshaller args, am_nilConnMonitor = False,
                 am_nilPeersRatingHandler = nm_nilPeersRatingHandler args, am_nilSyncTimer = nm_nilSyncTimer args,
                 am_PeerID = node_ID node, am_Logger = nm_Logger args\<rparr>) (\<lambda>mh.
     andThen (NewConnectionsHandler
                \<lparr>ach_nilHost = False, ach_PeersOnChannel = Some peersOnChannelInstance,
                 ach_PeerShardResolver = Some unknownPeerShardResolver, ach_Sharder = Some sh,
                 ach_PreferredPeersHolder = nm_PreferredPeersHolder args, ach_ConnMonitor = Some connMonitor,
                 ach_nilDiscoverers = map (\<lambda>_. False) peerDiscoverers, ach_PeerID = node_ID node,
                 ach_ConnectionsMetric = Some NewConnectionsMetric, ach_Logger = nm_Logger args,
                 ach_ProtocolIDs = ProtocolIDs (KadDhtPeerDiscovery (nm_P2pConfig args))\<rparr>) (\<lambda>ch.
     Inr \<lparr>nme_node = node, nme_messages = mh, nme_connections = ch, nme_discoverers = peerDiscoverers\<rparr>))))))))))"

definition checkArgsNetworkMessenger :: "('sk, 'pk) ArgsNetworkMessenger \<Rightarrow> p2p_error option" where
  "checkArgsNetworkMessenger args =
     (if nm_Marshaller args = None then Some ErrNilMarshaller
      else if nm_nilSyncTimer args then Some ErrNilSyncTimer
      else if nm_PreferredPeersHolder args = None then Some ErrNilPreferredPeersHolder
      else if nm_nilPeersRatingHandler args then Some ErrNilPeersRatingHandler
      else if nm_P2pPrivateKey args = None then Some ErrNilP2pPrivateKey
      else if nm_P2pSingleSigner args = None then Some ErrNilP2pSingleSigner
      else if nm_P2pKeyGenerator args = None then Some ErrNilP2pKeyGenerator
      else if nm_Logger args = None then Some ErrNilLogger
      else None)"

text \<open>
  \<^const>\<open>None\<close> is the panic of the choice of the port. The first part of another result is the hosts that are open when the call returns: the host that was built is
  closed when a component fails. (In \<^verbatim>\<open>constructNode\<close> nothing can fail after the host is built, \<open>signer_built\<close> below.)
\<close>

definition newNetworkMessenger :: "('r, 'k, 'sk, 'pk, 'lsk, 'lpk) messenger_ops \<Rightarrow> ('t, 'c, 'h, 'e) component_args
  \<Rightarrow> ('sk, 'pk) ArgsNetworkMessenger \<Rightarrow> bool
  \<Rightarrow> (peerid list \<times> (node_error option + ('k, 'd, 'e, 'mc, 'msk, 'sk, 'pk) networkMessenger)) option" where
  "newNetworkMessenger mo ca args messageSigning =
     (case checkArgsNetworkMessenger args of
        Some err \<Rightarrow> Some ([], Inl (Some (P2PError err)))
      | None \<Rightarrow>
          (case constructNodeWithPortRetry mo args of
             None \<Rightarrow> None
           | Some (Inl err) \<Rightarrow> Some ([], Inl err)
           | Some (Inr p2pNode) \<Rightarrow>
               (case validateSeeders mo (InitialPeerList (KadDhtPeerDiscovery (nm_P2pConfig args))) p2pNode of
                  Some err \<Rightarrow> Some ([node_ID p2pNode], Inl (Some (P2PError err)))
                | None \<Rightarrow>
                    (case addComponentsToNode mo ca args messageSigning p2pNode of
                       Inl err \<Rightarrow> Some ([], Inl (Some (P2PError err)))
                     | Inr netMes \<Rightarrow> Some ([node_ID p2pNode], Inr netMes)))))"

definition NewNetworkMessenger :: "('r, 'k, 'sk, 'pk, 'lsk, 'lpk) messenger_ops \<Rightarrow> ('t, 'c, 'h, 'e) component_args
  \<Rightarrow> ('sk, 'pk) ArgsNetworkMessenger
  \<Rightarrow> (peerid list \<times> (node_error option + ('k, 'd, 'e, 'mc, 'msk, 'sk, 'pk) networkMessenger)) option" where
  "NewNetworkMessenger mo ca args = newNetworkMessenger mo ca args True"

definition messenger_ID :: "('k, 'd, 'e, 'mc, 'msk, 'sk, 'pk) networkMessenger \<Rightarrow> peerid" where
  "messenger_ID netMes = node_ID (nme_node netMes)"

definition messenger_Port :: "('k, 'd, 'e, 'mc, 'msk, 'sk, 'pk) networkMessenger \<Rightarrow> int" where
  "messenger_Port netMes = node_port (nme_node netMes)"

text \<open>The names and values that \<^verbatim>\<open>printLogs\<close> prints of the addresses \<open>addrs\<close> of the host.\<close>

definition printLogs :: "('r, 'k, 'sk, 'pk, 'lsk, 'lpk) messenger_ops \<Rightarrow> ('k, 'sk, 'pk) p2pNode \<Rightarrow> string list \<Rightarrow> string list" where
  "printLogs mo netMes addrs =
     concat (map (\<lambda>(i, address). [''addr'' @ decimal_int (int i), address @ ''/p2p/'' @ mo_Pretty mo (node_ID netMes)]) (enumerate 0 addrs))"

text \<open>
  \<^verbatim>\<open>NewMockMessenger\<close>: the host is a peer of the network in memory, the watcher gets a logger of its own, the port
  has its zero value and messages are not signed. \<^verbatim>\<open>testNetMessenger\<close> adds \<^verbatim>\<open>ClosePeer\<close> to a messenger.
\<close>

definition NewMockMessenger :: "('r, 'k, 'sk, 'pk, 'lsk, 'lpk) messenger_ops \<Rightarrow> ('t, 'c, 'h, 'e) component_args
  \<Rightarrow> ('sk, 'pk) ArgsNetworkMessenger \<Rightarrow> peerid res option \<Rightarrow> logger
  \<Rightarrow> node_error + ('k, 'd, 'e, 'mc, 'msk, 'sk, 'pk) networkMessenger" where
  "NewMockMessenger mo ca args mockNet loggerStub =
     (case mockNet of
        None \<Rightarrow> Inl (P2PError ErrNilMockNet)
      | Some GenPeer \<Rightarrow>
          andThen (p2p_err GenPeer) (\<lambda>h.
          andThen (crypto_err (NewP2PSignerWrapper \<lparr>sa_PrivateKey = nm_P2pPrivateKey args, sa_Signer = nm_P2pSingleSigner args,
                    sa_KeyGen = nm_P2pKeyGenerator args,
                    sa_P2PKeyConverter = Some (NewP2PKeyConverter (mo_keys mo))\<rparr>)) (\<lambda>signer.
          andThen (p2p_err (NewConnectionsWatcher (mo_newTimeCache mo) (nm_ConnectionWatcherType args) ttlConnectionsWatcher (Some loggerStub))) (\<lambda>watcher.
          p2p_err (addComponentsToNode mo ca args False
            \<lparr>node_signer = signer, node_ID = h, node_port = 0, node_watcher = watcher, node_ctxDone = False\<rparr>)))))"

definition NewTestNetMessenger :: "('r, 'k, 'sk, 'pk, 'lsk, 'lpk) messenger_ops \<Rightarrow> ('t, 'c, 'h, 'e) component_args
  \<Rightarrow> ('sk, 'pk) ArgsNetworkMessenger
  \<Rightarrow> (peerid list \<times> (node_error option + ('k, 'd, 'e, 'mc, 'msk, 'sk, 'pk) networkMessenger)) option" where
  "NewTestNetMessenger mo ca args = NewNetworkMessenger mo ca args"

definition messenger_ClosePeer :: "'n network_ops \<Rightarrow> peerid \<Rightarrow> 'n \<Rightarrow> p2p_error option \<times> 'n" where
  "messenger_ClosePeer nw p n = nw_ClosePeer nw p n"

text \<open>
  \<^verbatim>\<open>Close\<close>: \<open>debugger\<close>, \<open>host\<close> and \<open>store\<close> are the answers of the debugger, the host and its peer store. Every
  component is closed, and the last error is returned.
\<close>

fun Watcher_Close :: "'k ConnectionsWatcher \<Rightarrow> p2p_error option \<times> 'k ConnectionsWatcher" where
  "Watcher_Close (PrintWatcher pcw) = (let (err, pcw) = watcher_Close pcw in (err, PrintWatcher pcw))"
| "Watcher_Close DisabledWatcher = (None, DisabledWatcher)"

definition messenger_Close :: "p2p_error option \<Rightarrow> p2p_error option \<Rightarrow> p2p_error option
  \<Rightarrow> ('k, 'd, 'e, 'mc, 'msk, 'sk, 'pk) networkMessenger \<Rightarrow> p2p_error option \<times> ('k, 'd, 'e, 'mc, 'msk, 'sk, 'pk) networkMessenger" where
  "messenger_Close debugger host store netMes =
     (let (errMH, mh) = MessagesHandler.handler_Close debugger (nme_messages netMes);
          err = errMH;
          (errCH, ch) = connections_Close (nme_connections netMes);
          err = (if errCH \<noteq> None then errCH else err);
          err = (if host \<noteq> None then host else err);
          (errConnWatcher, w) = Watcher_Close (node_watcher (nme_node netMes));
          err = (if errConnWatcher \<noteq> None then errConnWatcher else err);
          err = (if store \<noteq> None then store else err)
      in (err, netMes\<lparr>nme_messages := mh, nme_connections := ch,
                     nme_node := (nme_node netMes)\<lparr>node_watcher := w, node_ctxDone := True\<rparr>\<rparr>))"

section \<open>Facts\<close>

lemma addTransport_addresses:
  "addTransport a err tr port acc = Inr acc' \<Longrightarrow> length (fst acc) = length (snd acc) \<Longrightarrow>
     length (fst acc') = length (snd acc') \<and> length (snd acc) \<le> length (snd acc')"
  by (auto simp: addTransport_def split: prod.splits if_splits)

text \<open>Every transport that is accepted has its address to listen on, and there is at least one.\<close>

lemma parseTransportOptions_Inr:
  assumes "parseTransportOptions configs port = Inr (options, addresses)"
  shows "length options = length addresses \<and> addresses \<noteq> []"
proof -
  from assms obtain a b c where
    a: "addTransport (ListenAddress (TCP configs)) ErrInvalidTCPAddress
      (if PreventPortReuse (TCP configs) then TransportTCPDisableReuseport else TransportTCP) port ([], []) = Inr a"
    and b: "addTransport (QUICAddress configs) ErrInvalidQUICAddress TransportQUIC port a = Inr b"
    and c: "addTransport (WebSocketAddress configs) ErrInvalidWSAddress TransportWebSocket port b = Inr c"
    and d: "addTransport (WebTransportAddress configs) ErrInvalidWebTransportAddress TransportWebTransport port c = Inr (options, addresses)"
    and ne: "length addresses \<noteq> 0"
    by (auto simp: parseTransportOptions_def andThen_Inr_iff split: if_splits)
  have "length (fst a) = length (snd a)" using addTransport_addresses [OF a] by simp
  then have "length (fst b) = length (snd b)" using addTransport_addresses [OF b] by simp
  then have "length (fst c) = length (snd c)" using addTransport_addresses [OF c] by simp
  then show ?thesis using addTransport_addresses [OF d] ne by simp
qed

lemma option_sum_cases:
  obtains "r = None" | x where "r = Some (Inr x)" | e where "r = Some (Inl e)"
  by (metis option.exhaust sum.exhaust)

text \<open>The retries: a success needs one attempt that succeeds after bind errors only, and at most ten are made.\<close>

definition bind_error :: "('r, 'k, 'sk, 'pk, 'lsk, 'lpk) messenger_ops \<Rightarrow> ('sk, 'pk) ArgsNetworkMessenger \<Rightarrow> nat \<Rightarrow> bool" where
  "bind_error mo args k \<longleftrightarrow>
     (\<exists>err. constructNode mo k args = Some (Inl err) \<and> strings_Contains (mo_errorText mo err) msgBindError)"

lemma retry_Inr:
  "constructNodeWithPortRetry_loop mo args i left lastErr = Some (Inr node) \<longleftrightarrow>
     (\<exists>k < left. constructNode mo (i + k) args = Some (Inr node) \<and> (\<forall>j < k. bind_error mo args (i + j)))"
proof (induction left arbitrary: i lastErr)
  case (Suc left)
  show ?case
    by (cases "constructNode mo i args" rule: option_sum_cases) (auto simp: Suc.IH Ex_less_Suc2 All_less_Suc2 bind_error_def)
qed simp

lemma retry_None:
  "constructNodeWithPortRetry_loop mo args i left lastErr = None \<longleftrightarrow>
     (\<exists>k < left. constructNode mo (i + k) args = None \<and> (\<forall>j < k. bind_error mo args (i + j)))"
proof (induction left arbitrary: i lastErr)
  case (Suc left)
  show ?case
    by (cases "constructNode mo i args" rule: option_sum_cases) (auto simp: Suc.IH Ex_less_Suc2 All_less_Suc2 bind_error_def)
qed simp

text \<open>The sharder of a built node has its quotas from the configuration; only seeders were set on it.\<close>

lemma shared_sharder_reach:
  "sharder_reach ls0 ls \<Longrightarrow> peerShardResolver ls = r \<Longrightarrow>
     \<exists>ls'. shared_sharder ds (ListsSharderImpl ls) = ListsSharderImpl ls' \<and> sharder_reach ls0 ls' \<and> peerShardResolver ls' = r"
proof (induction ds arbitrary: ls)
  case (Cons d ds)
  have "\<exists>ls'. (case d of Continuous c \<Rightarrow> Sharder_SetSeeders (ckdd_initialPeersList c) (ListsSharderImpl ls)
        | Optimized c \<Rightarrow> Sharder_SetSeeders (okdd_initialPeersList c) (ListsSharderImpl ls) | NilDiscoverer \<Rightarrow> ListsSharderImpl ls) =
      ListsSharderImpl ls' \<and> sharder_reach ls0 ls' \<and> peerShardResolver ls' = r"
    using Cons.prems by (cases d) (auto simp: SetSeeders_def intro: sharder_reach.set_seeders [unfolded SetSeeders_def])
  then show ?case using Cons.IH by (auto simp: shared_sharder_def)
qed (auto simp: shared_sharder_def)

lemma addComponents_monitor:
  assumes "addComponentsToNode mo ca args sig node = Inr m"
  shows "\<exists>sh. createSharder mo args node = Inr sh \<and>
     createConnectionMonitor args (shared_sharder (nme_discoverers m) sh) (nme_discoverers m) node = Inr (ch_connMonitor (nme_connections m))"
  using assms
  by (auto simp: addComponentsToNode_def andThen_Inr_iff Let_def NewConnectionsHandler_def RegisterDirectMessageProcessor_def
      split: option.splits)

lemma map_sum_Inr_iff: "map_sum f g r = Inr y \<longleftrightarrow> (\<exists>x. r = Inr x \<and> y = g x)"
  by (cases r) auto

lemma NewListsSharder_resolver: "NewListsSharder ConvertPeerID arg = Inr ls \<Longrightarrow> PeerResolver arg = Some (peerShardResolver ls)"
  by (auto simp: NewListsSharder_def Let_def split: if_splits option.splits sum.splits)

lemma createSharder_lists:
  assumes "createSharder mo args node = Inr sh" and "sharding_Type (Sharding (nm_P2pConfig args)) = ListsSharder"
  shows "\<exists>arg ls. sh = ListsSharderImpl ls \<and> NewListsSharder (mo_ConvertPeerID mo) arg = Inr ls \<and> als_P2pConfig arg = nm_P2pConfig args \<and>
    peerShardResolver ls = unknownPeerShardResolver"
proof -
  let ?arg = "\<lparr>PeerResolver = Some unknownPeerShardResolver, SelfPeerId = node_ID node, als_P2pConfig = nm_P2pConfig args,
        als_PreferredPeersHolder = map_option (\<lambda>ph p. Contains p ph) (nm_PreferredPeersHolder args), als_Logger = nm_Logger args\<rparr>"
  have "map_sum id ListsSharderImpl (NewListsSharder (mo_ConvertPeerID mo) ?arg) = Inr sh"
    using assms by (simp add: createSharder_def NewSharder_def split: if_splits)
  then obtain ls where ls: "NewListsSharder (mo_ConvertPeerID mo) ?arg = Inr ls" "sh = ListsSharderImpl ls"
    by (auto simp: map_sum_Inr_iff)
  with NewListsSharder_resolver [OF ls(1)] show ?thesis by (intro exI [of _ ?arg] exI [of _ ls]) simp
qed

lemma new_monitor:
  "NewLibp2pConnectionMonitorSimple args = Inr lcms \<Longrightarrow> acm_Sharder args = Some (cmo_sharder lcms) \<and> cmo_IsDenied lcms = (\<lambda>_. False)"
  by (auto simp: NewLibp2pConnectionMonitorSimple_def split: if_splits option.splits)

lemma signer_built:
  assumes "checkArgsNetworkMessenger args = None"
  shows "\<exists>psw. NewP2PSignerWrapper \<lparr>sa_PrivateKey = nm_P2pPrivateKey args, sa_Signer = nm_P2pSingleSigner args,
    sa_KeyGen = nm_P2pKeyGenerator args, sa_P2PKeyConverter = Some conv\<rparr> = Inr psw"
  using assms by (auto simp: checkArgsNetworkMessenger_def split: if_splits)

lemma built_components:
  assumes "newNetworkMessenger mo ca args sig = Some (hosts, Inr m)"
  shows "\<exists>node. constructNodeWithPortRetry mo args = Some (Inr node) \<and> addComponentsToNode mo ca args sig node = Inr m"
  using assms by (auto simp: newNetworkMessenger_def split: option.splits sum.splits)

lemma built_monitor:
  assumes "newNetworkMessenger mo ca args sig = Some (hosts, Inr m)" and "sharding_Type (Sharding (nm_P2pConfig args)) = ListsSharder"
  shows "\<exists>arg ls0 ls. NewListsSharder (mo_ConvertPeerID mo) arg = Inr ls0 \<and> als_P2pConfig arg = nm_P2pConfig args \<and> sharder_reach ls0 ls \<and>
    peerShardResolver ls = unknownPeerShardResolver \<and>
    cmo_sharder (ch_connMonitor (nme_connections m)) = ListsSharderImpl ls \<and> (\<forall>p. \<not> cmo_IsDenied (ch_connMonitor (nme_connections m)) p)"
proof -
  obtain node where "addComponentsToNode mo ca args sig node = Inr m"
    using built_components [OF assms(1)] by blast
  then obtain sh where sh: "createSharder mo args node = Inr sh"
    and mon: "createConnectionMonitor args (shared_sharder (nme_discoverers m) sh) (nme_discoverers m) node = Inr (ch_connMonitor (nme_connections m))"
    using addComponents_monitor by blast
  obtain arg ls0 where ls0: "sh = ListsSharderImpl ls0" "NewListsSharder (mo_ConvertPeerID mo) arg = Inr ls0" "als_P2pConfig arg = nm_P2pConfig args"
      "peerShardResolver ls0 = unknownPeerShardResolver"
    using createSharder_lists [OF sh assms(2)] by blast
  obtain ls where "shared_sharder (nme_discoverers m) sh = ListsSharderImpl ls" "sharder_reach ls0 ls" "peerShardResolver ls = unknownPeerShardResolver"
    using shared_sharder_reach [OF sharder_reach.new ls0(4), of "nme_discoverers m"] ls0(1) by auto
  with mon ls0 show ?thesis
    by (intro exI [of _ arg] exI [of _ ls0] exI [of _ ls])
      (auto simp: createConnectionMonitor_def dest!: new_monitor)
qed

section \<open>A node\<close>

text \<open>A node with the plain keys, one transport and the limits of the example of the sharders.\<close>

definition example_mo :: "(unit, unit, bytes, bytes, bytes, bytes) messenger_ops" where
  "example_mo = \<lparr>mo_attempt = (\<lambda>k. \<lparr>at_maxCap = 2 ^ 45, at_shuffle = (\<lambda>xs. xs), at_checkFreePort = (\<lambda>p. None), at_NewHost = (\<lambda>a t r. Inr [5])\<rparr>),
     mo_NewResourceManager = (\<lambda>l v4 v6. Inr ()), mo_newTimeCache = (), mo_keys = plain_keys, mo_errorText = (\<lambda>e. ''e''),
     mo_ConvertPeerID = example_convert, mo_Pretty = (\<lambda>p. ''z'')\<rparr>"

definition example_ca :: "(unit, cached_value CacherMock, unit, unit) component_args" where
  "example_ca = \<lparr>ca_GossipSub = (\<lambda>opts. Inr (\<lambda>t. [])), ca_now = 0, ca_timeCache = (\<lambda>span. ()), ca_newCache = (\<lambda>n. Inr NewCacherMock),
     ca_Throttler = (\<lambda>n. Inr ()), ca_sha256 = rev, ca_directHandler = (\<lambda>m p h. (None, h)), ca_env = (\<lambda>ds. ())\<rparr>"

definition example_node_args :: "(bytes, bytes) ArgsNetworkMessenger" where
  "example_node_args = \<lparr>nm_Marshaller = Some plain_marshaller,
     nm_P2pConfig = (als_P2pConfig example_sharding)\<lparr>Node := (Node zero_P2PConfig)\<lparr>Port := ''10000'',
       Transports := \<lparr>TCP = \<lparr>ListenAddress = ''/ip4/0.0.0.0/tcp/%d'', PreventPortReuse = False\<rparr>, QUICAddress = [], WebSocketAddress = [],
         WebTransportAddress = []\<rparr>,
       ResourceLimiter := \<lparr>rl_Type = InfiniteResourceLimiter, ManualSystemMemoryInMB = 0, ManualMaximumFD = 0, Ipv4ConnLimit = [], Ipv6ConnLimit = []\<rparr>\<rparr>\<rparr>,
     nm_nilSyncTimer = False, nm_PreferredPeersHolder = Some two_peers_holder, nm_nilPeersRatingHandler = False,
     nm_ConnectionWatcherType = ConnectionWatcherTypeDisabled, nm_P2pPrivateKey = Some [1, 2], nm_P2pSingleSigner = Some plain_signer,
     nm_P2pKeyGenerator = Some plain_keyGen, nm_Logger = Some \<lparr>isLevelTrace = False\<rparr>\<rparr>"

lemma example_port: "getPort maxCap (\<lambda>xs. xs) ''10000'' h lg = Some (Inr 10000)"
  by (simp add: getPort_def Atoi_def atoi_digits_def is_digit_def digits_value_def)

lemma example_transports:
  "\<exists>r. parseTransportOptions \<lparr>TCP = \<lparr>ListenAddress = ''/ip4/0.0.0.0/tcp/%d'', PreventPortReuse = False\<rparr>, QUICAddress = [], WebSocketAddress = [],
         WebTransportAddress = []\<rparr> port = Inr r"
  by (simp add: parseTransportOptions_def addTransport_def strictCheckStringForIntMarkup_def)

lemma example_construct: "\<exists>node. constructNodeWithPortRetry example_mo example_node_args = Some (Inr node)"
proof -
  obtain opts addrs where t: "parseTransportOptions (Transports (Node (nm_P2pConfig example_node_args))) 10000 = Inr (opts, addrs)"
    using example_transports [of 10000] by (auto simp: example_node_args_def)
  have p: "getPort maxCap (\<lambda>xs. xs) (Port (Node (nm_P2pConfig example_node_args))) h lg = Some (Inr 10000)" for maxCap h lg
    by (simp add: example_node_args_def example_port)
  have "\<exists>node. constructNode example_mo 0 example_node_args = Some (Inr node)"
    using t
    by (simp add: constructNode_def example_mo_def p p2p_err_def crypto_err_def)
      (simp add: example_node_args_def NewConnectionsWatcher_def ConnectionWatcherTypeDisabled_def ConnectionWatcherTypePrint_def
        ConvertPrivateKeyToLibp2pPrivateKey_def plain_keys_def CreateResourceLimiterOption_def InfiniteResourceLimiter_def
        DefaultAutoscaleResourceLimiter_def)
  then show ?thesis by (auto simp: constructNodeWithPortRetry_def maxRetriesIfBindError_def numeral_eq_Suc)
qed

lemma example_built:
  "\<exists>(m :: (unit, unit, unit, unit, unit, bytes, bytes) networkMessenger) hosts.
     NewNetworkMessenger example_mo example_ca example_node_args = Some (hosts, Inr m)"
proof -
  obtain node where node: "constructNodeWithPortRetry example_mo example_node_args = Some (Inr node)" using example_construct by blast
  have "\<exists>ls. createSharder example_mo example_node_args node = Inr (ListsSharderImpl ls)"
    by (simp add: createSharder_def NewSharder_def NewListsSharder_def processNumConnections_def example_node_args_def example_sharding_def)
  then obtain ls where ls: "createSharder example_mo example_node_args node = Inr (ListsSharderImpl ls)" by blast
  have "\<exists>m :: (unit, unit, unit, unit, unit, bytes, bytes) networkMessenger. addComponentsToNode example_mo example_ca example_node_args True node = Inr m"
    by (simp add: addComponentsToNode_def createPubSub_def ls example_ca_def)
      (simp add: example_node_args_def example_sharding_def zero_P2PConfig_def newPeersOnChannel_def refreshPeersOnTopicInterval_def
        ttlPeersOnTopic_def createDiscoverers_def NewPeerDiscoverers_def createConnectionMonitor_def NewLibp2pConnectionMonitorSimple_def
        NewDirectSender_def NewMutexHolder_def NewOutgoingChannelLoadBalancer_def RegisterDirectMessageProcessor_def NewMessagesHandler_def
        checkArgMessagesHandler_def NewConnectionsHandler_def checkArgConnectionsHandler_def)
  then show ?thesis
    by (simp add: NewNetworkMessenger_def newNetworkMessenger_def node checkArgsNetworkMessenger_def)
      (auto simp: example_node_args_def validateSeeders_def example_sharding_def zero_P2PConfig_def)
qed

section \<open>The outcome of the construction\<close>

text \<open>A built node: its parts have its identifier, what they share is shared, nothing is closed, and its port is one that the machine gave.\<close>

definition node_wf :: "('r, 'k, 'sk, 'pk, 'lsk, 'lpk) messenger_ops \<Rightarrow> ('sk, 'pk) ArgsNetworkMessenger
  \<Rightarrow> ('k, 'd, 'e, 'mc, 'msk, 'sk, 'pk) networkMessenger \<Rightarrow> bool" where
  "node_wf mo args m \<longleftrightarrow>
     h_peerID (nme_messages m) = messenger_ID m \<and> ch_peerID (nme_connections m) = messenger_ID m \<and>
     nm_PreferredPeersHolder args = Some (cmo_preferred (ch_connMonitor (nme_connections m))) \<and>
     cmo_threshold (ch_connMonitor (nme_connections m)) = uint (ThresholdMinConnectedPeers (Node (nm_P2pConfig args))) \<and>
     cmo_watcher (ch_connMonitor (nme_connections m)) = node_watcher (nme_node m) \<and>
     \<not> node_ctxDone (nme_node m) \<and> \<not> h_ctxDone (nme_messages m) \<and> \<not> ch_ctxDone (nme_connections m) \<and>
     \<not> cmo_closed (ch_connMonitor (nme_connections m)) \<and>
     list_all (\<lambda>seeder. \<not> strings_Contains seeder (mo_Pretty mo (messenger_ID m))) (InitialPeerList (KadDhtPeerDiscovery (nm_P2pConfig args))) \<and>
     list_ex (\<lambda>k. getPort (at_maxCap (mo_attempt mo k)) (at_shuffle (mo_attempt mo k)) (Port (Node (nm_P2pConfig args))) (at_checkFreePort (mo_attempt mo k)) (nm_Logger args)
        = Some (Inr (messenger_Port m))) [0..<maxRetriesIfBindError]"

lemma constructNode_Inr:
  assumes "constructNode mo k args = Some (Inr node)"
  shows "getPort (at_maxCap (mo_attempt mo k)) (at_shuffle (mo_attempt mo k)) (Port (Node (nm_P2pConfig args))) (at_checkFreePort (mo_attempt mo k)) (nm_Logger args)
      = Some (Inr (node_port node))" "\<not> node_ctxDone node"
  using assms by (auto simp: constructNode_def andThen_Inr_iff Let_def p2p_err_def crypto_err_def map_sum_Inr_iff split: prod.splits option.splits)

lemma constructed_port:
  assumes "constructNodeWithPortRetry mo args = Some (Inr node)"
  shows "list_ex (\<lambda>k. getPort (at_maxCap (mo_attempt mo k)) (at_shuffle (mo_attempt mo k)) (Port (Node (nm_P2pConfig args))) (at_checkFreePort (mo_attempt mo k)) (nm_Logger args)
        = Some (Inr (node_port node))) [0..<maxRetriesIfBindError]" "\<not> node_ctxDone node"
proof -
  obtain k where k: "k < maxRetriesIfBindError" "constructNode mo k args = Some (Inr node)"
    using assms by (auto simp: constructNodeWithPortRetry_def retry_Inr)
  then show "\<not> node_ctxDone node" "list_ex (\<lambda>k. getPort (at_maxCap (mo_attempt mo k)) (at_shuffle (mo_attempt mo k)) (Port (Node (nm_P2pConfig args)))
      (at_checkFreePort (mo_attempt mo k)) (nm_Logger args) = Some (Inr (node_port node))) [0..<maxRetriesIfBindError]"
    using constructNode_Inr [OF k(2)] by (auto simp: list_ex_iff)
qed

lemma createConnectionMonitor_Inr:
  assumes "createConnectionMonitor args sh ds node = Inr mon"
  shows "nm_PreferredPeersHolder args = Some (cmo_preferred mon)"
    "cmo_threshold mon = uint (ThresholdMinConnectedPeers (Node (nm_P2pConfig args)))" "cmo_watcher mon = node_watcher node" "\<not> cmo_closed mon"
  using assms by (auto simp: createConnectionMonitor_def NewLibp2pConnectionMonitorSimple_def split: if_splits option.splits)

lemma NewMessagesHandler_Inr:
  "NewMessagesHandler err env args = Inr mh \<Longrightarrow> h_peerID mh = am_PeerID args \<and> \<not> h_ctxDone mh"
  by (auto simp: NewMessagesHandler_def split: option.splits)

lemma NewConnectionsHandler_Inr:
  "NewConnectionsHandler args = Inr ch \<Longrightarrow>
     ch_peerID ch = ach_PeerID args \<and> \<not> ch_ctxDone ch \<and> ach_ConnMonitor args = Some (ch_connMonitor ch)"
  by (auto simp: NewConnectionsHandler_def checkArgConnectionsHandler_def split: option.splits if_splits)

lemma addComponents_parts:
  assumes "addComponentsToNode mo ca args sig node = Inr m"
  shows "nme_node m = node" "h_peerID (nme_messages m) = node_ID node" "\<not> h_ctxDone (nme_messages m)"
    "ch_peerID (nme_connections m) = node_ID node" "\<not> ch_ctxDone (nme_connections m)"
  using assms
  by (auto simp: addComponentsToNode_def andThen_Inr_iff Let_def RegisterDirectMessageProcessor_def
      dest!: NewMessagesHandler_Inr NewConnectionsHandler_Inr)

lemma built_node_wf:
  assumes "constructNodeWithPortRetry mo args = Some (Inr node)" and "addComponentsToNode mo ca args sig node = Inr m"
    and "validateSeeders mo (InitialPeerList (KadDhtPeerDiscovery (nm_P2pConfig args))) node = None"
  shows "node_wf mo args m" "messenger_ID m = node_ID node"
proof -
  note parts = addComponents_parts [OF assms(2)]
  obtain sh where mon: "createConnectionMonitor args (shared_sharder (nme_discoverers m) sh) (nme_discoverers m) node =
      Inr (ch_connMonitor (nme_connections m))"
    using addComponents_monitor [OF assms(2)] by blast
  have "list_all (\<lambda>seeder. \<not> strings_Contains seeder (mo_Pretty mo (node_ID node))) (InitialPeerList (KadDhtPeerDiscovery (nm_P2pConfig args)))"
    using assms(3) by (auto simp: validateSeeders_def Let_def list_ex_iff list_all_iff split: if_splits)
  then show "node_wf mo args m"
    using constructed_port [OF assms(1)] createConnectionMonitor_Inr [OF mon] parts
    by (simp add: node_wf_def messenger_ID_def messenger_Port_def)
  show "messenger_ID m = node_ID node" by (simp add: messenger_ID_def parts)
qed

section \<open>Properties\<close>

lemma constructNode_None:
  "constructNode mo k args = None \<longleftrightarrow>
     getPort (at_maxCap (mo_attempt mo k)) (at_shuffle (mo_attempt mo k)) (Port (Node (nm_P2pConfig args)))
       (at_checkFreePort (mo_attempt mo k)) (nm_Logger args) = None"
  by (simp add: constructNode_def Let_def split: option.split)

lemma newNetworkMessenger_None:
  "newNetworkMessenger mo ca args sig = None \<longleftrightarrow>
     checkArgsNetworkMessenger args = None \<and> constructNodeWithPortRetry mo args = None"
  by (simp add: newNetworkMessenger_def split: option.split sum.split)

text \<open>
  C4. What NewNetworkMessenger gives. It panics exactly when the choice of the port panics at one of at most ten attempts,
  all earlier ones having failed with a bind error. Otherwise a node is well formed: its messages handler and its connections handler have the
  identifier of its host, the monitor has the holder, the watcher and the threshold of the arguments, nothing is closed,
  its own identifier is in no address of the initial peer list and its port is one of at most ten attempts. After an
  error a host stays open exactly when the identifier of the host that was built is in the initial peer list.
\<close>

theorem new_messenger_outcome:
  "((NewNetworkMessenger mo ca args :: (peerid list \<times> (node_error option + ('k, 'd, 'e, 'mc, 'msk, 'sk, 'pk) networkMessenger)) option) = None \<longleftrightarrow>
      checkArgsNetworkMessenger args = None \<and>
      (\<exists>k < maxRetriesIfBindError.
         getPort (at_maxCap (mo_attempt mo k)) (at_shuffle (mo_attempt mo k)) (Port (Node (nm_P2pConfig args)))
           (at_checkFreePort (mo_attempt mo k)) (nm_Logger args) = None \<and>
         list_all (bind_error mo args) [0..<k])) \<and>
   (case (NewNetworkMessenger mo ca args :: (peerid list \<times> (node_error option + ('k, 'd, 'e, 'mc, 'msk, 'sk, 'pk) networkMessenger)) option) of
      None \<Rightarrow> True
    | Some (hosts, Inr m) \<Rightarrow> hosts = [messenger_ID m] \<and> node_wf mo args m
    | Some (hosts, Inl err) \<Rightarrow>
       (hosts \<noteq> [] \<longleftrightarrow> checkArgsNetworkMessenger args = None \<and>
          (\<exists>node. constructNodeWithPortRetry mo args = Some (Inr node) \<and> hosts = [node_ID node] \<and> err = Some (P2PError ErrInvalidConfig) \<and>
             list_ex (\<lambda>seeder. strings_Contains seeder (mo_Pretty mo (node_ID node))) (InitialPeerList (KadDhtPeerDiscovery (nm_P2pConfig args))))))"
    (is "(?panics \<longleftrightarrow> ?when) \<and> ?outcome")
proof
  show "?panics \<longleftrightarrow> ?when"
    by (simp add: NewNetworkMessenger_def newNetworkMessenger_None constructNodeWithPortRetry_def retry_None constructNode_None list_all_iff Ball_def)
  show ?outcome
  proof (cases "checkArgsNetworkMessenger args")
    case None
    show ?thesis
    proof (cases "constructNodeWithPortRetry mo args" rule: option_sum_cases)
      case (2 node)
      show ?thesis
      proof (cases "validateSeeders mo (InitialPeerList (KadDhtPeerDiscovery (nm_P2pConfig args))) node")
        case valid: None
        show ?thesis
        proof (cases "addComponentsToNode mo ca args True node :: ('k, 'd, 'e, 'mc, 'msk, 'sk, 'pk) networkMessenger res")
          case add: (Inr m)
          with None 2 valid built_node_wf [OF 2 add valid] show ?thesis by (simp add: NewNetworkMessenger_def newNetworkMessenger_def)
        qed (simp add: NewNetworkMessenger_def newNetworkMessenger_def None 2 valid)
      next
        case (Some err)
        with None 2 show ?thesis
          by (auto simp: NewNetworkMessenger_def newNetworkMessenger_def validateSeeders_def Let_def split: if_splits)
      qed
    qed (simp_all add: NewNetworkMessenger_def newNetworkMessenger_def None)
  qed (simp add: NewNetworkMessenger_def newNetworkMessenger_def)
qed

text \<open>
  C22. A node built by NewNetworkMessenger with the lists sharder, in every state that its connections handler and
  its monitor reach. Counted are the seeders and the peers that are not preferred: preferred peers that are no seeders are exempt
  from the limits, however many they are. Of the peers whose connection event was handled and whose identifier is not that of a connection
  closed before, those counted stay within the configured target peer count, and the seeders within their maximum. No connection
  event makes the sharder panic. The event of a peer that is denied closes its connection and does nothing else, preferred or not; the
  event of a peer that is not denied closes no connection to a peer that is exempt.
\<close>

theorem built_node_keeps_the_limits:
  assumes "NewNetworkMessenger mo ca args = Some (hosts, Inr m)" and "sharding_Type (Sharding (nm_P2pConfig args)) = ListsSharder"
    and "\<forall>p. length (mo_ConvertPeerID mo p) = 32" and "sorter srt Distance" and "network_laws nw"
    and "conn_run nw tc srt all (nme_connections m) (h, n, pend, gone)"
  shows "int (card {p \<in> settled nw n pend - gone. limited nw (ch_connMonitor h) p}) \<le> uint (TargetPeerCount (Sharding (nm_P2pConfig args))) \<and>
    int (card {p \<in> settled nw n pend. Sharder_IsSeeder (nw_Pretty nw) (cmo_sharder (ch_connMonitor h)) p})
      \<le> uint (MaxSeeders (Sharding (nm_P2pConfig args))) \<and>
    (if cmo_IsDenied (ch_connMonitor h) (nc_RemotePeer c)
     then Connected nw tc srt all c (ch_connMonitor h) n = Some (ch_connMonitor h, snd (nw_CloseConn nw c n))
     else \<exists>mon' n'. Connected nw tc srt all c (ch_connMonitor h) n = Some (mon', n') \<and>
        (\<forall>d \<in> set (nw_Conns nw n). \<not> limited nw (ch_connMonitor h) (nc_RemotePeer d) \<longrightarrow> d \<in> set (nw_Conns nw n')))"
proof -
  obtain arg ls0 ls where new: "NewListsSharder (mo_ConvertPeerID mo) arg = Inr ls0" and cfg: "als_P2pConfig arg = nm_P2pConfig args"
    and reach: "sharder_reach ls0 ls" and res: "peerShardResolver ls = unknownPeerShardResolver"
    and sh: "cmo_sharder (ch_connMonitor (nme_connections m)) = ListsSharderImpl ls"
    using built_monitor [OF assms(1) [unfolded NewNetworkMessenger_def] assms(2)] by blast
  have "built_sharder (mo_ConvertPeerID mo) arg (cmo_sharder (ch_connMonitor (nme_connections m)))"
    using new reach sh by (auto simp: built_sharder_def known_types_def res unknownPeerShardResolver_def)
  then have "run_inv nw (mo_ConvertPeerID mo) arg (h, n, pend, gone)" by (rule run_inv_reach [OF assms(6) _ assms(3-5)])
  then have built: "built_sharder (mo_ConvertPeerID mo) arg (cmo_sharder (ch_connMonitor h))"
    and lim: "within_limits nw arg (ch_connMonitor h) gone (settled nw n pend)" by (simp_all add: run_inv_def)
  have "\<not> cmo_IsDenied (ch_connMonitor h) (nc_RemotePeer c) \<Longrightarrow>
      \<exists>mon' n'. Connected nw tc srt all c (ch_connMonitor h) n = Some (mon', n') \<and>
        (\<forall>d \<in> set (nw_Conns nw n). \<not> limited nw (ch_connMonitor h) (nc_RemotePeer d) \<longrightarrow> d \<in> set (nw_Conns nw n'))"
    using Connected_within [OF built assms(3-5)] by blast
  moreover have "cmo_IsDenied (ch_connMonitor h) (nc_RemotePeer c) \<Longrightarrow>
      Connected nw tc srt all c (ch_connMonitor h) n = Some (ch_connMonitor h, snd (nw_CloseConn nw c n))"
    by (simp add: Connected_def)
  ultimately show ?thesis using lim by (simp add: within_limits_def cfg)
qed

theorem built_node_keeps_the_limits_witness:
  "\<exists>(m :: (unit, unit, unit, unit, unit, bytes, bytes) networkMessenger) hosts mon n.
     NewNetworkMessenger example_mo example_ca example_node_args = Some (hosts, Inr m) \<and>
     Connected example_network example_watcher_cache sort_PeerDistances 255 example_conn (ch_connMonitor (nme_connections m))
       [example_conn, example_conn\<lparr>nc_RemotePeer := [3]\<rparr>] = Some (mon, n) \<and>
     int (card {p \<in> settled example_network n {example_conn\<lparr>nc_RemotePeer := [3]\<rparr>}. limited example_network mon p}) \<le> 6"
proof -
  let ?n = "[example_conn, example_conn\<lparr>nc_RemotePeer := [3]\<rparr>]"
  obtain m :: "(unit, unit, unit, unit, unit, bytes, bytes) networkMessenger" and hosts
    where m: "NewNetworkMessenger example_mo example_ca example_node_args = Some (hosts, Inr m)" using example_built by blast
  have lists: "sharding_Type (Sharding (nm_P2pConfig example_node_args)) = ListsSharder" and conv: "\<forall>p. length (mo_ConvertPeerID example_mo p) = 32"
    and target: "TargetPeerCount (Sharding (nm_P2pConfig example_node_args)) = 6"
    using example_convert_32 by (simp_all add: example_node_args_def example_sharding_def example_mo_def)
  note limits = built_node_keeps_the_limits [OF m lists conv pd_sorter.sorter_axioms example_network_laws]
  have run: "conn_run example_network example_watcher_cache sort_PeerDistances 255 (nme_connections m)
      (nme_connections m, ?n, {example_conn, example_conn\<lparr>nc_RemotePeer := [3]\<rparr>}, {})"
    using conn_run.start [of example_network _ _ _ "nme_connections m" ?n] by (simp add: example_network_def)
  have "\<not> cmo_IsDenied (ch_connMonitor (nme_connections m)) (nc_RemotePeer example_conn)"
    using built_monitor [OF m [unfolded NewNetworkMessenger_def] lists] by blast
  then obtain mon n where c: "Connected example_network example_watcher_cache sort_PeerDistances 255 example_conn
      (ch_connMonitor (nme_connections m)) ?n = Some (mon, n)" using limits [OF run, of example_conn] by auto
  have "conn_run example_network example_watcher_cache sort_PeerDistances 255 (nme_connections m)
      (set_monitor mon (nme_connections m), n, {example_conn, example_conn\<lparr>nc_RemotePeer := [3]\<rparr>} - {example_conn}, {})"
    by (rule conn_run.step [OF run conn_step.connected [OF _ c]]) simp
  then have "conn_run example_network example_watcher_cache sort_PeerDistances 255 (nme_connections m)
      (set_monitor mon (nme_connections m), n, {example_conn\<lparr>nc_RemotePeer := [3]\<rparr>}, {})"
    by (simp add: example_conn_def insert_Diff_if)
  from limits [OF this] target m c show ?thesis by auto
qed

end
