(* ===== verification/Broadcasts.thy ===== *)
theory Broadcasts
  imports MessagesHandler
begin

text \<open>
  The path of a broadcast through two messages handlers (\<^verbatim>\<open>p2p/libp2p/messagesHandler.go\<close>): the loop that publishes
  what the load balancer collects, as runs of its turns, and the delivery to the processors of another node.
\<close>

section \<open>The publishing loop\<close>

text \<open>
  \<open>publishes ops\<close>: the publishing of pubsub succeeds and is recorded with its topic, its data and the key it is signed
  with. \<open>publish_entry\<close> is what one collected element leads to.
\<close>

definition publishes :: "('e \<times> (nat \<times> bytes \<times> ('sk \<times> peerid) option) list, 'c, 'sk) handler_ops \<Rightarrow> bool" where
  "publishes ops \<longleftrightarrow> (\<forall>t b sk e log. ho_Publish ops t b sk (e, log) = (None, (e, log @ [(t, b, sk)])))"

definition publish_entry :: "('e, 'c, 'sk) messagesHandler \<Rightarrow> int \<Rightarrow> 'sk SendableData option
  \<Rightarrow> (nat \<times> bytes \<times> ('sk \<times> peerid) option) list" where
  "publish_entry h now obj =
     (case obj of
        None \<Rightarrow> []
      | Some sd \<Rightarrow>
          (case h_topics h (sd_Topic sd) of
             None \<Rightarrow> []
           | Some t \<Rightarrow>
               (if createMessageBytes now h (sd_Buff sd) = [] then []
                else [(t, createMessageBytes now h (sd_Buff sd), map_option (\<lambda>sk. (sk, sd_ID sd)) (sd_Sk sd))])))"

lemma createMessageBytes_env [simp]: "createMessageBytes now (h\<lparr>h_env := e\<rparr>) buff = createMessageBytes now h buff"
  by (simp add: createMessageBytes_def)

lemma publish_entry_env [simp]: "publish_entry (h\<lparr>h_env := e\<rparr>) now obj = publish_entry h now obj"
  by (simp add: publish_entry_def split: option.split)

lemma processSendable_publishes:
  assumes "publishes ops" and "h_env h = (e, log)"
  shows "processSendable ops now obj h = h\<lparr>h_env := (e, log @ publish_entry h now obj)\<rparr>"
proof -
  have "h\<lparr>h_env := (e, log)\<rparr> = h" using assms(2) by (cases h) simp
  with assms show ?thesis
    by (auto simp: processSendable_def publish_entry_def publish_def publishes_def Let_def split: option.split)
qed

text \<open>Turns of the loop of \<^verbatim>\<open>processChannelLoadBalancer\<close>: the element that was collected and the time of each.\<close>

fun publish_run :: "('e, 'c, 'sk) handler_ops \<Rightarrow> (int \<times> 'sk SendableData option) list \<Rightarrow> ('e, 'c, 'sk) messagesHandler \<Rightarrow> ('e, 'c, 'sk) messagesHandler" where
  "publish_run ops [] h = h"
| "publish_run ops ((now, obj) # turns) h = publish_run ops turns (processSendable ops now obj h)"

lemma publish_run_publishes:
  assumes "publishes ops" and "h_env h = (e, log)"
  shows "h_env (publish_run ops turns h) = (e, log @ concat (map (\<lambda>(now, obj). publish_entry h now obj) turns))"
  using assms(2)
proof (induction turns arbitrary: h log)
  case (Cons turn turns)
  obtain now obj where turn: "turn = (now, obj)" by (cases turn)
  let ?h = "h\<lparr>h_env := (e, log @ publish_entry h now obj)\<rparr>"
  have "processSendable ops now obj h = ?h" by (rule processSendable_publishes [OF assms(1) Cons.prems])
  with Cons.IH [of ?h "log @ publish_entry h now obj"] show ?case by (simp add: turn)
qed simp

section \<open>From one node to another\<close>

lemma Broadcast_topic_on:
  assumes "Broadcast_topic ops topic buff h = (BroadcastOn ch sd, h')"
  shows "sd = \<lparr>sd_Buff = buff, sd_Topic = topic, sd_Sk = None, sd_ID = h_peerID h\<rparr>" "ch = GetChannelOrDefault topic (h_outgoingCLB h)"
    "0 < length buff" "length buff \<le> maxSendBuffSize"
  using assms
  by (auto simp: Broadcast_topic_def BroadcastOnChannel_def broadcastOnChannelBlocking_def broadcastSendable_def checkSendableData_def
      split: option.splits if_splits)

lemma createMessageBytes_Inr:
  assumes "createMessageBytes now h buff \<noteq> []"
  shows "tm_Marshal (h_marshaller h) (TopicMessage_zero\<lparr>tm_Version := currentTopicMessageVersion, tm_Payload := buff,
      tm_Timestamp := word_of_int now\<rparr>) = Inr (createMessageBytes now h buff)"
  using assms by (auto simp: createMessageBytes_def Let_def split: sum.splits)

text \<open>What was packed by \<open>createMessageBytes\<close> is read by \<open>NewMessage\<close>, with the time at which it was packed.\<close>

lemma NewMessage_packed:
  assumes "codec_laws ps mars" and "h_marshaller h = mars" and "createMessageBytes now h buff \<noteq> []"
    and "pb_Data pm = createMessageBytes now h buff" and "pb_Topic pm = Some topic" and "peer_IDFromBytes ps (pb_From pm) = Inr p"
    and "0 \<le> now" "now < 2 ^ 63"
  shows "\<exists>m. NewMessage ps (Some mars) (Some pm) bm = Inr m \<and> DataField m = buff \<and> TopicField m = topic \<and> PeerField m = p \<and>
    BroadcastMethodField m = bm \<and> sint (TimestampField m) = now"
proof -
  let ?tm = "TopicMessage_zero\<lparr>tm_Version := currentTopicMessageVersion, tm_Payload := buff, tm_Timestamp := word_of_int now\<rparr>"
  have "tm_Unmarshal mars (createMessageBytes now h buff) = Inr ?tm"
    using createMessageBytes_Inr [OF assms(3)] assms(1,2) by (auto simp: codec_laws_def)
  moreover have "sint (word_of_int now :: int64) = now" using assms(7,8) by (simp add: signed_of_int signed_take_bit_int_eq_self)
  ultimately show ?thesis using assms(4-6) by (simp add: NewMessage_def TopicMessage_zero_def)
qed

text \<open>
  What the validator of a topic does with a message that passes the checks. All processors are called, in their order, each
  in the state that the one before left. The cache of equivalent messages is only asked when all accept the message.
\<close>

lemma callProcessors_env: "snd (snd (callProcessors ps msg p i ok e)) = fold (\<lambda>proc e. snd (proc msg p e)) ps e"
  by (induction ps arbitrary: i ok e) (auto split: prod.splits)

lemma isEquivalent_result:
  assumes "cacher (ho_cache ops) view" and "isEquivalentMessageFirstBroadcast ops i topic h = (r, h')"
  shows "r \<longleftrightarrow> i = [] \<or> (case h_equivalentMessages h topic of None \<Rightarrow> True | Some c \<Rightarrow> view c i = None)" "h_env h' = h_env h"
    "i \<noteq> [] \<Longrightarrow> h_equivalentMessages h topic = Some c \<Longrightarrow> \<exists>c'. h_equivalentMessages h' topic = Some c' \<and> view c' i = Some ()"
proof -
  have get: "Get (ho_cache ops) i c = (view c i, snd (Get (ho_cache ops) i c))" for c
    by (metis cacher.get_val [OF assms(1)] prod.collapse)
  show "r \<longleftrightarrow> i = [] \<or> (case h_equivalentMessages h topic of None \<Rightarrow> True | Some c \<Rightarrow> view c i = None)" "h_env h' = h_env h"
    using assms(2)
    by (auto simp: isEquivalentMessageFirstBroadcast_def cacher.get_val [OF assms(1), symmetric] split: if_splits option.splits prod.splits)
  show "\<exists>c'. h_equivalentMessages h' topic = Some c' \<and> view c' i = Some ()" if "i \<noteq> []" "h_equivalentMessages h topic = Some c"
  proof (cases "view c i")
    case None
    then show ?thesis using assms(2) that get [of c]
      by (auto simp: isEquivalentMessageFirstBroadcast_def cacher.put_same [OF assms(1)] split: prod.splits)
  next
    case (Some u)
    have "view (snd (Get (ho_cache ops) i c)) = view c" by (rule cacher.get_view [OF assms(1)])
    then show ?thesis using assms(2) that get [of c] Some
      by (auto simp: isEquivalentMessageFirstBroadcast_def split: prod.splits)
  qed
qed

definition delivered :: "('e, 'c, 'sk) handler_ops \<Rightarrow> ('c \<Rightarrow> bytes \<Rightarrow> unit option) \<Rightarrow> nat \<Rightarrow> string \<Rightarrow> peerid \<Rightarrow> Message
  \<Rightarrow> ('e, 'c, 'sk) messagesHandler \<Rightarrow> bool \<Rightarrow> ('e, 'c, 'sk) messagesHandler \<Rightarrow> bool" where
  "delivered ops view a topic relay m h passed h' \<longleftrightarrow>
     (let procs = snd (GetList (ho_iter ops) (objectAt h a));
          as = answers procs m relay (h_env h);
          accepted = (\<forall>x \<in> set as. snd x = None);
          i = (if procs = [] then [] else fst (last as))
      in h_env h' = fold (\<lambda>proc e. snd (proc m relay e)) procs (h_env h) \<and>
         (passed \<longleftrightarrow> accepted \<and> (i = [] \<or> (case h_equivalentMessages h topic of None \<Rightarrow> True | Some c \<Rightarrow> view c i = None))) \<and>
         (\<forall>c. accepted \<and> i \<noteq> [] \<and> h_equivalentMessages h topic = Some c \<longrightarrow>
            (\<exists>c'. h_equivalentMessages h' topic = Some c' \<and> view c' i = Some ())) \<and>
         (\<not> accepted \<longrightarrow> h_equivalentMessages h' = h_equivalentMessages h))"

lemma callback_delivered:
  assumes "cacher (ho_cache ops) view" and "NewMessage (ho_pubsub ops) (Some (h_marshaller h)) (Some pm) Broadcast = Inr m"
    and "validateMessageByTimestamp now m = None" and "pubsubCallback ops a topic now relay pm h = (passed, h')"
  shows "delivered ops view a topic relay m h passed h'"
proof -
  let ?procs = "snd (GetList (ho_iter ops) (objectAt h a))"
  let ?as = "answers ?procs m relay (h_env h)"
  obtain i ok e where call: "callProcessors ?procs m relay [] True (h_env h) = (i, ok, e)" by (metis prod_cases3)
  have e: "e = fold (\<lambda>proc e. snd (proc m relay e)) ?procs (h_env h)"
    using callProcessors_env [of ?procs m relay "[]" True "h_env h"] call by simp
  have ok: "ok \<longleftrightarrow> (\<forall>x \<in> set ?as. snd x = None)" using callProcessors_ok [of ?procs m relay "[]" True "h_env h"] call by simp
  have i: "i = (if ?procs = [] then [] else fst (last ?as))" using callProcessors_id [of ?procs m relay "[]" True "h_env h"] call by simp
  let ?h = "\<lambda>rejected. processDebugMessage topic relay (length (pb_Data pm)) rejected (h\<lparr>h_env := e\<rparr>)"
  note cb = pubsubCallback_delivers [OF assms(2,3) call, of topic, unfolded assms(4)]
  show ?thesis
  proof (cases ok)
    case False
    then show ?thesis
      using cb unfolding delivered_def Let_def ok [symmetric] i [symmetric] e [symmetric] by (simp add: processDebug_fields)
  next
    case True
    then have eq: "isEquivalentMessageFirstBroadcast ops i topic (?h False) = (passed, h')" using cb by simp
    note r = isEquivalent_result [OF assms(1) eq, unfolded processDebug_fields]
    have eqv: "h_equivalentMessages (h\<lparr>h_env := e\<rparr>) = h_equivalentMessages h" by simp
    show ?thesis
      using r(1,2) r(3) [unfolded eqv] True unfolding delivered_def Let_def ok [symmetric] i [symmetric] e [symmetric] by simp
  qed
qed

section \<open>Property\<close>

text \<open>
  C32. Node A broadcasts a buffer on a topic it has joined. When the loop of A gets the element from the load balancer, it
  publishes exactly one packet on this topic, unsigned by a foreign key. When pubsub hands such a packet from A, relayed by
  any peer, to the validator of the topic at node B, and the clocks agree (the time of A is later than 580 seconds before
  and earlier than 20 seconds after the time of B), every processor of the topic at B is called with a broadcast
  message from A with exactly this buffer and topic, in the order of the iteration and whatever the others answer. The
  message passes on exactly when all accept it and its identifier, the last answer, is not in the cache of equivalent
  messages of the topic (or empty); afterwards the cache has it, and it is not asked when a processor refuses.
\<close>

theorem broadcast_end_to_end:
  assumes "codec_laws (ho_pubsub opsB) (h_marshaller hB)" and "publishes opsA" and "cacher (ho_cache opsB) view"
    and "Broadcast_topic opsA topic buff hA = (BroadcastOn ch sd, hA')"
    and "h_marshaller hA2 = h_marshaller hB" and "h_env hA2 = (e, log)" and "h_topics hA2 topic = Some t"
    and "createMessageBytes nowA hA2 buff \<noteq> []" and "0 \<le> nowA" "nowA < 2 ^ 63" and "nowB - 580 < nowA" "nowA < nowB + 20"
    and "peer_IDFromBytes (ho_pubsub opsB) (h_peerID hA) = Inr (h_peerID hA)"
  shows "\<exists>packet. h_env (processSendable opsA nowA (Some sd) hA2) = (e, log @ [(t, packet, None)]) \<and>
    (\<forall>pm passed hB'. pb_Data pm = packet \<and> pb_Topic pm = Some topic \<and> pb_From pm = h_peerID hA \<and>
       pubsubCallback opsB a topic nowB relay pm hB = (passed, hB') \<longrightarrow>
      (\<exists>m. DataField m = buff \<and> TopicField m = topic \<and> PeerField m = h_peerID hA \<and> BroadcastMethodField m = Broadcast \<and>
        (let procs = snd (GetList (ho_iter opsB) (objectAt hB a));
             as = answers procs m relay (h_env hB);
             accepted = (\<forall>x \<in> set as. snd x = None);
             i = (if procs = [] then [] else fst (last as))
         in h_env hB' = fold (\<lambda>proc e. snd (proc m relay e)) procs (h_env hB) \<and>
            (passed \<longleftrightarrow> accepted \<and> (i = [] \<or> (case h_equivalentMessages hB topic of None \<Rightarrow> True | Some c \<Rightarrow> view c i = None))) \<and>
            (\<forall>c. accepted \<and> i \<noteq> [] \<and> h_equivalentMessages hB topic = Some c \<longrightarrow>
               (\<exists>c'. h_equivalentMessages hB' topic = Some c' \<and> view c' i = Some ())) \<and>
            (\<not> accepted \<longrightarrow> h_equivalentMessages hB' = h_equivalentMessages hB))))"
  unfolding delivered_def [symmetric]
proof (rule exI [of _ "createMessageBytes nowA hA2 buff"], intro conjI allI impI; (elim conjE)?)
  have sd: "sd = \<lparr>sd_Buff = buff, sd_Topic = topic, sd_Sk = None, sd_ID = h_peerID hA\<rparr>" by (rule Broadcast_topic_on(1) [OF assms(4)])
  then show "h_env (processSendable opsA nowA (Some sd) hA2) = (e, log @ [(t, createMessageBytes nowA hA2 buff, None)])"
    using assms(7,8) by (simp add: processSendable_publishes [OF assms(2,6)] publish_entry_def)
  fix pm :: pb_Message and passed hB'
  assume pm: "pb_Data pm = createMessageBytes nowA hA2 buff" "pb_Topic pm = Some topic" "pb_From pm = h_peerID hA"
    and cb: "pubsubCallback opsB a topic nowB relay pm hB = (passed, hB')"
  from pm obtain m where m: "NewMessage (ho_pubsub opsB) (Some (h_marshaller hB)) (Some pm) Broadcast = Inr m" "DataField m = buff" "TopicField m = topic"
    "PeerField m = h_peerID hA" "BroadcastMethodField m = Broadcast" "sint (TimestampField m) = nowA"
    using NewMessage_packed [OF assms(1,5,8) pm(1,2) _ assms(9,10)] assms(13) by metis
  have "validateMessageByTimestamp nowB m = None"
    using m(6) assms(11,12) by (simp add: validate_iff pubsubTimeCacheDuration_def acceptMessagesInAdvanceDuration_def)
  from callback_delivered [OF assms(3) m(1) this cb] m(2-5)
  show "\<exists>m. DataField m = buff \<and> TopicField m = topic \<and> PeerField m = h_peerID hA \<and> BroadcastMethodField m = Broadcast \<and>
      delivered opsB view a topic relay m hB passed hB'" by blast
qed

text \<open>A node with a record of what it published.\<close>

type_synonym publishing_env = "unit \<times> (nat \<times> bytes \<times> (unit \<times> peerid) option) list"

definition publishing_ops :: "(publishing_env, unit CacherMock, unit) handler_ops" where
  "publishing_ops = \<lparr>ho_pubsub = plain_pubsub, ho_RegisterTopicValidator = (\<lambda>t v. None), ho_UnregisterTopicValidator = (\<lambda>t v. None),
     ho_Join = (\<lambda>t. Inr 0), ho_Subscribe = (\<lambda>t. Inr 0), ho_TopicClose = (\<lambda>t. None),
     ho_Publish = (\<lambda>t b sk (e, log). (None, (e, log @ [(t, b, sk)]))), ho_DirectSend = (\<lambda>topic b p e. (None, e)),
     ho_NextSequenceNumber = (\<lambda>e. ([1], e)), ho_CanProcess = (\<lambda>e. True), ho_StartProcessing = (\<lambda>e. e), ho_EndProcessing = (\<lambda>e. e),
     ho_IsDenied = (\<lambda>p e. False), ho_UpsertPeerID = (\<lambda>p d e. (None, e)), ho_IncreaseRating = (\<lambda>p e. e), ho_UnmarshalSk = (\<lambda>b. Inr ()),
     ho_NewCache = (\<lambda>n. Inr NewCacherMock), ho_cache = CacherMock_ops, ho_iter = (\<lambda>xs. xs)\<rparr>"

definition publishing_handler :: "(publishing_env, unit CacherMock, unit) messagesHandler" where
  "publishing_handler = \<lparr>h_env = ((), []), h_objects = Map.empty, h_nextObject = 0, h_processors = Map.empty, h_validators = Map.empty,
     h_topics = [''t'' \<mapsto> 4], h_subscriptions = Map.empty, h_cancelled = {}, h_equivalentMessages = Map.empty,
     h_outgoingCLB = h_outgoingCLB example_handler, h_marshaller = plain_marshaller, h_debugger = [], h_peerID = [9], h_ctxDone = False\<rparr>"

theorem broadcast_end_to_end_witness:
  "\<exists>sd hA' packet hB'. Broadcast_topic publishing_ops ''t'' [5, 6] publishing_handler = (BroadcastOn (Some 0) sd, hA') \<and>
     h_env (processSendable publishing_ops 100 (Some sd) publishing_handler) = ((), [(4, packet, None)]) \<and>
     pubsubCallback example_ops 0 ''t'' 110 [3] \<lparr>pb_From = [9], pb_Data = packet, pb_Seqno = [], pb_Topic = Some ''t'', pb_Signature = [],
       pb_Key = None\<rparr> example_registered = (True, hB') \<and> h_env hB' = [1]"
proof -
  let ?sd = "\<lparr>sd_Buff = [5, 6], sd_Topic = ''t'', sd_Sk = None, sd_ID = [9]\<rparr>"
  have b: "Broadcast_topic publishing_ops ''t'' [5, 6] publishing_handler = (BroadcastOn (Some 0) ?sd, publishing_handler)"
    by (simp add: Broadcast_topic_def BroadcastOnChannel_def broadcastOnChannelBlocking_def broadcastSendable_def checkSendableData_def
        maxSendBuffSize_def messageHeader_def publishing_ops_def publishing_handler_def example_handler_def GetChannelOrDefault_def)
  have bytes: "createMessageBytes 100 publishing_handler [5, 6] \<noteq> []"
    using example_tm_bytes
    by (simp add: createMessageBytes_def publishing_handler_def example_tm_def currentTopicMessageVersion_def TopicMessage_zero_def)
      (simp add: example_topic_bytes_def TopicMessage_bytes_def varint_field_def)
  have pub: "publishes publishing_ops" by (simp add: publishes_def publishing_ops_def)
  have laws: "codec_laws (ho_pubsub example_ops) (h_marshaller example_registered)"
    by (simp add: example_ops_def example_registered_eq plain_codec_laws)
  have cache: "cacher (ho_cache example_ops) dataMap" by (simp add: example_ops_def CacherMock_cacher)
  have rest: "h_marshaller publishing_handler = h_marshaller example_registered" "h_env publishing_handler = ((), [])"
      "h_topics publishing_handler ''t'' = Some 4" "peer_IDFromBytes (ho_pubsub example_ops) (h_peerID publishing_handler) = Inr (h_peerID publishing_handler)"
    by (simp_all add: publishing_handler_def example_registered_eq example_ops_def plain_pubsub_def)
  note e2e = broadcast_end_to_end [OF laws pub cache b rest(1-3) bytes, of 110 0 "[3]", OF _ _ _ _ rest(4)]
  obtain packet where p: "h_env (processSendable publishing_ops 100 (Some ?sd) publishing_handler) = ((), [(4, packet, None)])"
    and deliver: "\<And>pm passed hB'. pb_Data pm = packet \<Longrightarrow> pb_Topic pm = Some ''t'' \<Longrightarrow> pb_From pm = [9] \<Longrightarrow>
      pubsubCallback example_ops 0 ''t'' 110 [3] pm example_registered = (passed, hB') \<Longrightarrow> passed \<and> h_env hB' = [1]"
    using e2e
    by (auto simp: publishing_handler_def example_registered_eq GetList_def)
      (auto simp: example_ops_def example_processor_def NewCacherMock_def)
  let ?pm = "\<lparr>pb_From = [9], pb_Data = packet, pb_Seqno = [], pb_Topic = Some ''t'', pb_Signature = [], pb_Key = None\<rparr>"
  obtain passed hB' where cb: "pubsubCallback example_ops 0 ''t'' 110 [3] ?pm example_registered = (passed, hB')" by fastforce
  with deliver [OF _ _ _ cb] b p show ?thesis by auto
qed

end
