(* ===== verification/BroadcastRun.thy ===== *)
theory BroadcastRun
  imports Broadcasts
begin

text \<open>
  The sending half of the messages handler (\<^verbatim>\<open>p2p/libp2p/messagesHandler.go\<close>, \<^verbatim>\<open>outgoingChannelLoadBalancer.go\<close>) as
  go routines that run at the same time: any number of broadcasts, the go routine of every channel of the load balancer,
  the loop that publishes, the creation of topics and the close. The throttler and pubsub are parameters.
\<close>

section \<open>Go routines\<close>

text \<open>
  A broadcast has passed the checks of its data and of the throttler (\<open>Admitted\<close>), has started processing, has found its
  channel and sends on it (\<open>Offering\<close>), was taken by the go routine of the channel, or has ended. Sending on a closed
  channel panics. The loop pauses, is in \<^verbatim>\<open>CollectOneElementFromChannels\<close>, publishes what it got, or has returned.
\<close>

datatype 'sk broadcaster = Admitted string "'sk SendableData" | Started string "'sk SendableData" | Offering nat "'sk SendableData"
  | Taken | Ended "p2p_error option" | Panicked

datatype 'sk publisher = Pausing | Collecting | Publishing "nat option" "'sk SendableData option" | LoopEnded

text \<open>
  \<open>br_sent\<close> records what each channel took; \<open>br_turns\<close> what the loop got, from which channel, when, and the topic it then found.
\<close>

record ('e, 'c, 'sk) broadcast_run =
  br_handler :: "('e \<times> (nat \<times> bytes \<times> ('sk \<times> peerid) option) list, 'c, 'sk) messagesHandler"
  br_calls :: "nat \<rightharpoonup> 'sk broadcaster"
  br_loop :: "'sk publisher"
  br_sent :: "nat \<Rightarrow> 'sk SendableData list"
  br_turns :: "(nat \<times> 'sk SendableData \<times> int \<times> nat option) list"

fun admitted :: "string \<Rightarrow> 'sk broadcast_state \<Rightarrow> 'sk broadcaster" where
  "admitted channel (BroadcastFailed err) = Ended (Some err)"
| "admitted channel (BroadcastOn ch sd) = Admitted channel sd"

fun found :: "nat option \<Rightarrow> 'sk SendableData \<Rightarrow> 'sk broadcaster" where
  "found None sd = Panicked"
| "found (Some ch) sd = Offering ch sd"

fun turn_of :: "nat option \<Rightarrow> 'sk SendableData option \<Rightarrow> int \<Rightarrow> (string \<rightharpoonup> nat) \<Rightarrow> (nat \<times> 'sk SendableData \<times> int \<times> nat option) list" where
  "turn_of (Some ch) (Some sd) now topics = [(ch, sd, now, topics (sd_Topic sd))]"
| "turn_of _ _ now topics = []"

text \<open>What the other operations of the handler and its collaborators leave alone.\<close>

definition same_sending :: "('e \<Rightarrow> int) \<Rightarrow> ('e \<times> 'l, 'c, 'sk) messagesHandler \<Rightarrow> ('e \<times> 'l, 'c, 'sk) messagesHandler \<Rightarrow> bool" where
  "same_sending cnt h h' \<longleftrightarrow> h_outgoingCLB h' = h_outgoingCLB h \<and> h_marshaller h' = h_marshaller h \<and> h_ctxDone h' = h_ctxDone h \<and>
     snd (h_env h') = snd (h_env h) \<and> cnt (fst (h_env h')) = cnt (fst (h_env h))"

abbreviation set_call :: "nat \<Rightarrow> 'sk broadcaster \<Rightarrow> ('e, 'c, 'sk) broadcast_run \<Rightarrow> ('e, 'c, 'sk) broadcast_run" where
  "set_call i c s \<equiv> s\<lparr>br_calls := (br_calls s)(i \<mapsto> c)\<rparr>"

abbreviation br_clb :: "('e, 'c, 'sk) broadcast_run \<Rightarrow> 'sk SendableData outgoingChannelLoadBalancer" where
  "br_clb s \<equiv> h_outgoingCLB (br_handler s)"

abbreviation set_clb :: "'sk SendableData outgoingChannelLoadBalancer \<Rightarrow> ('e, 'c, 'sk) broadcast_run \<Rightarrow> ('e, 'c, 'sk) broadcast_run" where
  "set_clb b s \<equiv> s\<lparr>br_handler := (br_handler s)\<lparr>h_outgoingCLB := b\<rparr>\<rparr>"

inductive broadcast_step :: "('e \<times> (nat \<times> bytes \<times> ('sk \<times> peerid) option) list, 'c, 'sk) handler_ops \<Rightarrow> ('e \<Rightarrow> int)
  \<Rightarrow> ('e, 'c, 'sk) broadcast_run \<Rightarrow> ('e, 'c, 'sk) broadcast_run \<Rightarrow> bool" for ops cnt where
  call: "br_calls s i = None \<Longrightarrow> r = fst (broadcastOnChannelBlocking ops channel topic buff (br_handler s))
    \<Longrightarrow> broadcast_step ops cnt s (set_call i (admitted channel r) s)"
| call_key: "br_calls s i = None \<Longrightarrow> r = fst (broadcastOnChannelBlockingUsingPrivateKey ops channel topic buff p sk (br_handler s))
    \<Longrightarrow> broadcast_step ops cnt s (set_call i (admitted channel r) s)"
| begins: "br_calls s i = Some (Admitted channel sd) \<Longrightarrow> h = (br_handler s)\<lparr>h_env := ho_StartProcessing ops (h_env (br_handler s))\<rparr>
    \<Longrightarrow> broadcast_step ops cnt s (set_call i (Started channel sd) (s\<lparr>br_handler := h\<rparr>))"
| lookup: "br_calls s i = Some (Started channel sd)
    \<Longrightarrow> broadcast_step ops cnt s (set_call i (found (GetChannelOrDefault channel (br_clb s)) sd) s)"
| sends: "br_calls s i = Some (Offering ch sd) \<Longrightarrow> worker_select (Receive sd) ch (br_clb s) = Some b
    \<Longrightarrow> broadcast_step ops cnt s (set_call i Taken (set_clb b (s\<lparr>br_sent := (br_sent s)(ch := br_sent s ch @ [sd])\<rparr>)))"
| sends_closed: "br_calls s i = Some (Offering ch sd) \<Longrightarrow> ch \<in> closedChans (br_clb s)
    \<Longrightarrow> broadcast_step ops cnt s (set_call i Panicked s)"
| ends: "br_calls s i = Some Taken
    \<Longrightarrow> broadcast_step ops cnt s (set_call i (Ended None) (s\<lparr>br_handler := broadcastTaken ops (br_handler s)\<rparr>))"
| worker: "ev = ReadClosed \<or> ev = ContextEnds \<Longrightarrow> worker_select ev ch (br_clb s) = Some b \<Longrightarrow> broadcast_step ops cnt s (set_clb b s)"
| wakes: "br_loop s = Pausing \<Longrightarrow> broadcast_step ops cnt s (s\<lparr>br_loop := Collecting\<rparr>)"
| loop_ends: "br_loop s = Pausing \<Longrightarrow> h_ctxDone (br_handler s) \<Longrightarrow> broadcast_step ops cnt s (s\<lparr>br_loop := LoopEnded\<rparr>)"
| collects: "br_loop s = Collecting \<Longrightarrow> CollectOneElementFromChannels choice (br_clb s) = Some (obj, b)
    \<Longrightarrow> broadcast_step ops cnt s (set_clb b (s\<lparr>br_loop := Publishing choice obj\<rparr>))"
| publishes_it: "br_loop s = Publishing choice obj
    \<Longrightarrow> broadcast_step ops cnt s (s\<lparr>br_handler := processSendable ops now obj (br_handler s), br_loop := Pausing,
          br_turns := br_turns s @ turn_of choice obj now (h_topics (br_handler s))\<rparr>)"
| topic: "h = snd (CreateTopic ops name createChannelForTopic (br_handler s)) \<Longrightarrow> broadcast_step ops cnt s (s\<lparr>br_handler := h\<rparr>)"
| cancels: "broadcast_step ops cnt s (s\<lparr>br_handler := (br_handler s)\<lparr>h_ctxDone := True\<rparr>\<rparr>)"
| closes: "h_ctxDone (br_handler s) \<Longrightarrow> broadcast_step ops cnt s (set_clb (snd (oclb_Close (br_clb s))) s)"
| other: "same_sending cnt (br_handler s) h \<Longrightarrow> broadcast_step ops cnt s (s\<lparr>br_handler := h\<rparr>)"

abbreviation broadcast_steps :: "('e \<times> (nat \<times> bytes \<times> ('sk \<times> peerid) option) list, 'c, 'sk) handler_ops \<Rightarrow> ('e \<Rightarrow> int)
  \<Rightarrow> ('e, 'c, 'sk) broadcast_run \<Rightarrow> ('e, 'c, 'sk) broadcast_run \<Rightarrow> bool" where
  "broadcast_steps ops cnt \<equiv> (broadcast_step ops cnt)\<^sup>*\<^sup>*"

text \<open>A run starts with a handler as it is built, over a new load balancer, nothing published and the throttler at zero.\<close>

definition broadcast_init :: "('e \<Rightarrow> int) \<Rightarrow> ('e, 'c, 'sk) broadcast_run \<Rightarrow> bool" where
  "broadcast_init cnt s \<longleftrightarrow>
     (\<exists>e args clb log. NewMessagesHandler None (e, []) args = Inr (br_handler s) \<and> am_OutgoingCLB args = Some clb \<and>
        NewOutgoingChannelLoadBalancer log = Inr clb \<and> cnt e = 0) \<and>
     br_calls s = Map.empty \<and> br_loop s = Pausing \<and> br_sent s = (\<lambda>_. []) \<and> br_turns s = []"

text \<open>
  \<open>throttled\<close>: the throttler of \<^verbatim>\<open>mx-chain-core-go\<close> counts what was started and not ended, and lets in below its limit.
\<close>

definition throttled :: "('e \<times> 'l, 'c, 'sk) handler_ops \<Rightarrow> ('e \<Rightarrow> int) \<Rightarrow> int \<Rightarrow> bool" where
  "throttled ops cnt limit \<longleftrightarrow>
     (\<forall>e log. ho_CanProcess ops (e, log) = (cnt e < limit)) \<and>
     (\<forall>e log. \<exists>e'. ho_StartProcessing ops (e, log) = (e', log) \<and> cnt e' = cnt e + 1) \<and>
     (\<forall>e log. \<exists>e'. ho_EndProcessing ops (e, log) = (e', log) \<and> cnt e' = cnt e - 1)"

section \<open>The invariant\<close>

text \<open>What the loop got from a channel and has not dealt with, and what it got from it in all.\<close>

fun in_loop :: "'sk publisher \<Rightarrow> nat \<Rightarrow> 'sk SendableData list" where
  "in_loop (Publishing (Some ch') (Some sd)) ch = (if ch' = ch then [sd] else [])"
| "in_loop _ ch = []"

definition from_channel :: "nat \<Rightarrow> (nat \<times> 'sk SendableData \<times> int \<times> nat option) list \<Rightarrow> 'sk SendableData list" where
  "from_channel ch turns = map (\<lambda>(_, sd, _). sd) (filter (\<lambda>t. fst t = ch) turns)"

text \<open>The packets of a turn of the loop, with the marshaller of the handler \<open>h\<close>.\<close>

fun turn_packets :: "('e, 'c, 'sk) messagesHandler \<Rightarrow> nat \<times> 'sk SendableData \<times> int \<times> nat option
  \<Rightarrow> (nat \<times> bytes \<times> ('sk \<times> peerid) option) list" where
  "turn_packets h (ch, sd, now, None) = []"
| "turn_packets h (ch, sd, now, Some t) =
     (if createMessageBytes now h (sd_Buff sd) = [] then []
      else [(t, createMessageBytes now h (sd_Buff sd), map_option (\<lambda>sk. (sk, sd_ID sd)) (sd_Sk sd))])"

fun running :: "'sk broadcaster \<Rightarrow> bool" where
  "running (Started channel sd) = True"
| "running (Offering ch sd) = True"
| "running Taken = True"
| "running c = False"

definition running_calls :: "(nat \<rightharpoonup> 'sk broadcaster) \<Rightarrow> nat set" where
  "running_calls calls = {i. \<exists>c. calls i = Some c \<and> running c}"

text \<open>The load balancer with what went through it: the transition system of theory \<open>LoadBalancer\<close>.\<close>

definition clb_system :: "('e, 'c, 'sk) broadcast_run \<Rightarrow> 'sk SendableData oclb_system" where
  "clb_system s = \<lparr>bal = br_clb s, sent = br_sent s,
     collected = (\<lambda>ch. map Some (from_channel ch (br_turns s) @ in_loop (br_loop s) ch))\<rparr>"

definition no_nil :: "'sk SendableData outgoingChannelLoadBalancer \<Rightarrow> bool" where
  "no_nil b \<longleftrightarrow> closedChans b = {} \<and> (\<forall>ch. workers b ch \<noteq> Some (Holding None))"

definition contexts_ok :: "('e, 'c, 'sk) broadcast_run \<Rightarrow> bool" where
  "contexts_ok s \<longleftrightarrow> (ctxDone (br_clb s) \<longrightarrow> h_ctxDone (br_handler s)) \<and> (br_loop s = LoopEnded \<longrightarrow> h_ctxDone (br_handler s)) \<and>
     (\<forall>ch. workers (br_clb s) ch = Some Stopped \<longrightarrow> ctxDone (br_clb s))"

section \<open>Simulation by the load balancer\<close>

lemma AddChannel_no_nil: "no_nil b \<Longrightarrow> no_nil (snd (AddChannel name b))"
  by (auto simp: no_nil_def AddChannel_def appendChannel_def Let_def)

lemma CreateTopic_keeps:
  "h_outgoingCLB (snd (CreateTopic ops name f h)) \<in> {h_outgoingCLB h, snd (AddChannel name (h_outgoingCLB h))}"
  "h_marshaller (snd (CreateTopic ops name f h)) = h_marshaller h" "h_env (snd (CreateTopic ops name f h)) = h_env h"
  "h_ctxDone (snd (CreateTopic ops name f h)) = h_ctxDone h"
  by (auto simp: CreateTopic_def Let_def split: option.split sum.split prod.split)

lemma processSendable_keeps [simp]:
  "h_outgoingCLB (processSendable ops now obj h) = h_outgoingCLB h" "h_marshaller (processSendable ops now obj h) = h_marshaller h"
  "h_ctxDone (processSendable ops now obj h) = h_ctxDone h"
  by (simp_all add: processSendable_def publish_def Let_def split: option.split prod.split)

lemma broadcastTaken_keeps [simp]:
  "h_outgoingCLB (broadcastTaken ops h) = h_outgoingCLB h" "h_marshaller (broadcastTaken ops h) = h_marshaller h"
  "h_ctxDone (broadcastTaken ops h) = h_ctxDone h"
  by (simp_all add: broadcastTaken_def)

lemma from_channel_simps [simp]:
  "from_channel ch [] = []" "from_channel ch (ts @ us) = from_channel ch ts @ from_channel ch us"
  "from_channel ch [(ch', sd, r)] = (if ch' = ch then [sd] else [])"
  by (auto simp: from_channel_def)

lemma from_channel_turn_of [simp]: "from_channel ch (turn_of choice obj now topics) = in_loop (Publishing choice obj) ch"
  by (cases choice; cases obj) auto

lemma no_nil_step:
  assumes "broadcast_step ops cnt s s'" and "no_nil (br_clb s)"
  shows "no_nil (br_clb s')"
  using assms(1)
proof (cases rule: broadcast_step.cases)
  case (topic h name f)
  then show ?thesis using assms(2) CreateTopic_keeps(1) [of ops name f "br_handler s"] AddChannel_no_nil [of "br_clb s" name] by auto
next
  case (collects choice obj b)
  then show ?thesis using assms(2)
    by (cases choice) (auto simp: no_nil_def CollectOneElementFromChannels_def split: if_splits option.splits worker.splits)
qed (use assms(2) in \<open>auto simp: no_nil_def same_sending_def oclb_Close_def split: if_splits\<close>)

text \<open>Every step of the sending half is a step of the load balancer, or does not concern it.\<close>

lemma step_simulates:
  assumes "broadcast_step ops cnt s s'" and "no_nil (br_clb s)"
  shows "clb_system s' = clb_system s \<or> oclb_step (clb_system s) (clb_system s')"
  using assms(1)
proof (cases rule: broadcast_step.cases)
  case (sends i ch sd b)
  then have "clb_system s' = (clb_system s)\<lparr>bal := b, sent := (sent (clb_system s))(ch := sent (clb_system s) ch @ [sd])\<rparr>"
    by (simp add: clb_system_def)
  with sends(3) show ?thesis using oclb_step.receive [of sd ch "clb_system s" b] by (simp add: clb_system_def)
next
  case (worker ev ch b)
  then have "clb_system s' = (clb_system s)\<lparr>bal := b\<rparr>" by (simp add: clb_system_def)
  with worker show ?thesis using oclb_step.read_closed [of ch "clb_system s" b] oclb_step.stop [of ch "clb_system s" b]
    by (auto simp: clb_system_def)
next
  case (collects choice obj b)
  show ?thesis
  proof (cases choice)
    case None
    with collects show ?thesis by (auto simp: clb_system_def CollectOneElementFromChannels_def split: if_splits)
  next
    case (Some ch)
    with collects assms(2) obtain sd where obj: "obj = Some sd" using Collect_Some(1) [of ch "br_clb s" obj b]
      by (cases obj) (auto simp: no_nil_def)
    with collects Some have "clb_system s' =
        (clb_system s)\<lparr>bal := b, collected := (collected (clb_system s))(ch := collected (clb_system s) ch @ [obj])\<rparr>"
      by (auto simp: clb_system_def)
    with collects(3) Some show ?thesis using oclb_step.collect [of ch "clb_system s" obj b] by (simp add: clb_system_def)
  qed
next
  case (topic h name f)
  then consider "br_clb s' = br_clb s" | "br_clb s' = snd (AddChannel name (br_clb s))"
    using CreateTopic_keeps(1) [of ops name f "br_handler s"] by auto
  then show ?thesis
  proof cases
    case 2
    with topic have "clb_system s' = (clb_system s)\<lparr>bal := snd (AddChannel name (bal (clb_system s)))\<rparr>" by (simp add: clb_system_def)
    then show ?thesis using oclb_step.add [of name "clb_system s"] by (metis prod.collapse)
  qed (use topic in \<open>simp add: clb_system_def\<close>)
next
  case closes
  then have "clb_system s' = (clb_system s)\<lparr>bal := snd (oclb_Close (bal (clb_system s)))\<rparr>" by (simp add: clb_system_def)
  then show ?thesis using oclb_step.close [of "clb_system s"] by (metis prod.collapse)
qed (auto simp: clb_system_def same_sending_def)

section \<open>The throttler and pubsub\<close>

definition admitted_calls :: "(nat \<rightharpoonup> 'sk broadcaster) \<Rightarrow> nat set" where
  "admitted_calls calls = {i. \<exists>channel sd. calls i = Some (Admitted channel sd)}"

lemma calls_update [simp]:
  "running_calls (calls(i \<mapsto> c)) = (if running c then insert i (running_calls calls) else running_calls calls - {i})"
  "admitted_calls (calls(i \<mapsto> Admitted channel sd)) = insert i (admitted_calls calls)"
  "\<forall>channel sd. c \<noteq> Admitted channel sd \<Longrightarrow> admitted_calls (calls(i \<mapsto> c)) = admitted_calls calls - {i}"
  by (auto simp: running_calls_def admitted_calls_def)

lemma finite_calls: "finite (dom calls) \<Longrightarrow> finite (running_calls calls) \<and> finite (admitted_calls calls)"
  by (auto intro: rev_finite_subset simp: running_calls_def admitted_calls_def)

lemma in_running [simp]: "calls i = Some c \<Longrightarrow> i \<in> running_calls calls \<longleftrightarrow> running c" "calls i = None \<Longrightarrow> i \<notin> running_calls calls"
  by (simp_all add: running_calls_def)

lemma in_admitted [simp]:
  "calls i = Some c \<Longrightarrow> i \<in> admitted_calls calls \<longleftrightarrow> (\<exists>channel sd. c = Admitted channel sd)" "calls i = None \<Longrightarrow> i \<notin> admitted_calls calls"
  by (simp_all add: admitted_calls_def)

definition env_ok :: "('e \<Rightarrow> int) \<Rightarrow> ('e \<times> (nat \<times> bytes \<times> ('sk \<times> peerid) option) list, 'c, 'sk) messagesHandler \<Rightarrow> ('e, 'c, 'sk) broadcast_run \<Rightarrow> bool" where
  "env_ok cnt h0 s \<longleftrightarrow> h_marshaller (br_handler s) = h_marshaller h0 \<and> finite (dom (br_calls s)) \<and>
     cnt (fst (h_env (br_handler s))) = int (card (running_calls (br_calls s))) \<and>
     snd (h_env (br_handler s)) = concat (map (turn_packets h0) (br_turns s))"

lemma turn_packets_entry:
  assumes "h_marshaller h = h_marshaller h0" and "choice = None \<longrightarrow> obj = None"
  shows "concat (map (turn_packets h0) (turn_of choice obj now (h_topics h))) = publish_entry h now obj"
proof -
  have "createMessageBytes now h = createMessageBytes now h0" by (rule ext) (simp add: createMessageBytes_def assms(1))
  with assms(2) show ?thesis by (cases choice; cases obj) (auto simp: publish_entry_def split: option.split)
qed

definition choice_ok :: "'sk publisher \<Rightarrow> bool" where
  "choice_ok l \<longleftrightarrow> (\<forall>obj. l = Publishing None obj \<longrightarrow> obj = None)"

lemma choice_ok_step: "broadcast_step ops cnt s s' \<Longrightarrow> choice_ok (br_loop s) \<Longrightarrow> choice_ok (br_loop s')"
  by (cases rule: broadcast_step.cases, assumption)
    (auto simp: choice_ok_def CollectOneElementFromChannels_def split: if_splits)

lemma not_running_admitted [simp]: "\<not> running (admitted channel r)"
  by (cases r) auto

lemma throttled_counts:
  assumes "throttled ops cnt limit"
  shows "snd (ho_StartProcessing ops env) = snd env" "cnt (fst (ho_StartProcessing ops env)) = cnt (fst env) + 1"
    "snd (ho_EndProcessing ops env) = snd env" "cnt (fst (ho_EndProcessing ops env)) = cnt (fst env) - 1"
    "ho_CanProcess ops env \<longleftrightarrow> cnt (fst env) < limit"
  using assms unfolding throttled_def by (metis fst_conv snd_conv surj_pair)+

lemma env_ok_step:
  assumes "broadcast_step ops cnt s s'" and "throttled ops cnt limit" and "publishes ops" and "choice_ok (br_loop s)"
    and "no_nil (br_clb s)" and "oclb_ok (br_clb s)" and "env_ok cnt h0 s"
  shows "env_ok cnt h0 s'"
proof -
  note thr = throttled_counts [OF assms(2)]
  have fin: "finite (running_calls (br_calls s))" using finite_calls [of "br_calls s"] assms(7) by (simp add: env_ok_def)
  show ?thesis using assms(1)
  proof (cases rule: broadcast_step.cases)
    case (publishes_it choice obj now)
    have "choice = None \<longrightarrow> obj = None" using publishes_it assms(4) by (auto simp: choice_ok_def)
    moreover have "h_marshaller (br_handler s) = h_marshaller h0" using assms(7) by (simp add: env_ok_def)
    ultimately show ?thesis
      using publishes_it(1) assms(7) turn_packets_entry [of "br_handler s" h0 choice obj now]
        processSendable_publishes [OF assms(3), of "br_handler s" _ _ now obj, OF prod.collapse [symmetric]]
      by (simp add: env_ok_def)
  next
    case (ends i)
    then have "int (card (running_calls (br_calls s) - {i})) = int (card (running_calls (br_calls s))) - 1"
      using fin card_Suc_Diff1 [of "running_calls (br_calls s)" i] by simp
    with ends show ?thesis using assms(7) thr by (simp add: env_ok_def broadcastTaken_def)
  next
    case (lookup i channel sd)
    obtain ch where "GetChannelOrDefault channel (br_clb s) = Some ch" using GetChannelOrDefault_reg(2) [OF assms(6)] by blast
    with lookup assms(7) show ?thesis by (simp add: env_ok_def insert_absorb)
  qed (use assms(5,7) fin thr in \<open>simp_all add: env_ok_def same_sending_def CreateTopic_keeps insert_absorb no_nil_def\<close>)
qed

section \<open>All runs\<close>

lemma fifo_ok_clb: "fifo_ok (clb_system s) \<Longrightarrow> oclb_ok (br_clb s)"
  by (simp add: fifo_ok_def clb_system_def)

lemma contexts_ok_step:
  assumes "broadcast_step ops cnt s s'" and "contexts_ok s"
  shows "contexts_ok s'"
  using assms(1)
proof (cases rule: broadcast_step.cases)
  case (topic h name f)
  then show ?thesis using assms(2) CreateTopic_keeps(1) [of ops name f "br_handler s"]
    by (auto simp: contexts_ok_def CreateTopic_keeps AddChannel_def appendChannel_def Let_def split: if_splits)
next
  case (collects choice obj b)
  then show ?thesis using assms(2)
    by (auto simp: contexts_ok_def CollectOneElementFromChannels_def split: option.splits if_splits worker.splits)
next
  case (worker ev ch b)
  then show ?thesis using assms(2) by (auto simp: contexts_ok_def split: if_splits)
next
  case (sends i ch sd b)
  then show ?thesis using assms(2) by (auto simp: contexts_ok_def split: if_splits)
qed (use assms(2) in \<open>auto simp: contexts_ok_def same_sending_def oclb_Close_def\<close>)

lemma workers_stay:
  assumes "broadcast_step ops cnt s s'" and "workers (br_clb s) ch \<noteq> None"
  shows "workers (br_clb s') ch \<noteq> None"
  using assms(1)
proof (cases rule: broadcast_step.cases)
  case (topic h name f)
  then show ?thesis using assms(2) CreateTopic_keeps(1) [of ops name f "br_handler s"]
    by (auto simp: AddChannel_def appendChannel_def Let_def split: if_splits)
next
  case (collects choice obj b)
  then show ?thesis using assms(2) by (auto simp: CollectOneElementFromChannels_def split: option.splits if_splits worker.splits)
next
  case (worker ev ch b)
  then show ?thesis using assms(2) by (auto split: if_splits)
next
  case (sends i ch sd b)
  then show ?thesis using assms(2) by (auto split: if_splits)
qed (use assms(2) in \<open>auto simp: same_sending_def oclb_Close_def\<close>)

text \<open>A channel that is found has its go routine, so a call offers only to such channels, and none panics.\<close>

lemma found_ok:
  assumes "oclb_ok b"
  shows "\<exists>ch. found (GetChannelOrDefault channel b) sd = Offering ch sd \<and> workers b ch \<noteq> None"
proof -
  obtain ch where "GetChannelOrDefault channel b = Some ch" "ch \<in> set (chans b)" using GetChannelOrDefault_reg(2) [OF assms] by blast
  with assms show ?thesis by (auto simp: oclb_ok_def)
qed

definition calls_ok :: "('e, 'c, 'sk) broadcast_run \<Rightarrow> bool" where
  "calls_ok s \<longleftrightarrow> (\<forall>i. br_calls s i \<noteq> Some Panicked) \<and> (\<forall>i ch sd. br_calls s i = Some (Offering ch sd) \<longrightarrow> workers (br_clb s) ch \<noteq> None)"

lemma admitted_cases: "admitted channel r \<noteq> Panicked" "admitted channel r \<noteq> Offering ch sd"
  by (cases r; simp)+

lemma calls_ok_step:
  assumes "broadcast_step ops cnt s s'" and "calls_ok s" and "no_nil (br_clb s)" and "oclb_ok (br_clb s)"
  shows "calls_ok s'"
proof -
  have "br_calls s' i \<noteq> Some Panicked \<and> (\<forall>ch sd. br_calls s' i = Some (Offering ch sd) \<longrightarrow> workers (br_clb s) ch \<noteq> None)" for i
    using assms(1)
  proof (cases rule: broadcast_step.cases)
    case (lookup j channel sd)
    then show ?thesis using assms(2) found_ok [OF assms(4), of channel sd] by (auto simp: calls_ok_def)
  qed (use assms(2,3) in \<open>auto simp: calls_ok_def no_nil_def admitted_cases\<close>)
  then show ?thesis using workers_stay [OF assms(1)] unfolding calls_ok_def by blast
qed

definition broadcast_inv :: "('e \<Rightarrow> int) \<Rightarrow> ('e \<times> (nat \<times> bytes \<times> ('sk \<times> peerid) option) list, 'c, 'sk) messagesHandler \<Rightarrow> ('e, 'c, 'sk) broadcast_run \<Rightarrow> bool" where
  "broadcast_inv cnt h0 s \<longleftrightarrow> fifo_ok (clb_system s) \<and> no_nil (br_clb s) \<and> choice_ok (br_loop s) \<and> env_ok cnt h0 s \<and> contexts_ok s \<and>
     calls_ok s"

lemma broadcast_inv_step:
  assumes "broadcast_step ops cnt s s'" and "throttled ops cnt limit" and "publishes ops" and "broadcast_inv cnt h0 s"
  shows "broadcast_inv cnt h0 s'"
proof -
  have ok: "fifo_ok (clb_system s)" "no_nil (br_clb s)" "choice_ok (br_loop s)" "env_ok cnt h0 s" "contexts_ok s" "calls_ok s" "oclb_ok (br_clb s)"
    using assms(4) fifo_ok_clb [of s] by (simp_all add: broadcast_inv_def)
  have "fifo_ok (clb_system s')" using step_simulates [OF assms(1) ok(2)] ok(1) fifo_ok_step by metis
  with ok show ?thesis
    using no_nil_step [OF assms(1)] choice_ok_step [OF assms(1)] env_ok_step [OF assms(1-3)] contexts_ok_step [OF assms(1)] calls_ok_step [OF assms(1)]
    by (simp add: broadcast_inv_def)
qed

lemma new_handler_fields:
  assumes "NewMessagesHandler None env args = Inr h" and "am_OutgoingCLB args = Some clb"
  shows "h_outgoingCLB h = clb" "h_env h = env" "\<not> h_ctxDone h"
  using assms by (auto simp: NewMessagesHandler_def split: option.splits)

lemma broadcast_inv_init:
  assumes "broadcast_init cnt s"
  shows "broadcast_inv cnt (br_handler s) s"
proof -
  from assms obtain e args clb log where new: "NewMessagesHandler None (e, []) args = Inr (br_handler s)" "am_OutgoingCLB args = Some clb"
      "NewOutgoingChannelLoadBalancer log = Inr clb" "cnt e = 0"
    and s: "br_calls s = Map.empty" "br_loop s = Pausing" "br_sent s = (\<lambda>_. [])" "br_turns s = []"
    by (auto simp: broadcast_init_def)
  note h = new_handler_fields [OF new(1,2)]
  have b: "\<not> ctxDone clb" "closedChans clb = {}" using new(3) by (auto simp: NewOutgoingChannelLoadBalancer_def appendChannel_def split: option.splits)
  have "oclb_init (clb_system s)" using new(3) h s by (auto simp: oclb_init_def clb_system_def)
  then have "fifo_ok (clb_system s)" using fifo_ok_reach oclb_reach.start by blast
  then show ?thesis
    using new_workers [OF new(3)] h s b new(4)
    by (auto simp: broadcast_inv_def no_nil_def choice_ok_def env_ok_def running_calls_def contexts_ok_def calls_ok_def)
qed

lemma broadcast_inv_steps:
  assumes "broadcast_steps ops cnt s0 s" and "broadcast_init cnt s0" and "throttled ops cnt limit" and "publishes ops"
  shows "broadcast_inv cnt (br_handler s0) s"
  using assms(1) by (induction rule: rtranclp_induct) (auto intro: broadcast_inv_init [OF assms(2)] broadcast_inv_step [OF _ assms(3,4)])

lemma turn_packets_cong:
  assumes "h_marshaller h = h_marshaller h'"
  shows "turn_packets h = turn_packets h'"
proof -
  have "createMessageBytes now h = createMessageBytes now h'" for now by (rule ext) (simp add: createMessageBytes_def assms)
  then have "turn_packets h t = turn_packets h' t" for t by (cases "(h, t)" rule: turn_packets.cases) simp_all
  then show ?thesis by (rule ext)
qed

section \<open>Before and after the close\<close>

text \<open>While the context lasts, the loop can be brought to where it collects, without change to a waiting call or a go routine.\<close>

lemma loop_can_collect:
  assumes "br_loop s \<noteq> LoopEnded"
  shows "\<exists>s'. broadcast_steps ops cnt s s' \<and> br_loop s' = Collecting \<and> br_calls s' = br_calls s \<and> br_clb s' = br_clb s"
proof (cases "br_loop s")
  case Pausing
  then show ?thesis using broadcast_step.wakes [OF Pausing, of ops cnt] by (intro exI [of _ "s\<lparr>br_loop := Collecting\<rparr>"]) auto
next
  case (Publishing choice obj)
  let ?s = "s\<lparr>br_handler := processSendable ops 0 obj (br_handler s), br_loop := Pausing,
    br_turns := br_turns s @ turn_of choice obj 0 (h_topics (br_handler s))\<rparr>"
  have "broadcast_step ops cnt s ?s" by (rule broadcast_step.publishes_it [OF Publishing])
  moreover have "broadcast_step ops cnt ?s (?s\<lparr>br_loop := Collecting\<rparr>)" by (rule broadcast_step.wakes) simp
  ultimately have "broadcast_steps ops cnt s (?s\<lparr>br_loop := Collecting\<rparr>)" by (meson r_into_rtranclp rtranclp_trans)
  then show ?thesis by (intro exI [of _ "?s\<lparr>br_loop := Collecting\<rparr>"]) simp
qed (use assms in auto)

lemma taken_can_end:
  assumes "br_calls s i = Some Taken"
  shows "\<exists>s'. broadcast_steps ops cnt s s' \<and> br_calls s' i = Some (Ended None)"
  using broadcast_step.ends [OF assms, of ops cnt] by (intro exI [of _ "set_call i (Ended None) (s\<lparr>br_handler := broadcastTaken ops (br_handler s)\<rparr>)"]) auto

lemma waiting_can_end:
  assumes "br_calls s i = Some (Offering ch sd)" and "workers (br_clb s) ch = Some Waiting" and "closedChans (br_clb s) = {}"
  shows "\<exists>s'. broadcast_steps ops cnt s s' \<and> br_calls s' i = Some (Ended None)"
proof -
  let ?b = "put_worker ch (Holding (Some sd)) (br_clb s)"
  let ?s = "set_call i Taken (set_clb ?b (s\<lparr>br_sent := (br_sent s)(ch := br_sent s ch @ [sd])\<rparr>))"
  have "broadcast_step ops cnt s ?s" using assms by (intro broadcast_step.sends) simp_all
  moreover obtain s' where "broadcast_steps ops cnt ?s s'" "br_calls s' i = Some (Ended None)" using taken_can_end [of ?s i ops cnt] by auto
  ultimately show ?thesis by (meson converse_rtranclp_into_rtranclp)
qed

lemma offering_can_end:
  assumes "br_calls s i = Some (Offering ch sd)" and "broadcast_inv cnt h0 s" and "\<not> h_ctxDone (br_handler s)"
  shows "\<exists>s'. broadcast_steps ops cnt s s' \<and> br_calls s' i = Some (Ended None)"
proof -
  have ok: "br_loop s \<noteq> LoopEnded" "closedChans (br_clb s) = {}" "workers (br_clb s) ch \<noteq> Some Stopped" "workers (br_clb s) ch \<noteq> None"
    using assms unfolding broadcast_inv_def contexts_ok_def no_nil_def calls_ok_def by blast+
  show ?thesis
  proof (cases "workers (br_clb s) ch = Some Waiting")
    case True
    then show ?thesis using waiting_can_end [OF assms(1) _ ok(2)] by blast
  next
    case False
    then obtain obj where w: "workers (br_clb s) ch = Some (Holding obj)" using ok by (metis worker.exhaust option.exhaust)
    obtain s1 where s1: "broadcast_steps ops cnt s s1" "br_loop s1 = Collecting" "br_calls s1 = br_calls s" "br_clb s1 = br_clb s"
      using loop_can_collect [OF ok(1)] by blast
    let ?b = "put_worker ch Waiting (br_clb s)" 
    let ?s2 = "set_clb ?b (s1\<lparr>br_loop := Publishing (Some ch) obj\<rparr>)"
    have "broadcast_step ops cnt s1 ?s2"
      using s1 w by (intro broadcast_step.collects) (simp_all add: CollectOneElementFromChannels_def)
    moreover obtain s' where "broadcast_steps ops cnt ?s2 s'" "br_calls s' i = Some (Ended None)"
      using waiting_can_end [of ?s2 i ch sd ops cnt] assms(1) s1 ok(2) by auto
    ultimately show ?thesis using s1(1) by (meson converse_rtranclp_into_rtranclp rtranclp_trans)
  qed
qed

text \<open>After the return of the loop nobody collects: a go routine that holds an object keeps it, and one that has stopped stays so.\<close>

definition unserved :: "'sk SendableData outgoingChannelLoadBalancer \<Rightarrow> nat \<Rightarrow> bool" where
  "unserved b ch \<longleftrightarrow> workers b ch = Some Stopped \<or> (\<exists>obj. workers b ch = Some (Holding obj))"

lemma AddChannel_worker_kept: "oclb_ok b \<Longrightarrow> workers b ch \<noteq> None \<Longrightarrow> workers (snd (AddChannel name b)) ch = workers b ch"
  by (auto simp: AddChannel_def appendChannel_def Let_def oclb_ok_def)

lemma unserved_step:
  assumes "broadcast_step ops cnt s s'" and "br_loop s = LoopEnded" and "unserved (br_clb s) ch" and "oclb_ok (br_clb s)"
  shows "br_loop s' = LoopEnded \<and> workers (br_clb s') ch = workers (br_clb s) ch"
  using assms(1)
proof (cases rule: broadcast_step.cases)
  case (topic h name f)
  then show ?thesis using assms CreateTopic_keeps(1) [of ops name f "br_handler s"] AddChannel_worker_kept [of "br_clb s" ch name]
    by (auto simp: unserved_def)
qed (use assms in \<open>auto simp: unserved_def same_sending_def oclb_Close_def split: if_splits\<close>)

lemma blocked_step:
  assumes "broadcast_step ops cnt s s'" and "br_calls s i = Some (Offering ch sd)" and "unserved (br_clb s) ch" and "no_nil (br_clb s)"
  shows "br_calls s' i = Some (Offering ch sd)"
  using assms(1)
  by (cases rule: broadcast_step.cases) (use assms(2-4) in \<open>auto simp: unserved_def no_nil_def split: if_splits\<close>)

lemma blocked_steps:
  assumes "broadcast_steps ops cnt s s'" and "throttled ops cnt limit" and "publishes ops" and "broadcast_inv cnt h0 s" and "br_loop s = LoopEnded"
    and "unserved (br_clb s) ch"
  shows "broadcast_inv cnt h0 s' \<and> br_loop s' = LoopEnded \<and> workers (br_clb s') ch = workers (br_clb s) ch \<and>
    (br_calls s i = Some (Offering ch sd) \<longrightarrow> br_calls s' i = Some (Offering ch sd))"
  using assms(1)
proof (induction rule: rtranclp_induct)
  case (step s1 s2)
  then have ok: "broadcast_inv cnt h0 s1" "br_loop s1 = LoopEnded" "unserved (br_clb s1) ch" using assms(6) by (auto simp: unserved_def)
  then have "oclb_ok (br_clb s1)" "no_nil (br_clb s1)" using fifo_ok_clb [of s1] by (simp_all add: broadcast_inv_def)
  with ok step broadcast_inv_step [OF step(2) assms(2,3) ok(1)] unserved_step [OF step(2)] blocked_step [OF step(2), of i ch sd] show ?case by auto
qed (use assms in simp)

lemma steps_converse:
  assumes "broadcast_step ops cnt s s1" and "\<exists>s'. broadcast_steps ops cnt s1 s' \<and> P s'"
  shows "\<exists>s'. broadcast_steps ops cnt s s' \<and> P s'"
  using assms by (meson converse_rtranclp_into_rtranclp)

lemma started_can_end:
  assumes "br_calls s i = Some (Started channel sd)" and "throttled ops cnt limit" and "publishes ops" and "broadcast_inv cnt h0 s"
    and "\<not> h_ctxDone (br_handler s)"
  shows "\<exists>s'. broadcast_steps ops cnt s s' \<and> br_calls s' i = Some (Ended None)"
proof (rule steps_converse)
  let ?s = "set_call i (found (GetChannelOrDefault channel (br_clb s)) sd) s"
  show step: "broadcast_step ops cnt s ?s" by (rule broadcast_step.lookup [OF assms(1)])
  have "oclb_ok (br_clb s)" using assms(4) fifo_ok_clb by (auto simp: broadcast_inv_def)
  then obtain ch where "br_calls ?s i = Some (Offering ch sd)" using found_ok [of "br_clb s" channel sd] by auto
  then show "\<exists>s'. broadcast_steps ops cnt ?s s' \<and> br_calls s' i = Some (Ended None)"
    using offering_can_end [OF _ broadcast_inv_step [OF step assms(2-4)]] assms(5) by auto
qed

lemma admitted_can_end:
  assumes "br_calls s i = Some (Admitted channel sd)" and "throttled ops cnt limit" and "publishes ops" and "broadcast_inv cnt h0 s"
    and "\<not> h_ctxDone (br_handler s)"
  shows "\<exists>s'. broadcast_steps ops cnt s s' \<and> br_calls s' i = Some (Ended None)"
proof (rule steps_converse)
  let ?s = "set_call i (Started channel sd) (s\<lparr>br_handler := (br_handler s)\<lparr>h_env := ho_StartProcessing ops (h_env (br_handler s))\<rparr>\<rparr>)"
  show step: "broadcast_step ops cnt s ?s" by (rule broadcast_step.begins [OF assms(1) refl])
  show "\<exists>s'. broadcast_steps ops cnt ?s s' \<and> br_calls s' i = Some (Ended None)"
    using started_can_end [OF _ assms(2,3) broadcast_inv_step [OF step assms(2-4)]] assms(5) by auto
qed

text \<open>A broadcast that nobody interrupts runs up to its channel as \<open>broadcastOnChannelBlocking\<close> says.\<close>

lemma broadcast_uninterrupted:
  assumes "broadcastOnChannelBlocking ops channel topic buff (br_handler s) = (BroadcastOn (Some ch) sd, h)" and "br_calls s i = None"
  shows "broadcast_steps ops cnt s (set_call i (Offering ch sd) (s\<lparr>br_handler := h\<rparr>))"
proof -
  have h: "h = (br_handler s)\<lparr>h_env := ho_StartProcessing ops (h_env (br_handler s))\<rparr>" "GetChannelOrDefault channel (h_outgoingCLB h) = Some ch"
    using assms(1) by (auto simp: broadcastOnChannelBlocking_def broadcastSendable_def split: option.splits if_splits)
  let ?s1 = "set_call i (Admitted channel sd) s" and ?s2 = "set_call i (Started channel sd) (s\<lparr>br_handler := h\<rparr>)"
  have "broadcast_step ops cnt s ?s1"
    using broadcast_step.call [OF assms(2) refl, of ops cnt channel topic buff] assms(1) by simp
  moreover have "broadcast_step ops cnt ?s1 ?s2"
    using broadcast_step.begins [of ?s1 i channel sd h ops cnt] h(1) by simp
  moreover have "broadcast_step ops cnt ?s2 (set_call i (Offering ch sd) (s\<lparr>br_handler := h\<rparr>))"
    using broadcast_step.lookup [of ?s2 i channel sd ops cnt] h(2) by simp
  ultimately show ?thesis by (meson converse_rtranclp_into_rtranclp r_into_rtranclp)
qed

text \<open>The close of the handler, and operations that are steps of another part of it.\<close>

lemma close_is_steps: "broadcast_steps ops cnt s (s\<lparr>br_handler := snd (handler_Close d (br_handler s))\<rparr>)"
proof -
  let ?s = "s\<lparr>br_handler := (br_handler s)\<lparr>h_ctxDone := True\<rparr>\<rparr>"
  have eq: "set_clb (snd (oclb_Close (br_clb ?s))) ?s = s\<lparr>br_handler := snd (handler_Close d (br_handler s))\<rparr>"
    by (simp add: handler_Close_def oclb_Close_def Let_def)
  have "broadcast_step ops cnt ?s (set_clb (snd (oclb_Close (br_clb ?s))) ?s)" by (rule broadcast_step.closes) simp
  then have "broadcast_step ops cnt ?s (s\<lparr>br_handler := snd (handler_Close d (br_handler s))\<rparr>)" by (simp only: eq)
  with broadcast_step.cancels [of ops cnt s] show ?thesis by (rule converse_rtranclp_into_rtranclp [OF _ r_into_rtranclp])
qed

lemma same_sending_refl: "same_sending cnt h h"
  by (simp add: same_sending_def)

lemma same_sending_unregister: "same_sending cnt h (snd (unregisterValidator ops topic h))"
  by (simp add: same_sending_def unregisterValidator_def split: option.split)

lemma same_sending_trans: "same_sending cnt h h' \<Longrightarrow> same_sending cnt h' h'' \<Longrightarrow> same_sending cnt h h''"
  by (simp add: same_sending_def)

lemma processors_same_sending:
  "same_sending cnt h (snd (RegisterMessageProcessor ops topic identifier msgProcessor h))"
  "same_sending cnt h (snd (UnregisterMessageProcessor ops topic identifier h))"
proof -
  show "same_sending cnt h (snd (RegisterMessageProcessor ops topic identifier msgProcessor h))"
    by (auto simp: same_sending_def RegisterMessageProcessor_def addProcessorAt_def Let_def split: option.split sum.split prod.split)
  show "same_sending cnt h (snd (UnregisterMessageProcessor ops topic identifier h))"
    by (simp add: UnregisterMessageProcessor_def Let_def same_sending_def unregisterValidator_def split: option.split prod.split)
qed

lemma all_processors_same_sending: "same_sending cnt h (snd (UnregisterAllMessageProcessors ops topics h))"
proof (induction topics arbitrary: h)
  case (Cons topic topics)
  obtain r h' where u: "unregisterValidator ops topic h = (r, h')" by fastforce
  then have h': "same_sending cnt h h'" using same_sending_unregister [of cnt h ops topic] by simp
  then have "same_sending cnt h (h'\<lparr>h_processors := (h_processors h')(topic := None)\<rparr>)" by (simp add: same_sending_def)
  with h' u Cons.IH show ?case by (auto split: option.split intro: same_sending_trans)
qed (simp add: same_sending_refl)

section \<open>The limit of the throttler\<close>

text \<open>Runs in which at most \<open>k\<close> calls are at once between the question to the throttler and their start.\<close>

definition broadcast_steps_upto :: "nat \<Rightarrow> ('e \<times> (nat \<times> bytes \<times> ('sk \<times> peerid) option) list, 'c, 'sk) handler_ops \<Rightarrow> ('e \<Rightarrow> int)
  \<Rightarrow> ('e, 'c, 'sk) broadcast_run \<Rightarrow> ('e, 'c, 'sk) broadcast_run \<Rightarrow> bool" where
  "broadcast_steps_upto k ops cnt = (\<lambda>s s'. broadcast_step ops cnt s s' \<and> card (admitted_calls (br_calls s')) \<le> k)\<^sup>*\<^sup>*"

lemma upto_steps: "broadcast_steps_upto k ops cnt s s' \<Longrightarrow> broadcast_steps ops cnt s s'"
  unfolding broadcast_steps_upto_def by (erule rtranclp_mono [THEN predicate2D, rotated]) auto

lemma upto_intros:
  "broadcast_steps_upto k ops cnt s s"
  "broadcast_steps_upto k ops cnt s s1 \<Longrightarrow> broadcast_step ops cnt s1 s2 \<Longrightarrow> card (admitted_calls (br_calls s2)) \<le> k \<Longrightarrow> broadcast_steps_upto k ops cnt s s2"
  unfolding broadcast_steps_upto_def by (auto intro: rtranclp.rtrancl_into_rtrancl)

lemma BroadcastOn_can_process:
  assumes "fst (broadcastSendable ops channel sd h) = BroadcastOn ch sd'"
  shows "ho_CanProcess ops (h_env h)"
  using assms by (auto simp: broadcastSendable_def split: option.splits if_splits)

lemma upto_new_call:
  assumes "br_calls s i = None" and "\<And>ch sd. r = BroadcastOn ch sd \<Longrightarrow> ho_CanProcess ops (h_env (br_handler s))"
    and "throttled ops cnt limit" and "env_ok cnt h0 s"
    and "int (card (running_calls (br_calls s))) + int (card (admitted_calls (br_calls s))) \<le> limit + int k - 1"
    and "calls = (br_calls s)(i \<mapsto> admitted channel r)" and "card (admitted_calls calls) \<le> k"
  shows "int (card (running_calls calls)) + int (card (admitted_calls calls)) \<le> limit + int k - 1"
proof (cases r)
  case (BroadcastOn ch sd)
  then have "int (card (running_calls (br_calls s))) < limit"
    using assms(2,4) throttled_counts(5) [OF assms(3)] by (simp add: env_ok_def)
  with assms(1,6,7) BroadcastOn show ?thesis by simp
qed (use assms in simp)

lemma upto_bound_step:
  assumes "broadcast_step ops cnt s s'" and "throttled ops cnt limit" and "broadcast_inv cnt h0 s"
    and "int (card (running_calls (br_calls s))) + int (card (admitted_calls (br_calls s))) \<le> limit + int k - 1"
    and "card (admitted_calls (br_calls s')) \<le> k"
  shows "int (card (running_calls (br_calls s'))) + int (card (admitted_calls (br_calls s'))) \<le> limit + int k - 1"
proof -
  have env: "env_ok cnt h0 s" and ok: "oclb_ok (br_clb s)" "no_nil (br_clb s)" using assms(3) fifo_ok_clb by (auto simp: broadcast_inv_def)
  then have fin: "finite (running_calls (br_calls s))" "finite (admitted_calls (br_calls s))"
    using finite_calls [of "br_calls s"] by (simp_all add: env_ok_def)
  show ?thesis using assms(1)
  proof (cases rule: broadcast_step.cases)
    case (call i r channel topic buff)
    then show ?thesis using upto_new_call [OF call(2) _ assms(2) env assms(4), of r _ channel] assms(5)
      by (auto simp: broadcastOnChannelBlocking_def dest: BroadcastOn_can_process)
  next
    case (call_key i r channel topic buff p sk)
    then show ?thesis using upto_new_call [OF call_key(2) _ assms(2) env assms(4), of r _ channel] assms(5)
      by (auto simp: broadcastOnChannelBlockingUsingPrivateKey_def split: sum.splits dest: BroadcastOn_can_process)
  next
    case (begins i channel sd h)
    then have "Suc (card (admitted_calls (br_calls s) - {i})) = card (admitted_calls (br_calls s))"
      using fin(2) by (intro card_Suc_Diff1) simp_all
    with begins fin assms(4) show ?thesis by simp
  next
    case (lookup i channel sd)
    then show ?thesis using found_ok [OF ok(1), of channel sd] assms(4) by (auto simp: insert_absorb)
  next
    case (ends i)
    then show ?thesis using fin assms(4) card_Diff1_le [of "running_calls (br_calls s)" i] by simp
  qed (use ok(2) assms(4) in \<open>simp_all add: insert_absorb no_nil_def\<close>)
qed

lemma upto_bound:
  assumes "broadcast_steps_upto k ops cnt s0 s" and "broadcast_init cnt s0" and "throttled ops cnt limit" and "publishes ops" and "1 \<le> limit"
  shows "int (card (running_calls (br_calls s))) + int (card (admitted_calls (br_calls s))) \<le> limit + int k - 1"
  using assms(1) unfolding broadcast_steps_upto_def
proof (induction rule: rtranclp_induct)
  case base
  have "br_calls s0 = Map.empty" using assms(2) by (simp add: broadcast_init_def)
  with assms(5) show ?case by (simp add: running_calls_def admitted_calls_def)
next
  case (step s1 s2)
  then have "broadcast_inv cnt (br_handler s0) s1" using upto_steps assms(2-4) unfolding broadcast_steps_upto_def
    by (intro broadcast_inv_steps) (auto simp: broadcast_steps_upto_def)
  with step upto_bound_step [OF _ assms(3)] show ?case by blast
qed

section \<open>An example\<close>

text \<open>A throttler with a counter and a pubsub that records what is published.\<close>

definition limited_ops :: "int \<Rightarrow> (int \<times> (nat \<times> bytes \<times> (unit \<times> peerid) option) list, unit CacherMock, unit) handler_ops" where
  "limited_ops limit = \<lparr>ho_pubsub = plain_pubsub, ho_RegisterTopicValidator = (\<lambda>t v. None), ho_UnregisterTopicValidator = (\<lambda>t v. None),
     ho_Join = (\<lambda>t. Inr 0), ho_Subscribe = (\<lambda>t. Inr 0), ho_TopicClose = (\<lambda>t. None),
     ho_Publish = (\<lambda>t b sk (e, log). (None, (e, log @ [(t, b, sk)]))), ho_DirectSend = (\<lambda>topic b p e. (None, e)),
     ho_NextSequenceNumber = (\<lambda>e. ([1], e)), ho_CanProcess = (\<lambda>e. fst e < limit), ho_StartProcessing = apfst (\<lambda>n. n + 1),
     ho_EndProcessing = apfst (\<lambda>n. n - 1), ho_IsDenied = (\<lambda>p e. False), ho_UpsertPeerID = (\<lambda>p d e. (None, e)),
     ho_IncreaseRating = (\<lambda>p e. e), ho_UnmarshalSk = (\<lambda>b. Inr ()), ho_NewCache = (\<lambda>n. Inr NewCacherMock), ho_cache = CacherMock_ops,
     ho_iter = (\<lambda>xs. xs)\<rparr>"

definition limited_args :: "unit ArgMessagesHandler" where
  "limited_args = \<lparr>am_nilPubSub = False, am_nilDirectSender = False, am_nilThrottler = False, am_OutgoingCLB = Some (h_outgoingCLB publishing_handler),
     am_Marshaller = Some plain_marshaller, am_nilConnMonitor = False, am_nilPeersRatingHandler = False, am_nilSyncTimer = False,
     am_PeerID = [9], am_Logger = Some \<lparr>isLevelTrace = False\<rparr>\<rparr>"

definition limited_run :: "(int, unit CacherMock, unit) broadcast_run" where
  "limited_run = \<lparr>br_handler = (case NewMessagesHandler None (0, []) limited_args of Inr h \<Rightarrow> h), br_calls = Map.empty, br_loop = Pausing,
     br_sent = (\<lambda>_. []), br_turns = []\<rparr>"

lemma limited_ops_laws: "throttled (limited_ops limit) (\<lambda>n. n) limit" "publishes (limited_ops limit)"
  by (simp_all add: throttled_def publishes_def limited_ops_def)

lemma new_clb: "NewOutgoingChannelLoadBalancer (Some log) = Inr (h_outgoingCLB publishing_handler)"
  by (simp add: NewOutgoingChannelLoadBalancer_def appendChannel_def publishing_handler_def example_handler_def)

lemma limited_init: "broadcast_init (\<lambda>n. n) limited_run"
proof -
  have "NewMessagesHandler None (0, []) limited_args = Inr (br_handler limited_run)"
    by (simp add: NewMessagesHandler_def checkArgMessagesHandler_def limited_args_def limited_run_def)
  moreover have "am_OutgoingCLB limited_args = Some (h_outgoingCLB publishing_handler)" by (simp add: limited_args_def)
  moreover have "br_calls limited_run = Map.empty \<and> br_loop limited_run = Pausing \<and> br_sent limited_run = (\<lambda>_. []) \<and> br_turns limited_run = []"
    by (simp add: limited_run_def)
  ultimately show ?thesis unfolding broadcast_init_def using new_clb by blast
qed

lemma limited_handler:
  "h_env (br_handler limited_run) = (0, [])" "br_clb limited_run = h_outgoingCLB publishing_handler" "h_peerID (br_handler limited_run) = [9]"
  "br_calls limited_run = Map.empty" "br_loop limited_run = Pausing" "br_sent limited_run = (\<lambda>_. [])" "br_turns limited_run = []"
  by (simp_all add: limited_run_def NewMessagesHandler_def checkArgMessagesHandler_def limited_args_def)

definition limited_data :: "unit SendableData" where
  "limited_data = \<lparr>sd_Buff = [5], sd_Topic = ''t'', sd_Sk = None, sd_ID = [9]\<rparr>"

text \<open>A broadcast while the throttler counts \<open>n\<close> below the limit finds the default channel.\<close>

lemma limited_broadcast:
  assumes "fst (h_env h) < limit" and "h_peerID h = [9]" and "namesChans (h_outgoingCLB h) = [defaultSendChannel \<mapsto> 0]"
    and "chans (h_outgoingCLB h) = [0]"
  shows "broadcastOnChannelBlocking (limited_ops limit) ''t'' ''t'' [5] h =
    (BroadcastOn (Some 0) limited_data, h\<lparr>h_env := apfst (\<lambda>n. n + 1) (h_env h)\<rparr>)"
  using assms
  by (simp add: broadcastOnChannelBlocking_def broadcastSendable_def checkSendableData_def maxSendBuffSize_def messageHeader_def limited_ops_def
      limited_data_def GetChannelOrDefault_def defaultSendChannel_def)

lemma limited_clb: "namesChans (br_clb limited_run) = [defaultSendChannel \<mapsto> 0]" "chans (br_clb limited_run) = [0]"
    "workers (br_clb limited_run) = [0 \<mapsto> Waiting]" "closedChans (br_clb limited_run) = {}"
  by (simp_all add: limited_handler publishing_handler_def example_handler_def)

section \<open>Properties\<close>

lemma map_filter_Some [simp]: "List.map_filter id (map Some xs) = xs"
  by (induction xs) (simp_all add: map_filter_simps)

text \<open>
  C30. In every run of the sending half, whatever broadcasts, go routines, the loop and the creation of topics do at the same
  time: per channel, what was handed over is what the loop got, in this order, what it is about to publish and what the go
  routine holds; a pubsub that takes everything got exactly one packet per object the loop got, in this order, without those whose topic was
  not joined or that cannot be packed; the throttler counts exactly the broadcasts that run; no broadcast panics.
\<close>

theorem broadcasts_published_in_order:
  assumes "broadcast_init cnt s0" and "throttled ops cnt limit" and "publishes ops" and "broadcast_steps ops cnt s0 s"
  shows "(\<forall>ch. br_sent s ch = from_channel ch (br_turns s) @ in_loop (br_loop s) ch @ held (workers (h_outgoingCLB (br_handler s)) ch)) \<and>
    snd (h_env (br_handler s)) = concat (map (turn_packets (br_handler s)) (br_turns s)) \<and>
    cnt (fst (h_env (br_handler s))) = int (card (running_calls (br_calls s))) \<and>
    (\<forall>i. br_calls s i \<noteq> Some Panicked)"
proof -
  have inv: "broadcast_inv cnt (br_handler s0) s" by (rule broadcast_inv_steps [OF assms(4,1-3)])
  then have "sent (clb_system s) ch = List.map_filter id (collected (clb_system s) ch) @ held (workers (bal (clb_system s)) ch)" for ch
    by (simp add: broadcast_inv_def fifo_ok_def)
  then have "br_sent s ch = from_channel ch (br_turns s) @ in_loop (br_loop s) ch @ held (workers (br_clb s) ch)" for ch
    unfolding clb_system_def by (simp only: oclb_system.simps map_filter_Some append_assoc)
  moreover have "turn_packets (br_handler s0) = turn_packets (br_handler s)"
    using inv by (intro turn_packets_cong) (simp add: broadcast_inv_def env_ok_def)
  ultimately show ?thesis using inv by (simp add: broadcast_inv_def env_ok_def calls_ok_def)
qed

theorem broadcasts_published_in_order_witness:
  "\<exists>s. broadcast_steps (limited_ops 2) (\<lambda>n. n) limited_run s \<and> br_sent s 0 = [limited_data] \<and>
     br_sent s 0 = from_channel 0 (br_turns s) @ in_loop (br_loop s) 0 @ held (workers (h_outgoingCLB (br_handler s)) 0) \<and>
     fst (h_env (br_handler s)) = int (card (running_calls (br_calls s)))"
proof -
  let ?s1 = "set_call 0 (Offering 0 limited_data) (limited_run\<lparr>br_handler := (br_handler limited_run)\<lparr>h_env := (1, [])\<rparr>\<rparr>)"
  let ?s2 = "set_call 0 Taken (set_clb (put_worker 0 (Holding (Some limited_data)) (br_clb limited_run)) (?s1\<lparr>br_sent := (br_sent ?s1)(0 := br_sent ?s1 0 @ [limited_data])\<rparr>))"
  have "broadcast_steps (limited_ops 2) (\<lambda>n. n) limited_run ?s1"
    using broadcast_uninterrupted [OF limited_broadcast, of limited_run 2 0 "\<lambda>n. n"] by (simp add: limited_handler limited_clb [unfolded limited_handler])
  moreover have "broadcast_step (limited_ops 2) (\<lambda>n. n) ?s1 ?s2"
    by (rule broadcast_step.sends) (use limited_clb in simp_all)
  ultimately have steps: "broadcast_steps (limited_ops 2) (\<lambda>n. n) limited_run ?s2" by (rule rtranclp.rtrancl_into_rtrancl)
  have "br_sent ?s2 0 = [limited_data]" by (simp add: limited_handler)
  with steps broadcasts_published_in_order [OF limited_init limited_ops_laws steps] show ?thesis by blast
qed

text \<open>
  C6. Until the context of the handler ends, every broadcast that the throttler let in can run to its end. After the close,
  once the loop has returned, a go routine of the load balancer that holds an object never ends and its object is never
  collected; a broadcast that sends to a channel whose go routine holds an object or has stopped never returns.
\<close>

theorem broadcasts_end_until_the_close:
  assumes "broadcast_init cnt s0" and "throttled ops cnt limit" and "publishes ops" and "broadcast_steps ops cnt s0 s"
  shows "(\<not> h_ctxDone (br_handler s) \<and> i \<in> running_calls (br_calls s) \<union> admitted_calls (br_calls s) \<longrightarrow>
      (\<exists>s'. broadcast_steps ops cnt s s' \<and> br_calls s' i = Some (Ended None))) \<and>
    (br_loop s = LoopEnded \<and> unserved (h_outgoingCLB (br_handler s)) ch \<and> broadcast_steps ops cnt s s' \<longrightarrow>
      workers (h_outgoingCLB (br_handler s')) ch = workers (h_outgoingCLB (br_handler s)) ch \<and>
      (br_calls s i = Some (Offering ch sd) \<longrightarrow> br_calls s' i = Some (Offering ch sd)))"
proof (intro conjI impI; (elim conjE)?)
  have inv: "broadcast_inv cnt (br_handler s0) s" by (rule broadcast_inv_steps [OF assms(4,1-3)])
  assume ctx: "\<not> h_ctxDone (br_handler s)" and i: "i \<in> running_calls (br_calls s) \<union> admitted_calls (br_calls s)"
  from i consider channel sd where "br_calls s i = Some (Admitted channel sd)" | channel sd where "br_calls s i = Some (Started channel sd)"
    | ch sd where "br_calls s i = Some (Offering ch sd)" | "br_calls s i = Some Taken"
    by (auto simp: running_calls_def admitted_calls_def elim: running.elims)
  then show "\<exists>s'. broadcast_steps ops cnt s s' \<and> br_calls s' i = Some (Ended None)"
    using admitted_can_end [OF _ assms(2,3) inv ctx] started_can_end [OF _ assms(2,3) inv ctx] offering_can_end [OF _ inv ctx] taken_can_end
    by cases blast+
next
  assume "br_loop s = LoopEnded" and "unserved (br_clb s) ch" and steps: "broadcast_steps ops cnt s s'"
  then show "workers (br_clb s') ch = workers (br_clb s) ch"
    using blocked_steps [OF steps assms(2,3) broadcast_inv_steps [OF assms(4,1-3)]] by blast
  assume "br_calls s i = Some (Offering ch sd)"
  then show "br_calls s' i = Some (Offering ch sd)"
    using \<open>br_loop s = LoopEnded\<close> \<open>unserved (br_clb s) ch\<close> blocked_steps [OF steps assms(2,3) broadcast_inv_steps [OF assms(4,1-3)]] by blast
qed

theorem broadcasts_end_until_the_close_witness:
  "\<exists>s. broadcast_steps (limited_ops 2) (\<lambda>n. n) limited_run s \<and> br_calls s 1 = Some (Offering 0 limited_data) \<and>
     (\<forall>s'. broadcast_steps (limited_ops 2) (\<lambda>n. n) s s' \<longrightarrow> br_calls s' 1 = Some (Offering 0 limited_data) \<and>
       workers (h_outgoingCLB (br_handler s')) 0 = Some (Holding (Some limited_data)))"
proof -
  let ?h = "br_handler limited_run"
  let ?q = "limited_run\<lparr>br_handler := ?h\<lparr>h_ctxDone := True\<rparr>\<rparr>"
  let ?r = "?q\<lparr>br_loop := LoopEnded\<rparr>"
  let ?s1 = "set_call 0 (Offering 0 limited_data) (?r\<lparr>br_handler := (br_handler ?r)\<lparr>h_env := (1, [])\<rparr>\<rparr>)"
  let ?s2 = "set_call 0 Taken (set_clb (put_worker 0 (Holding (Some limited_data)) (br_clb limited_run)) (?s1\<lparr>br_sent := (br_sent ?s1)(0 := br_sent ?s1 0 @ [limited_data])\<rparr>))"
  let ?s3 = "set_call 1 (Offering 0 limited_data) (?s2\<lparr>br_handler := (br_handler ?s2)\<lparr>h_env := (2, [])\<rparr>\<rparr>)"
  have "broadcast_step (limited_ops 2) (\<lambda>n. n) limited_run ?q" by (rule broadcast_step.cancels)
  moreover have "broadcast_step (limited_ops 2) (\<lambda>n. n) ?q ?r" by (rule broadcast_step.loop_ends) (simp_all add: limited_handler)
  moreover have "broadcast_steps (limited_ops 2) (\<lambda>n. n) ?r ?s1"
    using broadcast_uninterrupted [OF limited_broadcast, of ?r 2 0 "\<lambda>n. n"] by (simp add: limited_handler limited_clb [unfolded limited_handler])
  moreover have "broadcast_step (limited_ops 2) (\<lambda>n. n) ?s1 ?s2"
    by (rule broadcast_step.sends) (use limited_clb in simp_all)
  moreover have "broadcast_steps (limited_ops 2) (\<lambda>n. n) ?s2 ?s3"
    using broadcast_uninterrupted [OF limited_broadcast, of ?s2 2 1 "\<lambda>n. n"] by (simp add: limited_handler limited_clb [unfolded limited_handler])
  ultimately have steps: "broadcast_steps (limited_ops 2) (\<lambda>n. n) limited_run ?s3"
    by (meson converse_rtranclp_into_rtranclp rtranclp_trans)
  have "br_loop ?s3 = LoopEnded" "unserved (br_clb ?s3) 0" "br_calls ?s3 1 = Some (Offering 0 limited_data)"
      "workers (br_clb ?s3) 0 = Some (Holding (Some limited_data))" by (simp_all add: unserved_def)
  with steps broadcasts_end_until_the_close [OF limited_init limited_ops_laws steps, of 1 0 _ limited_data] show ?thesis
    by (intro exI [of _ ?s3]) metis
qed

text \<open>
  C14. The throttler is asked and then told in two steps, so its limit is not exact: when at most \<open>k\<close> broadcasts are at once
  between the two, at most \<open>limit + k - 1\<close> broadcasts run. One at a time gives the limit; the witness has two running under a limit of one.
\<close>

theorem broadcast_throttle_bound:
  assumes "broadcast_init cnt s0" and "throttled ops cnt limit" and "publishes ops" and "1 \<le> limit" and "broadcast_steps_upto k ops cnt s0 s"
  shows "int (card (running_calls (br_calls s))) \<le> limit + int k - 1"
  using upto_bound [OF assms(5,1-4)] by simp

theorem broadcast_throttle_bound_witness:
  "\<exists>s. broadcast_steps_upto 2 (limited_ops 1) (\<lambda>n. n) limited_run s \<and> card (running_calls (br_calls s)) = 2 \<and>
     int (card (running_calls (br_calls s))) \<le> 1 + int 2 - 1"
proof -
  let ?h = "br_handler limited_run" and ?a = "Admitted ''t'' limited_data" and ?b = "Started ''t'' limited_data"
  let ?s1 = "set_call 0 ?a limited_run"
  let ?s2 = "set_call 1 ?a ?s1"
  let ?s3 = "set_call 0 ?b (?s2\<lparr>br_handler := ?h\<lparr>h_env := (1, [])\<rparr>\<rparr>)"
  let ?s4 = "set_call 1 ?b (?s3\<lparr>br_handler := ?h\<lparr>h_env := (2, [])\<rparr>\<rparr>)"
  have r: "fst (broadcastOnChannelBlocking (limited_ops 1) ''t'' ''t'' [5] ?h) = BroadcastOn (Some 0) limited_data"
    using limited_broadcast [of ?h 1] limited_clb by (simp add: limited_handler)
  have adm: "admitted_calls (br_calls ?s1) = {0}" "admitted_calls (br_calls ?s2) = {0, 1}" "admitted_calls (br_calls ?s3) = {1}"
      "admitted_calls (br_calls ?s4) = {}" by (auto simp: limited_handler admitted_calls_def)
  have step: "broadcast_step (limited_ops 1) (\<lambda>n. n) limited_run ?s1"
    using broadcast_step.call [of limited_run 0 _ "limited_ops 1" "''t''" "''t''" "[5]" "\<lambda>n. n", OF _ refl] r by (simp add: limited_handler)
  have steps: "broadcast_steps_upto 2 (limited_ops 1) (\<lambda>n. n) limited_run ?s1" by (rule upto_intros(2) [OF upto_intros(1) step]) (simp only: adm, simp)
  have step: "broadcast_step (limited_ops 1) (\<lambda>n. n) ?s1 ?s2"
    using broadcast_step.call [of ?s1 1 _ "limited_ops 1" "''t''" "''t''" "[5]" "\<lambda>n. n", OF _ refl] r by (simp add: limited_handler)
  have steps: "broadcast_steps_upto 2 (limited_ops 1) (\<lambda>n. n) limited_run ?s2" by (rule upto_intros(2) [OF steps step]) (simp only: adm, simp)
  have step: "broadcast_step (limited_ops 1) (\<lambda>n. n) ?s2 ?s3"
    by (rule broadcast_step.begins) (simp_all add: limited_handler limited_ops_def)
  have steps: "broadcast_steps_upto 2 (limited_ops 1) (\<lambda>n. n) limited_run ?s3" by (rule upto_intros(2) [OF steps step]) (simp only: adm, simp)
  have step: "broadcast_step (limited_ops 1) (\<lambda>n. n) ?s3 ?s4"
    by (rule broadcast_step.begins) (simp_all add: limited_handler limited_ops_def)
  have steps: "broadcast_steps_upto 2 (limited_ops 1) (\<lambda>n. n) limited_run ?s4" by (rule upto_intros(2) [OF steps step]) (simp only: adm, simp)
  have "running_calls (br_calls ?s4) = {0, 1}" by (auto simp: limited_handler running_calls_def)
  then have "card (running_calls (br_calls ?s4)) = 2" by simp
  with steps broadcast_throttle_bound [OF limited_init limited_ops_laws _ steps] show ?thesis by (intro exI [of _ ?s4]) simp
qed

end
