(* ===== verification/DiscoveryRun.thy ===== *)
theory DiscoveryRun
  imports Discovery
begin

text \<open>
  The calls of \<^verbatim>\<open>Bootstrap\<close> and the main loop of the optimized discoverer
  (\<^verbatim>\<open>p2p/libp2p/discovery/optimizedKadDhtDiscoverer.go\<close>) as go routines that meet on the channels \<^verbatim>\<open>chanInit\<close> and
  \<^verbatim>\<open>errChanInit\<close>, which are not buffered.
\<close>

section \<open>Callers and the loop\<close>

text \<open>
  A caller waits to hand over its request (\<open>Requesting\<close>), then for the answer (\<open>Receiving\<close>). The loop is in its \<^verbatim>\<open>select\<close>, in
  \<^verbatim>\<open>processInit\<close> for a request it has taken, or has returned.
\<close>

datatype caller = Requesting | Receiving | Returned "p2p_error option"

datatype main_loop = Selecting | Initializing | Finished

record ('n, 'k, 'd) discoverer_run =
  dr_okdd :: "('k, 'd) optimizedKadDhtDiscoverer"
  dr_net :: 'n
  dr_loop :: main_loop
  dr_callers :: "nat \<rightharpoonup> caller"

text \<open>
  \<^verbatim>\<open>finishMainLoopProcessing\<close> hands the error of the context to a caller that receives, if there is one; the caller is
  chosen by the run-time system.
\<close>

definition finishMainLoopProcessing :: "p2p_error option \<Rightarrow> nat option \<Rightarrow> ('n, 'k, 'd) discoverer_run \<Rightarrow> ('n, 'k, 'd) discoverer_run" where
  "finishMainLoopProcessing ctxErr receiver s =
     (case receiver of
        None \<Rightarrow> s
      | Some i \<Rightarrow> s\<lparr>dr_callers := (dr_callers s)(i \<mapsto> Returned ctxErr)\<rparr>)"

definition receives :: "('n, 'k, 'd) discoverer_run \<Rightarrow> nat option \<Rightarrow> bool" where
  "receives s receiver \<longleftrightarrow>
     (case receiver of None \<Rightarrow> \<forall>i. dr_callers s i \<noteq> Some Receiving | Some i \<Rightarrow> dr_callers s i = Some Receiving)"

inductive discover_step :: "('k, 'd) dht_ops \<Rightarrow> ('n, 'k, 'd) discovery_env \<Rightarrow> p2p_error option
  \<Rightarrow> ('n, 'k, 'd) discoverer_run \<Rightarrow> ('n, 'k, 'd) discoverer_run \<Rightarrow> bool" for ops e ctxErr where
  calls: "dr_callers s i = None \<Longrightarrow> discover_step ops e ctxErr s (s\<lparr>dr_callers := (dr_callers s)(i \<mapsto> Requesting)\<rparr>)"
| request: "dr_loop s = Selecting \<Longrightarrow> dr_callers s i = Some Requesting
    \<Longrightarrow> discover_step ops e ctxErr s (s\<lparr>dr_loop := Initializing, dr_callers := (dr_callers s)(i \<mapsto> Receiving)\<rparr>)"
| answer: "dr_loop s = Initializing \<Longrightarrow> dr_callers s i = Some Receiving \<Longrightarrow> processInit ops e (dr_okdd s) (dr_net s) = Some (err, okdd, n)
    \<Longrightarrow> discover_step ops e ctxErr s (s\<lparr>dr_okdd := okdd, dr_net := n, dr_loop := Selecting, dr_callers := (dr_callers s)(i \<mapsto> Returned err)\<rparr>)"
| turn: "dr_loop s = Selecting \<Longrightarrow> ev \<in> {ChTimeSeedersReconnect, ChanConnectToSeeders, ChTimeFindPeers}
    \<Longrightarrow> okdd_processLoop_turn ops e ev (dr_okdd s) (dr_net s) = Some (r, okdd, n)
    \<Longrightarrow> discover_step ops e ctxErr s (s\<lparr>dr_okdd := okdd, dr_net := n\<rparr>)"
| finish: "dr_loop s = Selecting \<Longrightarrow> okdd_processLoop_turn ops e DiscoveryCtxDone (dr_okdd s) (dr_net s) = Some (r, okdd, n)
    \<Longrightarrow> receives s receiver
    \<Longrightarrow> discover_step ops e ctxErr s (finishMainLoopProcessing ctxErr receiver (s\<lparr>dr_okdd := okdd, dr_net := n, dr_loop := Finished\<rparr>))"
| net: "discover_step ops e ctxErr s (s\<lparr>dr_net := n\<rparr>)"

inductive_cases discover_stepE: "discover_step ops e ctxErr s s'"

definition discover_init :: "'k ArgKadDht \<Rightarrow> ('n, 'k, 'd) discoverer_run \<Rightarrow> bool" where
  "discover_init arg s \<longleftrightarrow> NewOptimizedKadDhtDiscoverer arg = Inr (dr_okdd s) \<and> dr_loop s = Selecting \<and> dr_callers s = Map.empty"

abbreviation discover_steps :: "('k, 'd) dht_ops \<Rightarrow> ('n, 'k, 'd) discovery_env \<Rightarrow> p2p_error option
  \<Rightarrow> ('n, 'k, 'd) discoverer_run \<Rightarrow> ('n, 'k, 'd) discoverer_run \<Rightarrow> bool" where
  "discover_steps ops e ctxErr \<equiv> (discover_step ops e ctxErr)\<^sup>*\<^sup>*"

section \<open>The invariant\<close>

text \<open>Nobody receives unless the loop is at his request; a call that succeeded has initialised the discoverer, and it is the only one.\<close>

definition discover_inv :: "('n, 'k, 'd) discoverer_run \<Rightarrow> bool" where
  "discover_inv s \<longleftrightarrow>
     (\<forall>i. dr_callers s i = Some Receiving \<longrightarrow> dr_loop s = Initializing) \<and>
     (\<forall>i j. dr_callers s i = Some Receiving \<longrightarrow> dr_callers s j = Some Receiving \<longrightarrow> i = j) \<and>
     (\<forall>i. dr_callers s i = Some (Returned None) \<longrightarrow> okdd_status (dr_okdd s) = statInitialized) \<and>
     (\<forall>i j. dr_callers s i = Some (Returned None) \<longrightarrow> dr_callers s j = Some (Returned None) \<longrightarrow> i = j)"

text \<open>The status of the discoverer changes in \<^verbatim>\<open>init\<close> only.\<close>

lemma connectToSeeder_status:
  "connectToSeeder e a okdd n = Some (err, okdd', n') \<Longrightarrow> okdd_status okdd' = okdd_status okdd"
  by (auto simp: connectToSeeder_def split: sum.splits if_splits option.splits)

lemma tryToReconnect_status:
  "tryToReconnect_loop e l b okdd n = Some (b', okdd', n') \<Longrightarrow> okdd_status okdd' = okdd_status okdd"
proof (induction l arbitrary: b okdd n)
  case (Cons a l)
  then show ?case by (auto simp: Let_def split: option.splits if_splits prod.splits dest!: connectToSeeder_status)
qed simp

lemma processSeedersReconnect_status:
  "processSeedersReconnect e okdd n = Some (okdd', n') \<Longrightarrow> okdd_status okdd' = okdd_status okdd"
  by (auto simp: processSeedersReconnect_def tryToReconnectAtLeastToASeeder_def split: option.splits if_splits dest!: tryToReconnect_status)

lemma processInit_status:
  assumes "processInit ops e okdd n = Some (err, okdd', n')"
  shows "err = None \<Longrightarrow> okdd_status okdd = statNotInitialized \<and> okdd_status okdd' = statInitialized"
    and "err \<noteq> None \<Longrightarrow> okdd_status okdd' = okdd_status okdd"
  using assms
  by (auto simp: processInit_def okdd_init_def Let_def split: if_splits option.splits sum.splits dest!: processSeedersReconnect_status)

lemma turn_status:
  "okdd_processLoop_turn ops e ev okdd n = Some (r, okdd', n') \<Longrightarrow> ev \<noteq> ChanInit \<Longrightarrow> okdd_status okdd' = okdd_status okdd"
  by (cases ev) (auto dest: processSeedersReconnect_status)

lemma discover_inv_init: "discover_init arg s \<Longrightarrow> discover_inv s"
  by (simp add: discover_init_def discover_inv_def)

lemma discover_inv_step:
  assumes "discover_step ops e ctxErr s s'" and "discover_inv s" and "ctxErr \<noteq> None"
  shows "discover_inv s'"
  using assms(1)
proof (cases rule: discover_step.cases)
  case (answer i err okdd n)
  note processInit_status [OF answer(4)]
  with answer assms(2) show ?thesis by (cases "err = None") (auto simp: discover_inv_def split: if_splits)
next
  case (turn ev r okdd n)
  then have "okdd_status okdd = okdd_status (dr_okdd s)" using turn_status by fastforce
  with turn assms(2) show ?thesis by (auto simp: discover_inv_def)
next
  case (finish r okdd n receiver)
  then have "receiver = None" using assms(2) by (auto simp: receives_def discover_inv_def split: option.splits)
  with finish assms(2) show ?thesis by (auto simp: discover_inv_def finishMainLoopProcessing_def)
qed (use assms(2) in \<open>auto simp: discover_inv_def split: if_splits\<close>)

lemma discover_inv_steps:
  assumes "discover_steps ops e ctxErr s s'" and "discover_inv s" and "ctxErr \<noteq> None"
  shows "discover_inv s'"
  using assms by (induction rule: rtranclp_induct) (auto intro: discover_inv_step)

text \<open>After the end of the loop a request is never taken.\<close>

lemma finished_step:
  assumes "discover_step ops e ctxErr s s'" and "dr_loop s = Finished" and "dr_callers s i = Some c"
  shows "dr_loop s' = Finished \<and> dr_callers s' i = Some c"
  using assms by (elim discover_stepE) auto

lemma finished_steps:
  assumes "discover_steps ops e ctxErr s s'" and "dr_loop s = Finished" and "dr_callers s i = Some c"
  shows "dr_loop s' = Finished \<and> dr_callers s' i = Some c"
  using assms by (induction rule: rtranclp_induct) (auto dest: finished_step)

section \<open>Property\<close>

text \<open>
  C33. In every run of the main loop and of any number of calls of Bootstrap, at most one call succeeds. When the context
  ends, no caller receives on the channel of the answers, so the error of the context is handed to nobody: a caller
  whose request was not taken by then, and every later caller, waits forever and never returns.
\<close>

theorem bootstrap_never_returns_after_the_end:
  assumes "discover_init arg s0" and "ctxErr \<noteq> None" and "discover_steps ops e ctxErr s0 s"
  shows "(\<forall>i j. dr_callers s i = Some (Returned None) \<and> dr_callers s j = Some (Returned None) \<longrightarrow> i = j) \<and>
    (dr_loop s \<noteq> Initializing \<longrightarrow> (\<forall>i. dr_callers s i \<noteq> Some Receiving)) \<and>
    (dr_loop s = Finished \<longrightarrow> (\<forall>s' i. discover_steps ops e ctxErr s s' \<and> dr_callers s i = Some Requesting \<longrightarrow> dr_callers s' i = Some Requesting))"
proof -
  have "discover_inv s" by (rule discover_inv_steps [OF assms(3) discover_inv_init [OF assms(1)] assms(2)])
  then show ?thesis using finished_steps by (fastforce simp: discover_inv_def)
qed

definition example_discovery_arg :: "unit ArgKadDht" where
  "example_discovery_arg = \<lparr>akd_nilContext = False, akd_nilHost = False, akd_PeersRefreshInterval = time_Second,
     akd_SeedersReconnectionInterval = time_Second, akd_ProtocolID = ''p'', akd_InitialPeersList = [], akd_BucketSize = 20,
     akd_RoutingTableRefresh = time_Second, akd_KddSharder = Some NilListSharderImpl, akd_isDiscoverySharder = True,
     akd_ConnectionWatcher = Some DisabledWatcher, akd_Logger = Some \<lparr>isLevelTrace = False\<rparr>\<rparr>"

definition example_discovery_run :: "(unit, unit, unit) discoverer_run" where
  "example_discovery_run = \<lparr>dr_okdd = (case NewOptimizedKadDhtDiscoverer example_discovery_arg of Inr okdd \<Rightarrow> okdd), dr_net = (),
     dr_loop = Selecting, dr_callers = Map.empty\<rparr>"

theorem bootstrap_never_returns_after_the_end_witness:
  "\<forall>e. \<exists>s. discover_steps (\<lparr>dht_New = \<lambda>h p t. Inr (), dht_Close = \<lambda>d. None\<rparr> :: (unit, unit) dht_ops) e (Some ErrNilContext) example_discovery_run s \<and>
     dr_loop s = Finished \<and> (\<forall>s'. discover_steps \<lparr>dht_New = \<lambda>h p t. Inr (), dht_Close = \<lambda>d. None\<rparr> e (Some ErrNilContext) s s' \<longrightarrow>
       dr_callers s' 0 = Some Requesting)"
proof
  fix e :: "(unit, unit, unit) discovery_env"
  let ?ops = "\<lparr>dht_New = \<lambda>h p t. Inr (), dht_Close = \<lambda>d. None\<rparr> :: (unit, unit) dht_ops" and ?r = example_discovery_run
  let ?s1 = "?r\<lparr>dr_okdd := (dr_okdd ?r)\<lparr>okdd_stopped := True\<rparr>, dr_net := (), dr_loop := Finished\<rparr>"
  let ?s2 = "?s1\<lparr>dr_callers := [0 \<mapsto> Requesting]\<rparr>"
  have init: "discover_init example_discovery_arg ?r"
    by (simp add: discover_init_def example_discovery_run_def NewOptimizedKadDhtDiscoverer_def prepareArguments_def example_discovery_arg_def
        NewHostWithConnectionManagement_def minIntervalForSeedersReconnection_def)
  have "discover_step ?ops e (Some ErrNilContext) ?r (finishMainLoopProcessing (Some ErrNilContext) None ?s1)"
    by (rule discover_step.finish [where receiver = None]) (auto simp: example_discovery_run_def receives_def)
  moreover have "discover_step ?ops e (Some ErrNilContext) ?s1 ?s2"
    using discover_step.calls [of ?s1 0 ?ops e "Some ErrNilContext"] by (simp add: example_discovery_run_def)
  ultimately have steps: "discover_steps ?ops e (Some ErrNilContext) ?r ?s2"
    by (simp add: finishMainLoopProcessing_def)
  from bootstrap_never_returns_after_the_end [OF init _ steps] steps
  show "\<exists>s. discover_steps ?ops e (Some ErrNilContext) ?r s \<and> dr_loop s = Finished \<and>
      (\<forall>s'. discover_steps ?ops e (Some ErrNilContext) s s' \<longrightarrow> dr_callers s' 0 = Some Requesting)"
    by (intro exI [of _ ?s2]) auto
qed

end
