(* ===== verification/Spec2Isabelle.thy ===== *)
theory Spec2Isabelle
  imports PeersRating WireAccess WsProtocol WsHost NetMessenger BroadcastRun DiscoveryRun
begin

text \<open>
  A verification library for \<^verbatim>\<open>mx-chain-communication-go\<close>, the communication library of MultiversX nodes: a
  peer to peer messenger over \<^verbatim>\<open>go-libp2p\<close> (\<^verbatim>\<open>src/p2p/\<close>) and a WebSocket host (\<^verbatim>\<open>src/websocket/\<close>).

  \<^bold>\<open>The program.\<close> A node is a network messenger (\<^verbatim>\<open>p2p/libp2p/netMessenger.go\<close>). It builds a host, a sharder that
  says which connections to give up, discoverers that find peers through seeders, a connection monitor that reacts
  to connections, a direct sender, a load balancer of outgoing channels, a messages handler that
  publishes and validates messages on topics, and a connections handler that answers questions about peers. Beside
  it stand the rating of peers, the holder of preferred peers and the message verifier. A WebSocket host is a
  client or a server; each connection has a transceiver that numbers payloads and waits for acknowledgements.

  \<^bold>\<open>Theories and sources.\<close>
  \<^item> \<open>Prelude\<close>: the errors of \<^verbatim>\<open>p2p/errors.go\<close>, Go slices, strings and decimal numbers, and the collections
    \<open>go_simps\<close> and \<open>wf_intros\<close>. \<open>Config\<close>: \<^verbatim>\<open>p2p/config/config.go\<close> and the names of \<^verbatim>\<open>p2p/constants.go\<close>.
  \<^item> \<open>Cacher\<close>: the interface of the caches as the locale \<open>cacher\<close>, with the map backed cache of \<^verbatim>\<open>p2p/mock/\<close> as an
    instance. \<open>MutexHolder\<close>: \<^verbatim>\<open>mutexHolder.go\<close> over any cache (C25).
  \<^item> \<open>PeersRating\<close>: \<^verbatim>\<open>p2p/rating/\<close>; tiers and bounds as an invariant of all calls, saturation, the order of the top rated
    peers (C1 to C3), the report of the rating monitor.
  \<^item> \<open>NetIP\<close>, \<open>PeersHolder\<close>: \<^verbatim>\<open>p2p/peersHolder/\<close> with \<^verbatim>\<open>net.ParseIP\<close>; preferred peers are found, a removal is exact once,
    the next one may panic (C5, C7).
  \<^item> \<open>PeerSorting\<close>, \<open>NetworkSharding\<close>: \<^verbatim>\<open>p2p/libp2p/networksharding/\<close>; limits, quotas and nearness of the evictions, the two
    distances (C8 to C12). The locale \<open>sharder\<close> is what users of a sharder rely on.
  \<^item> \<open>ProtoWire\<close>, \<open>WireMessages\<close>, \<open>WireAccess\<close>: the generated codecs of the three protobuf messages; round trips and skipped
    fields (C13, C15), and what is generated beside: getters, equality, writing into a buffer of the caller.
  \<^item> \<open>WsConnection\<close>, \<open>Transceiver\<close>, \<open>WsProtocol\<close>, \<open>WsHost\<close>: \<^verbatim>\<open>websocket/\<close>. \<open>WsProtocol\<close> is the transition system of two
    transceivers and the wire between them (C16 to C18), \<open>WsHost\<close> the client and the server
    with its route and its registry of clients (C20, C21).
  \<^item> \<open>P2PCrypto\<close>: \<^verbatim>\<open>p2p/libp2p/crypto/\<close> (C23). \<open>P2PMessage\<close>: \<^verbatim>\<open>message.go\<close> and the message verifier (C24). \<open>DirectSender\<close>:
    \<^verbatim>\<open>directSender.go\<close> with the reader of its streams and its time cache; sequence numbers, replays, authenticity, acceptance (C26 to C28).
  \<^item> \<open>LoadBalancer\<close>: \<^verbatim>\<open>outgoingChannelLoadBalancer.go\<close>; it refines an abstract registry (the locale
    \<open>channel_registry\<close>), keeps the order of each channel in every interleaving, and a removed channel gives nil (C29, C31).
  \<^item> \<open>TopicPeers\<close>, \<open>MessagesHandler\<close>, \<open>Broadcasts\<close>: \<^verbatim>\<open>topicProcessors.go\<close>, \<^verbatim>\<open>peersOnChannel.go\<close>, \<^verbatim>\<open>messagesHandler.go\<close>; freshness of the
    peers of a topic, the window of timestamps, relaying, validators and processors also when pubsub refuses a call (C34 to C36), and the path of a
    broadcast from the call at one node to the processors of another (C32). \<open>BroadcastRun\<close>: all broadcasts, the go routines of the load
    balancer and the publishing loop of a node as one transition system, which the one of \<open>LoadBalancer\<close> simulates; what is
    published and in which order (C30), which broadcasts end (C6), and how far the limit of the throttler holds (C14).
  \<^item> \<open>Connections\<close>: \<^verbatim>\<open>connectionsHandler.go\<close>, \<^verbatim>\<open>connectionMonitor/\<close>, \<^verbatim>\<open>connectableHost.go\<close>, \<^verbatim>\<open>metrics/\<close> and the host that asks the
    sharder; the report of the connected peers is exact (C38). \<open>MonitorRun\<close>: the runs of the handler and the monitor, with any
    number of pending connection events; the limits of the sharder as an invariant, preferred peers stay in the holder unless a closed
    connection had their identifier as its own (C39), attempts to reconnect are throttled.
  \<^item> \<open>Discovery\<close>: \<^verbatim>\<open>discovery/\<close>; when the loop over the seeders ends (C40). \<open>DiscoveryRun\<close>: calls of \<^verbatim>\<open>Bootstrap\<close> and the main loop of
    the optimized discoverer as go routines; one call succeeds at most, and none returns after the end (C33).
  \<^item> \<open>Ports\<close>, \<open>NetMessenger\<close>: \<^verbatim>\<open>ports.go\<close> (C19), \<^verbatim>\<open>netMessenger.go\<close>, \<^verbatim>\<open>mockMessenger.go\<close>, \<^verbatim>\<open>testNetMessenger.go\<close>, \<^verbatim>\<open>resourceLimiter/\<close> and the
    stand-ins of \<^verbatim>\<open>disabled/\<close>; what the construction of a node gives (C4), and that a node that was built keeps the limits of
    its configuration in every run (C22). This theory holds the path of a direct message between two nodes (C37).

  \<^bold>\<open>How Go is read.\<close> A struct is a record, an interface with several implementations a datatype of them or a record
  of operations. A call that changes a struct returns the changed record; a result with an error is \<open>'a res\<close> or an optional
  error, where an error that wraps another stands for the wrapped one. A panic is \<^const>\<open>None\<close>. Integers of fixed width are
  words; an \<^verbatim>\<open>int\<close> that cannot leave 64 bits is an \<open>int\<close>. An argument of an interface type that may be nil is an
  option or a flag. Log messages have no effect. A mutex makes a method one step. A go routine is cut where it
  blocks: one turn of its loop is a function, and the transition systems \<open>ws_step\<close>, \<open>oclb_step\<close>, \<open>conn_step\<close>,
  \<open>discover_step\<close>, \<open>broadcast_step\<close>, \<open>handler_step\<close> and \<open>server_step\<close> interleave the turns.
  The iteration over a Go map takes its order as an argument. One object that several components hold is either one
  value in the state or is handed over at the call.

  \<^bold>\<open>Parameters and hypotheses.\<close> \<^verbatim>\<open>go-libp2p\<close>, gossipsub, the Kademlia table, the sockets, the caches of
  \<^verbatim>\<open>mx-chain-storage-go\<close>, keys and signatures, clocks and random orders are records of operations. What a theorem needs of them is
  a named predicate (\<open>codec_laws\<close>, \<open>key_laws\<close>, \<open>signature_laws\<close>, \<open>network_laws\<close>, \<open>pubsub_laws\<close>, \<open>handler_laws\<close>, \<open>delimited_laws\<close>, \<open>publishes\<close>, \<open>throttled\<close>,
  \<open>remembers\<close>, the locales \<open>cacher\<close> and \<open>sorter\<close>), and each such theorem has a witness on concrete operations. \<open>remembers\<close> says that a time cache
  keeps a key for its span and nothing of later times. The largest slice that the run time makes (\<open>maxCap\<close>), and what a listener does
  to a transceiver while a \<^verbatim>\<open>Send\<close> of the server waits for its acknowledge (\<open>waits\<close>), are arguments.

  \<^bold>\<open>Loops and fuel.\<close> Only the loop over the seeders may run forever: it has fuel, and C40 says exactly which fuel is enough, by the first
  attempt that succeeds. All other loops are recursive functions with a termination proof.

  \<^bold>\<open>Not modelled.\<close> The printing and reflection parts of the generated codecs, and the stubs and drivers used by tests
  and examples: they only print or forward. The contents of external packages are
  parameters. The real time between turns is not modelled, only which timer fires.
\<close>

section \<open>Direct messages between two nodes\<close>

text \<open>
  The messages handler of a node calls its direct sender; here the state of the collaborators is the
  state of the direct sender together with what it has put on its streams.
\<close>

definition sends_directly :: "pubsub_ops \<Rightarrow> host_ops \<Rightarrow> ('m, cached_value) cacher_ops
  \<Rightarrow> (('k, 'm, 'h) directSender \<times> sent list, 'c, 'sk) handler_ops \<Rightarrow> bool" where
  "sends_directly ps host cache ops \<longleftrightarrow>
     (\<forall>topic b p ds out. ho_DirectSend ops topic b p (ds, out) =
        (let (r, s, ds') = DirectSender.Send ps host cache topic b p ds in (r, (ds', out @ [s]))))"

lemma SendToConnectedPeer_sends:
  assumes "sends_directly ps host cache ops" and "peer \<noteq> h_peerID h" and "h_env h = (ds, out)"
    and "SendToConnectedPeer ops suffix now topic buff peer h = (None, h')" and "h_env h' = (ds', out @ [Flushed st msg])"
  shows "checkSendableData buff = None" and "createMessageBytes now h buff \<noteq> []"
    and "DirectSender.Send ps host cache topic (createMessageBytes now h buff) peer ds = (None, Flushed st msg, ds')"
proof -
  show c: "checkSendableData buff = None" using assms(4) by (auto simp: SendToConnectedPeer_def split: option.splits)
  show b: "createMessageBytes now h buff \<noteq> []"
    using assms(3-5) c by (auto simp: SendToConnectedPeer_def Let_def)
  have env: "ho_DirectSend ops topic (createMessageBytes now h buff) peer (ds, out) = (None, (ds', out @ [Flushed st msg]))"
    using assms(2-5) b c by (auto simp: SendToConnectedPeer_def Let_def split: prod.splits)
  then show "DirectSender.Send ps host cache topic (createMessageBytes now h buff) peer ds = (None, Flushed st msg, ds')"
    using assms(1) by (auto simp: sends_directly_def split: prod.splits)
qed

lemma processReceived_accepts:
  assumes "validateMessageByTimestamp now m = None" and "h_processors h (TopicField m) = Some (Some a)"
  shows "processReceived ops suffix now m p h =
    (None, processDirect ops suffix (snd (GetList (ho_iter ops) (objectAt h a))) m p h)"
  using assms by (simp add: processReceived_def ProcessReceivedMessage_def checkMessage_def)

text \<open>The go routine for a direct message: every processor is called, and the sender is rated when all accept.\<close>

lemma processDirect_effect:
  assumes "BroadcastMethodField m = Direct"
  shows "processDirect ops suffix procs m p h =
    (let accepted = (\<forall>x \<in> set (answers procs m p (h_env h)). snd x = None);
         e = fold (\<lambda>proc e. snd (proc m p e)) procs (h_env h)
     in h\<lparr>h_env := (if accepted \<and> \<not> strings_Contains (TopicField m) suffix then ho_IncreaseRating ops p e else e),
          h_debugger := h_debugger h @ [AddIncomingMessage (TopicField m) (length (DataField m)) (\<not> accepted)]\<rparr>)"
proof -
  obtain i ok e where c: "callProcessors procs m p [] True (h_env h) = (i, ok, e)" by (metis prod_cases3)
  have "ok \<longleftrightarrow> (\<forall>x \<in> set (answers procs m p (h_env h)). snd x = None)"
    using callProcessors_ok [of procs m p "[]" True "h_env h"] c by simp
  moreover have "e = fold (\<lambda>proc e. snd (proc m p e)) procs (h_env h)"
    using callProcessors_env [of procs m p "[]" True "h_env h"] c by simp
  ultimately show ?thesis using c assms by (simp add: processDirect_def increaseRatingIfNeeded_def Let_def)
qed

text \<open>
  C37. Node A sends a buffer to the connected node B with SendToConnectedPeer, and what A put on the stream is read by the
  stream handler of B. When its frame is longer than the largest size of the reader at B, the stream is reset and nothing
  changes at B, although the send succeeded. Otherwise, if B has processors for the topic and the clocks agree (the time of A is
  later than 580 seconds before and earlier than 20 seconds after the time of B), every processor of the topic at B is
  called, in the order of the iteration and whatever the others answer, with a direct message from A with exactly
  this buffer and topic; the debugger of B gets its length and whether it was refused, and the rating of A is increased
  exactly when all processors accept and the topic is not one of requests. On the way the message is packed, numbered,
  signed, checked against replays, verified and unpacked.
\<close>

theorem direct_message_end_to_end:
  assumes "codec_laws ps (ds_marshaller dsB)" and "h_marshaller hA = ds_marshaller dsB"
    and "\<And>b sig. sv_Sign (ds_signer dsA) b = Inr sig \<Longrightarrow> sv_Verify (ds_signer dsB) b pidA sig = None"
    and "\<And>c. c \<in> set (ConnsToPeer host pidB) \<Longrightarrow> LocalPeer c = pidA" and "peer_IDFromBytes ps pidA = Inr pidA"
    and "sends_directly ps host cache opsA" and "pidB \<noteq> h_peerID hA" and "h_env hA = (dsA, out)"
    and "SendToConnectedPeer opsA suffix nowA topic buff pidB hA = (None, hA')" and "h_env hA' = (dsA', out @ [Flushed st msg])"
    and "0 \<le> nowA" "nowA < 2 ^ 63" and "nowB - 580 < nowA" "nowA < nowB + 20"
    and "ds_messageHandler dsB = Some (\<lambda>m pid h. processReceived opsB suffix nowB m pid h)"
    and "\<not> tc_Has tc t (pidA @ PutUint64 (ds_counter dsA + 1)) (ds_seenMessages dsB)"
    and "h_processors hB topic = Some (Some a)" and "delimited_laws ps host reader"
  shows "\<exists>frame. pb_Marshal ps msg = Inr frame \<and>
    (if length frame \<le> maxSendBuffSize
     then \<exists>m dsB' hB'. DataField m = buff \<and> TopicField m = topic \<and> PeerField m = pidA \<and> BroadcastMethodField m = Direct \<and>
       directStreamHandler ps tc reader pidA [(t, Frame frame)] dsB hB = (None, [None], dsB', hB') \<and>
       (let procs = snd (GetList (ho_iter opsB) (objectAt hB a));
            accepted = (\<forall>x \<in> set (answers procs m pidA (h_env hB)). snd x = None);
            e = fold (\<lambda>proc e. snd (proc m pidA e)) procs (h_env hB)
        in hB' = hB\<lparr>h_env := (if accepted \<and> \<not> strings_Contains topic suffix then ho_IncreaseRating opsB pidA e else e),
             h_debugger := h_debugger hB @ [AddIncomingMessage topic (length buff) (\<not> accepted)]\<rparr>)
     else directStreamHandler ps tc reader pidA [(t, Frame frame)] dsB hB = (Some StreamReset, [], dsB, hB))"
proof -
  note sent = SendToConnectedPeer_sends [OF assms(6-10)]
  let ?tm = "TopicMessage_zero\<lparr>tm_Version := currentTopicMessageVersion, tm_Payload := buff, tm_Timestamp := word_of_int nowA\<rparr>"
  have tm: "tm_Marshal (ds_marshaller dsB) ?tm = Inr (createMessageBytes nowA hA buff)"
    using createMessageBytes_Inr [OF sent(2)] assms(2) by simp
  have accepts: "processReceived opsB suffix nowB m pidA hB =
      (None, processDirect opsB suffix (snd (GetList (ho_iter opsB) (objectAt hB a))) m pidA hB)"
    if "TimestampField m = word_of_int nowA" "TopicField m = topic" for m
  proof (rule processReceived_accepts)
    have "sint (word_of_int nowA :: int64) = nowA" using assms(11,12) by (simp add: signed_of_int signed_take_bit_int_eq_self)
    with that(1) assms(13,14) show "validateMessageByTimestamp nowB m = None"
      by (simp add: validate_iff pubsubTimeCacheDuration_def acceptMessagesInAdvanceDuration_def)
  qed (simp add: that(2) assms(17))
  have fields: "tm_Version ?tm = currentTopicMessageVersion" "tm_Pk ?tm = []" "tm_SignatureOnPid ?tm = []"
    "tm_Payload ?tm = buff" "tm_Timestamp ?tm = word_of_int nowA" by (simp_all add: TopicMessage_zero_def)
  note received = sent_frame_received [OF assms(1,3-5) tm fields(1-3) sent(3) assms(15,16,18), of hB, unfolded fields(4,5)]
  then obtain frame where frame: "pb_Marshal ps msg = Inr frame" by blast
  show ?thesis
  proof (cases "length frame \<le> maxSendBuffSize")
    case True
    with received frame obtain m where m: "DataField m = buff" "TopicField m = topic" "PeerField m = pidA" "TimestampField m = word_of_int nowA"
        "BroadcastMethodField m = Direct"
      and d: "directStreamHandler ps tc reader pidA [(t, Frame frame)] dsB hB = (None, [fst (processReceived opsB suffix nowB m pidA hB)],
        dsB\<lparr>ds_seenMessages := tc_Add tc t (pidA @ PutUint64 (ds_counter dsA + 1)) (ds_seenMessages dsB)\<rparr>,
        snd (processReceived opsB suffix nowB m pidA hB))"
      by (auto simp del: directStreamHandler.simps)
    note d = d [unfolded accepts [OF m(4,2)] processDirect_effect [OF m(5)] m(1,2) Let_def fst_conv snd_conv]
    show ?thesis unfolding Let_def
      by (rule exI [of _ frame], rule conjI, rule frame, subst if_P [OF True], rule exI [of _ m]) (use m d in blast)
  qed (use frame received in \<open>auto simp del: directStreamHandler.simps\<close>)
qed

type_synonym example_sender =
  "(int \<times> (bytes \<times> int) list, cached_value CacherMock, (nat list, unit CacherMock, unit) messagesHandler) directSender"

definition example_dsB :: example_sender where
  "example_dsB = example_ds (\<lambda>m pid h. processReceived example_ops ''_REQUEST'' 100 m pid h)"

type_synonym example_env = "example_sender \<times> sent list"

definition example_opsA :: "(example_env, unit CacherMock, unit) handler_ops" where
  "example_opsA = \<lparr>ho_pubsub = plain_pubsub, ho_RegisterTopicValidator = (\<lambda>t v. None), ho_UnregisterTopicValidator = (\<lambda>t v. None),
     ho_Join = (\<lambda>t. Inr 0), ho_Subscribe = (\<lambda>t. Inr 0), ho_TopicClose = (\<lambda>t. None), ho_Publish = (\<lambda>t b sk e. (None, e)),
     ho_DirectSend = (\<lambda>topic b p (ds, out). let (r, s, ds') = DirectSender.Send plain_pubsub example_host CacherMock_ops topic b p ds
                                            in (r, (ds', out @ [s]))),
     ho_NextSequenceNumber = (\<lambda>e. ([1], e)), ho_CanProcess = (\<lambda>e. True), ho_StartProcessing = (\<lambda>e. e), ho_EndProcessing = (\<lambda>e. e),
     ho_IsDenied = (\<lambda>p e. False), ho_UpsertPeerID = (\<lambda>p d e. (None, e)), ho_IncreaseRating = (\<lambda>p e. e), ho_UnmarshalSk = (\<lambda>b. Inr ()),
     ho_NewCache = (\<lambda>n. Inr NewCacherMock), ho_cache = CacherMock_ops, ho_iter = (\<lambda>xs. xs)\<rparr>"

definition example_hA :: "(example_env, unit CacherMock, unit) messagesHandler" where
  "example_hA = \<lparr>h_env = (example_dsB, []), h_objects = Map.empty, h_nextObject = 0, h_processors = Map.empty, h_validators = Map.empty,
     h_topics = Map.empty, h_subscriptions = Map.empty, h_cancelled = {}, h_equivalentMessages = Map.empty,
     h_outgoingCLB = h_outgoingCLB example_handler, h_marshaller = plain_marshaller, h_debugger = [], h_peerID = [9], h_ctxDone = False\<rparr>"

theorem direct_message_end_to_end_witness:
  "\<exists>hA' dsA' st msg frame dsB' hB'. SendToConnectedPeer example_opsA ''_REQUEST'' 100 ''t'' [5, 6] [8] example_hA = (None, hA') \<and>
     h_env hA' = (dsA', [Flushed st msg]) \<and> pb_Marshal plain_pubsub msg = Inr frame \<and>
     directStreamHandler plain_pubsub example_tc example_reader [9] [(5, Frame frame)] example_dsB example_registered = (None, [None], dsB', hB') \<and>
     h_env hB' = [1, 2] \<and> h_debugger hB' = h_debugger example_registered @ [AddIncomingMessage ''t'' 2 False]"
proof -
  obtain st msg dsA' frame where s: "DirectSender.Send plain_pubsub example_host CacherMock_ops ''t'' example_topic_bytes [8] example_dsB =
      (None, Flushed st msg, dsA')" and frame: "pb_Marshal plain_pubsub msg = Inr frame" "length frame \<le> maxSendBuffSize"
    using example_direct_send [where hnd = "\<lambda>m pid h. processReceived example_ops ''_REQUEST'' 100 m pid h"] unfolding example_dsB_def by metis
  have b: "createMessageBytes 100 example_hA [5, 6] = example_topic_bytes"
    using example_tm_bytes
    by (simp add: createMessageBytes_def example_hA_def example_tm_def currentTopicMessageVersion_def TopicMessage_zero_def)
  have ne: "example_topic_bytes \<noteq> []" by (simp add: example_topic_bytes_def TopicMessage_bytes_def varint_field_def)
  let ?hA' = "example_hA\<lparr>h_env := (dsA', [Flushed st msg]),
      h_debugger := [AddOutgoingMessage ''t'' (length example_topic_bytes) False]\<rparr>"
  have send: "SendToConnectedPeer example_opsA ''_REQUEST'' 100 ''t'' [5, 6] [8] example_hA = (None, ?hA')"
    using s b ne
    by (simp add: SendToConnectedPeer_def checkSendableData_def maxSendBuffSize_def messageHeader_def)
      (simp add: example_opsA_def example_hA_def)
  have codec: "codec_laws plain_pubsub (ds_marshaller example_dsB)" by (simp add: example_dsB_def example_ds_def plain_codec_laws)
  have direct: "sends_directly plain_pubsub example_host CacherMock_ops example_opsA" by (simp add: sends_directly_def example_opsA_def)
  have env: "h_env example_hA = (example_dsB, [])" "h_env ?hA' = (dsA', [] @ [Flushed st msg])" by (simp_all add: example_hA_def)
  have fresh: "\<not> tc_Has example_tc 5 ([9] @ PutUint64 (ds_counter example_dsB + 1)) (ds_seenMessages example_dsB)"
    by (simp add: example_dsB_def example_ds_def example_tc_def example_newTimeCache_def)
  have reg: "h_processors example_registered ''t'' = Some (Some 0)" by (simp add: example_registered_eq)
  have handler: "ds_messageHandler example_dsB = Some (\<lambda>m pid h. processReceived example_ops ''_REQUEST'' 100 m pid h)"
    by (simp add: example_dsB_def example_ds_def)
  have "\<exists>dsB' hB'. directStreamHandler plain_pubsub example_tc example_reader [9] [(5, Frame frame)] example_dsB example_registered =
      (None, [None], dsB', hB') \<and> h_env hB' = [1, 2] \<and> h_debugger hB' = h_debugger example_registered @ [AddIncomingMessage ''t'' 2 False]"
    using direct_message_end_to_end [OF codec _ _ _ _ direct _ env(1) send env(2) _ _ _ _ handler fresh reg example_delimited] frame
    by (simp del: directStreamHandler.simps)
      (auto simp: example_dsB_def example_ds_def example_sv_def example_host_def plain_pubsub_def example_hA_def example_registered_eq GetList_def
        example_ops_def example_processor_def Let_def simp del: directStreamHandler.simps)
  with send frame(1) env(2) show ?thesis unfolding append_Nil by blast
qed

end
